(* ===== verification/Prelude.thy ===== *)
theory Prelude
  imports Main "HOL-Library.Word"
begin

text \<open>
  Common ground of the development: the machine integer types of the C code, the faults a C
  function can run into, the sequencing of fallible steps, byte-level load and store, decimal
  formatting as \<^verbatim>\<open>snprintf\<close> does it, and the rounding macro. Every other theory imports this one.
\<close>

unbundle bit_operations_syntax

section \<open>Machine integers\<close>

type_synonym byte = "8 word"
type_synonym u16 = "16 word"
type_synonym u32 = "32 word"
type_synonym u64 = "64 word"

text \<open>
  A C \<^verbatim>\<open>int\<close> that is only compared, added without overflow or printed is an \<^typ>\<open>int\<close>; one that
  is stored in a fixed width field or converted is a word, read with \<^const>\<open>sint\<close>.
\<close>

type_synonym s32 = "32 word"

named_theorems flag_defs \<open>definitions of the single bit flags\<close>
named_theorems layout_simps \<open>lengths and field offsets of encoded structures\<close>

lemma and_bit_neq_0_iff: "x AND push_bit n 1 \<noteq> 0 \<longleftrightarrow> bit x n"
  for x :: "'a::len word"
  by (simp add: push_bit_eq_mult and_exp_eq_0_iff_not_bit)

lemma take_bit_word_self: "unat x < 2 ^ n \<Longrightarrow> take_bit n x = x"
  for x :: "'a::len word"
proof -
  assume "unat x < 2 ^ n"
  then have "take_bit n (unat x) = unat x" by (rule take_bit_nat_eq_self)
  then have "unat (take_bit n x) = unat x" by (simp only: unsigned_take_bit_eq)
  then show ?thesis by (rule word_unat_eq_iff [THEN iffD2])
qed

lemma high_bit_clear: "unat x < 2 ^ n \<Longrightarrow> n \<le> m \<Longrightarrow> \<not> bit x m"
  for x :: "'a::len word"
  by (drule take_bit_word_self [symmetric], erule ssubst) (simp add: bit_take_bit_iff)

section \<open>Faults and sequencing\<close>

text \<open>
  What can stop a C function from returning to its caller: a failed \<^verbatim>\<open>assert\<close>, an access outside
  an object or through a null pointer, a lock that nobody will release, and a retry loop that
  never ends.
\<close>

datatype fault = Assert_failed | Bad_access | Deadlock | No_return

type_synonym 'a result = "fault + 'a"

definition bindE :: "'a result \<Rightarrow> ('a \<Rightarrow> 'b result) \<Rightarrow> 'b result" where
  "bindE m f = (case m of Inl e \<Rightarrow> Inl e | Inr x \<Rightarrow> f x)"

lemma bindE_simps [simp]:
  "bindE (Inl e) f = Inl e"
  "bindE (Inr x) f = f x"
  by (simp_all add: bindE_def)

lemma bindE_cong [fundef_cong]:
  "m = m' \<Longrightarrow> (\<And>x. m' = Inr x \<Longrightarrow> f x = f' x) \<Longrightarrow> bindE m f = bindE m' f'"
  by (cases m') (auto simp: bindE_def)

lemma bindE_eq_Inr_iff: "bindE m f = Inr y \<longleftrightarrow> (\<exists>x. m = Inr x \<and> f x = Inr y)"
  by (cases m) auto

lemma bindE_eq_Inl_iff: "bindE m f = Inl e \<longleftrightarrow> m = Inl e \<or> (\<exists>x. m = Inr x \<and> f x = Inl e)"
  by (cases m) auto

text \<open>\<^verbatim>\<open>assert(c)\<close>.\<close>

definition assertE :: "bool \<Rightarrow> unit result" where
  "assertE c = (if c then Inr () else Inl Assert_failed)"

lemma assertE_simps [simp]:
  "assertE True = Inr ()"
  "assertE False = Inl Assert_failed"
  "assertE c = Inr u \<longleftrightarrow> c"
  by (simp_all add: assertE_def)

section \<open>Lists\<close>

text \<open>Reading an updated list, without a side condition.\<close>

lemma nth_list_update_if: "xs[i := x] ! j = (if i = j \<and> j < length xs then x else xs ! j)"
  by (cases "i < length xs") (auto simp: nth_list_update list_update_beyond)

section \<open>Bytes in memory\<close>

text \<open>
  \<open>le_bytes n w\<close> is the \<open>n\<close> byte little-endian image of \<open>w\<close>, \<open>le_word\<close> reads one back;
  the modelled machines (x86-64, arm64) are little-endian.
\<close>

fun le_bytes :: "nat \<Rightarrow> 'a::len word \<Rightarrow> byte list" where
  "le_bytes 0 w = []"
| "le_bytes (Suc n) w = ucast w # le_bytes n (drop_bit 8 w)"

fun le_word :: "byte list \<Rightarrow> 'a::len word" where
  "le_word [] = 0"
| "le_word (b # bs) = ucast b OR push_bit 8 (le_word bs)"

lemma length_le_bytes [simp, layout_simps]: "length (le_bytes n w) = n"
  by (induction n w rule: le_bytes.induct) auto

lemma le_word_le_bytes: "le_word (le_bytes n w) = take_bit (8 * n) w"
proof (induction n arbitrary: w)
  case 0
  then show ?case by simp
next
  case (Suc n)
  show ?case
    by (rule bit_eqI) (auto simp: Suc bit_simps)
qed

text \<open>A field that is wide enough for its value is read back unchanged.\<close>

lemma le_word_le_bytes_id [simp]:
  "LENGTH('a) \<le> 8 * n \<Longrightarrow> le_word (le_bytes n w) = w" for w :: "'a::len word"
  by (simp add: le_word_le_bytes) (rule bit_eqI, auto simp: bit_simps)

declare le_bytes.simps [simp del] le_word.simps [simp del]

text \<open>Overwriting a prefix of a buffer, never past its end.\<close>

definition overlay :: "'a list \<Rightarrow> 'a list \<Rightarrow> 'a list" where
  "overlay out buf = take (length buf) out @ drop (length out) buf"

lemma length_overlay [simp, layout_simps]: "length (overlay out buf) = length buf"
  by (simp add: overlay_def)

lemma overlay_full: "length out = length buf \<Longrightarrow> overlay out buf = out"
  by (simp add: overlay_def)

lemma overlay_Nil [simp]: "overlay [] buf = buf"
  by (simp add: overlay_def)

lemma take_overlay: "length out \<le> length buf \<Longrightarrow> take (length out) (overlay out buf) = out"
  by (simp add: overlay_def)

text \<open>Replacing the bytes of a buffer from an offset on, as a store or \<^verbatim>\<open>memcpy\<close> does.\<close>

definition store_at :: "nat \<Rightarrow> 'a list \<Rightarrow> 'a list \<Rightarrow> 'a list" where
  "store_at off bs buf = take off buf @ overlay bs (drop off buf)"

lemma length_store_at [simp, layout_simps]: "length (store_at off bs buf) = length buf"
  by (simp add: store_at_def)

lemma drop_store_at: "off \<le> length buf \<Longrightarrow> drop off (store_at off bs buf) = overlay bs (drop off buf)"
  by (simp add: store_at_def)

lemma take_store_at: "n \<le> off \<Longrightarrow> take n (store_at off bs buf) = take n buf"
  by (cases "off \<le> length buf") (simp_all add: store_at_def overlay_def min_def)

lemma load_store_at:
  "off + length bs \<le> length buf \<Longrightarrow> take (length bs) (drop off (store_at off bs buf)) = bs"
  by (simp add: drop_store_at take_overlay)

text \<open>The little-endian field of \<open>n\<close> bytes at offset \<open>off\<close> of a structure.\<close>

definition field :: "nat \<Rightarrow> nat \<Rightarrow> byte list \<Rightarrow> 'a::len word" where
  "field off n bs = le_word (take n (drop off bs))"

lemma field_skip [simp, layout_simps]:
  "length xs \<le> off \<Longrightarrow> field off n (xs @ ys) = field (off - length xs) n ys"
  by (simp add: field_def)

lemma field_here [simp, layout_simps]:
  "LENGTH('a) \<le> 8 * n \<Longrightarrow> field 0 n (le_bytes n w @ ys) = (w :: 'a::len word)"
  by (simp add: field_def)

lemma field_last [simp, layout_simps]:
  "LENGTH('a) \<le> 8 * n \<Longrightarrow> field 0 n (le_bytes n w) = (w :: 'a::len word)"
  by (simp add: field_def)

section \<open>Interface: structures with a byte image\<close>

text \<open>
  A structure that is copied as raw memory: \<open>enc\<close> is its image, \<open>sz\<close> bytes long, and \<open>dec\<close> reads
  it from the start of a memory area, whatever follows.
\<close>

locale codec =
  fixes enc :: "'a \<Rightarrow> byte list"
    and dec :: "byte list \<Rightarrow> 'a"
    and sz :: nat
    and ok :: "'a \<Rightarrow> bool"
  assumes length_enc: "ok x \<Longrightarrow> length (enc x) = sz"
    and dec_enc: "ok x \<Longrightarrow> dec (enc x @ rest) = x"
begin

lemma dec_enc_id: "ok x \<Longrightarrow> dec (enc x) = x"
  using dec_enc [of x "[]"] by simp

lemma enc_inj: "ok x \<Longrightarrow> ok y \<Longrightarrow> enc x = enc y \<longleftrightarrow> x = y"
  by (metis dec_enc_id)

text \<open>Copied into a buffer at an offset and read from there.\<close>

lemma dec_stored:
  assumes "ok x" "off + sz \<le> length buf"
  shows "dec (drop off (store_at off (enc x) buf)) = x"
  using assms by (simp add: drop_store_at overlay_def length_enc dec_enc)

text \<open>Stored over a buffer of its size.\<close>

lemma dec_overlay: "ok x \<Longrightarrow> length buf = sz \<Longrightarrow> dec (overlay (enc x) buf) = x"
  by (simp add: overlay_full length_enc dec_enc_id)

text \<open>Element \<open>i\<close> of an array of structures.\<close>

lemma dec_array:
  "\<forall>x \<in> set xs. ok x \<Longrightarrow> i < length xs \<Longrightarrow> dec (drop (sz * i) (concat (map enc xs))) = xs ! i"
proof (induction xs arbitrary: i)
  case Nil
  then show ?case by simp
next
  case (Cons x xs)
  then show ?case by (cases i) (simp_all add: dec_enc length_enc)
qed

lemma length_array: "\<forall>x \<in> set xs. ok x \<Longrightarrow> length (concat (map enc xs)) = sz * length xs"
  by (induction xs) (simp_all add: length_enc)

end

section \<open>Interface: systems with an invariant\<close>

text \<open>A transition system whose initial states satisfy a property that every step keeps.\<close>

locale invariant_system =
  fixes initial :: "'s \<Rightarrow> bool"
    and next_state :: "'s \<Rightarrow> 's \<Rightarrow> bool"
    and invariant :: "'s \<Rightarrow> bool"
  assumes initial_invariant: "initial s \<Longrightarrow> invariant s"
    and next_invariant: "next_state s s' \<Longrightarrow> invariant s \<Longrightarrow> invariant s'"
begin

lemma run_invariant: "next_state\<^sup>*\<^sup>* s s' \<Longrightarrow> invariant s \<Longrightarrow> invariant s'"
  by (induction rule: rtranclp_induct) (auto intro: next_invariant)

lemma reachable_invariant: "initial s \<Longrightarrow> next_state\<^sup>*\<^sup>* s s' \<Longrightarrow> invariant s'"
  by (blast intro: run_invariant initial_invariant)

text \<open>A relation between the ends of a step that is reflexive and transitive holds over runs.\<close>

lemma run_relation:
  assumes "next_state\<^sup>*\<^sup>* s s'" "invariant s"
    and step: "\<And>a b. next_state a b \<Longrightarrow> invariant a \<Longrightarrow> R a b"
    and refl: "\<And>a. R a a" and trans: "\<And>a b c. R a b \<Longrightarrow> R b c \<Longrightarrow> R a c"
  shows "R s s'"
  using assms(1)
proof (induction rule: rtranclp_induct)
  case base
  show ?case by (rule refl)
next
  case (step t u)
  have "invariant t" using step.hyps(1) assms(2) by (rule run_invariant)
  then show ?case using step assms(3) trans by blast
qed

text \<open>A system that always makes its measure smaller while busy stops being busy.\<close>

lemma run_until:
  assumes "invariant s"
    and work: "\<And>a. invariant a \<Longrightarrow> G a \<Longrightarrow> busy a \<Longrightarrow>
      \<exists>b. next_state a b \<and> G b \<and> (m b :: nat) < m a"
  shows "G s \<Longrightarrow> \<exists>s'. next_state\<^sup>*\<^sup>* s s' \<and> invariant s' \<and> G s' \<and> \<not> busy s'"
  using assms(1)
proof (induction "m s" arbitrary: s rule: less_induct)
  case less
  show ?case
  proof (cases "busy s")
    case True
    with work less.prems obtain b where b: "next_state s b" "G b" "m b < m s" by blast
    then have "invariant b" using next_invariant less.prems by blast
    with less.hyps [OF b(3)] b show ?thesis by (meson converse_rtranclp_into_rtranclp)
  qed (use less.prems in blast)
qed

end

section \<open>C strings\<close>

definition str_bytes :: "string \<Rightarrow> byte list" where
  "str_bytes s = map (\<lambda>c. word_of_nat (of_char c)) s"

lemma unat_of_char: "unat (word_of_nat (of_char c) :: byte) = of_char c"
proof -
  have "(of_char c :: nat) \<in> range of_char" by simp
  then have "(of_char c :: nat) < 256" by (simp add: range_nat_of_char)
  then show ?thesis by (simp add: unsigned_of_nat take_bit_nat_eq_self)
qed

lemma length_str_bytes [simp]: "length (str_bytes s) = length s"
  by (simp add: str_bytes_def)

text \<open>What \<^verbatim>\<open>snprintf(buf, n, ...)\<close> writes for the formatted string \<open>s\<close>.\<close>

definition snprintf :: "nat \<Rightarrow> string \<Rightarrow> byte list" where
  "snprintf n s = (if n = 0 then [] else str_bytes (take (n - 1) s) @ [0])"

lemma length_snprintf_le: "length (snprintf n s) \<le> n"
  by (cases n) (simp_all add: snprintf_def)

text \<open>The C string at the start of a buffer: the bytes before the first NUL.\<close>

definition cstring :: "byte list \<Rightarrow> byte list" where
  "cstring bs = takeWhile (\<lambda>b. b \<noteq> 0) bs"

text \<open>\<^verbatim>\<open>"%d"\<close> and \<^verbatim>\<open>"%ld"\<close>.\<close>

definition digit_char :: "nat \<Rightarrow> char" where
  "digit_char d = ''0123456789'' ! (d mod 10)"

fun nat_dec :: "nat \<Rightarrow> string" where
  "nat_dec n = (if n < 10 then [digit_char n] else nat_dec (n div 10) @ [digit_char (n mod 10)])"

declare nat_dec.simps [simp del]

definition int_dec :: "int \<Rightarrow> string" where
  "int_dec i = (if i < 0 then CHR ''-'' # nat_dec (nat (- i)) else nat_dec (nat i))"

lemma length_nat_dec: "n < 10 ^ k \<Longrightarrow> 0 < k \<Longrightarrow> length (nat_dec n) \<le> k"
proof (induction n arbitrary: k rule: nat_dec.induct)
  case (1 n)
  show ?case
  proof (cases "n < 10")
    case True
    with "1.prems" show ?thesis by (simp add: nat_dec.simps)
  next
    case False
    obtain j where k: "k = Suc j" using "1.prems" by (cases k) auto
    have "0 < j" using "1.prems" False k by (cases j) auto
    have "n div 10 < 10 ^ j" using "1.prems" k by simp
    note this \<open>0 < j\<close>
    from "1.IH" [OF False this] k False show ?thesis
      by (simp add: nat_dec.simps [of n])
  qed
qed

lemma less_10_cases: "d < 10 \<Longrightarrow> d \<in> {0, 1, 2, 3, 4, 5, 6, 7, 8, 9}" for d :: nat
  by auto

lemma digit_char_inj: "a < 10 \<Longrightarrow> b < 10 \<Longrightarrow> digit_char a = digit_char b \<longleftrightarrow> a = b"
  by (auto simp: digit_char_def nth_eq_iff_index_eq)

lemma set_nat_dec: "set (nat_dec n) \<subseteq> digit_char ` {0..<10}"
  by (induction n rule: nat_dec.induct) (subst nat_dec.simps, auto)

lemma nat_dec_nonempty [simp]: "nat_dec n \<noteq> []"
  by (subst nat_dec.simps) simp

lemma nat_dec_inj: "nat_dec m = nat_dec n \<Longrightarrow> m = n"
proof (induction m arbitrary: n rule: nat_dec.induct)
  case (1 m)
  show ?case
  proof (cases "m < 10 \<or> n < 10")
    case True
    with "1.prems" show ?thesis
      by (auto simp: nat_dec.simps [of m] nat_dec.simps [of n] digit_char_inj append_eq_Cons_conv
          Cons_eq_append_conv split: if_splits)
  next
    case False
    with "1.prems" have "nat_dec (m div 10) = nat_dec (n div 10)" "m mod 10 = n mod 10"
      by (simp_all add: nat_dec.simps [of m] nat_dec.simps [of n] digit_char_inj)
    with "1.IH" False have "m div 10 = n div 10" by auto
    with \<open>m mod 10 = n mod 10\<close> show ?thesis by (metis div_mult_mod_eq)
  qed
qed

lemma minus_notin_digits: "CHR ''-'' \<notin> digit_char ` {0..<10}"
  by (auto simp: digit_char_def dest!: less_10_cases)

lemma hd_nat_dec: "hd (nat_dec n) \<noteq> CHR ''-''"
proof
  assume eq: "hd (nat_dec n) = CHR ''-''"
  have "hd (nat_dec n) \<in> digit_char ` {0..<10}"
    by (rule subsetD [OF set_nat_dec hd_in_set]) simp
  with minus_notin_digits show False unfolding eq by (rule notE)
qed

lemma nat_dec_neq_minus: "nat_dec n \<noteq> CHR ''-'' # s"
proof
  assume "nat_dec n = CHR ''-'' # s"
  with hd_nat_dec [of n] show False by simp
qed

lemma int_dec_inj: "int_dec i = int_dec j \<longleftrightarrow> i = j"
proof
  assume "int_dec i = int_dec j"
  moreover have "\<not> (0 \<le> i \<and> j < 0)" "\<not> (i < 0 \<and> 0 \<le> j)"
    using calculation by (auto simp: int_dec_def nat_dec_neq_minus nat_dec_neq_minus [symmetric])
  ultimately show "i = j"
    by (auto simp: int_dec_def split: if_splits dest!: nat_dec_inj)
qed simp

text \<open>Which characters a formatted number is made of: never a NUL.\<close>

lemma digit_byte_nonzero: "d < 10 \<Longrightarrow> (word_of_nat (of_char (digit_char d)) :: byte) \<noteq> 0"
  by (auto simp: digit_char_def dest!: less_10_cases)

lemma str_bytes_append: "str_bytes (s @ t) = str_bytes s @ str_bytes t"
  by (simp add: str_bytes_def)

lemma nat_dec_no_nul: "0 \<notin> set (str_bytes (nat_dec n))"
  using set_nat_dec [of n] digit_byte_nonzero by (fastforce simp: str_bytes_def)

lemma int_dec_no_nul: "0 \<notin> set (str_bytes (int_dec i))"
  using nat_dec_no_nul by (auto simp: int_dec_def str_bytes_def)

lemma length_int_dec: "- (10 ^ k) < i \<Longrightarrow> i < 10 ^ k \<Longrightarrow> 0 < k \<Longrightarrow> length (int_dec i) \<le> Suc k"
  using length_nat_dec [of "nat (- i)" k] length_nat_dec [of "nat i" k]
  by (auto simp: int_dec_def nat_less_iff nat_power_eq)

text \<open>
  A string without NUL that fits is stored completely, and the buffer then starts with it.
\<close>

lemma cstring_snprintf:
  assumes "length s < n" and "0 \<notin> set (str_bytes s)"
  shows "cstring (snprintf n s @ rest) = str_bytes s"
proof -
  have "takeWhile (\<lambda>b. b \<noteq> 0) (str_bytes s @ 0 # rest) = str_bytes s"
    using assms(2) by (subst takeWhile_append2) auto
  with assms(1) show ?thesis by (simp add: cstring_def snprintf_def)
qed

lemma str_bytes_inj: "str_bytes s = str_bytes t \<longleftrightarrow> s = t"
proof -
  have "inj (\<lambda>c. word_of_nat (of_char c) :: byte)"
  proof (rule injI)
    fix a b
    assume "(word_of_nat (of_char a) :: byte) = word_of_nat (of_char b)"
    from arg_cong [OF this, of unat] show "a = b" by (simp add: unat_of_char)
  qed
  then show ?thesis by (simp add: str_bytes_def inj_map_eq_map)
qed

section \<open>Rounding up\<close>

text \<open>The macro \<^verbatim>\<open>round_up(val, rnd)\<close>, on the type its arguments are converted to.\<close>

definition round_up :: "'a::len word \<Rightarrow> 'a word \<Rightarrow> 'a word" where
  "round_up val rnd = (val + (rnd - 1)) AND NOT (rnd - 1)"

lemma and_not_mask_eq: "(x :: 'a::len word) AND NOT (2 ^ n - 1) = x - take_bit n x"
proof -
  have "x = (x AND NOT (mask n)) + take_bit n x"
    by (subst disjunctive_add) (auto simp: bit_simps intro!: bit_word_eqI)
  then show ?thesis by (simp add: mask_eq_exp_minus_1 algebra_simps)
qed

text \<open>For a power of two it is the least multiple of it that is at least the value.\<close>

lemma round_up_spec:
  assumes n: "n < LENGTH('a)" and fits: "unat val + 2 ^ n \<le> 2 ^ LENGTH('a)"
  shows "unat (round_up (val :: 'a::len word) (2 ^ n)) = (unat val + (2 ^ n - 1)) div 2 ^ n * 2 ^ n"
proof -
  let ?s = "val + (2 ^ n - 1)"
  have "unat ((2::'a word) ^ n) = 2 ^ n"
    using n by (simp add: of_nat_inverse)
  moreover have "(2::'a word) ^ n \<noteq> 0"
    using n by simp
  ultimately have u: "unat ((2::'a word) ^ n - 1) = 2 ^ n - 1"
    by (simp add: unat_minus_one del: unsigned_minus_1_eq_mask)
  have s: "unat ?s = unat val + (2 ^ n - 1)"
  proof -
    have "(0::nat) < 2 ^ n" by simp
    with fits have "unat val + (2 ^ n - 1) < 2 ^ LENGTH('a)" by linarith
    then show ?thesis by (simp add: unat_add_lem [THEN iffD1] u)
  qed
  have t: "unat (take_bit n ?s) = unat ?s mod 2 ^ n"
    by (simp only: unsigned_take_bit_eq) (simp only: take_bit_eq_mod)
  have "unat (?s - take_bit n ?s) = unat ?s - unat ?s mod 2 ^ n"
    by (subst unat_sub) (auto simp: t word_le_nat_alt)
  then show ?thesis
    by (simp add: round_up_def and_not_mask_eq s minus_mod_eq_div_mult)
qed

end
