(* ===== verification/Abi.thy ===== *)
theory Abi
  imports Prelude
begin

text \<open>
  The ABI of the ublk driver as \<^verbatim>\<open>ublkhelper.h\<close> declares it: command numbers and their ioctl
  encoding, flag bits, result codes, and the structures shared with the driver as records, with
  their byte images where the code copies them as raw memory. Pointers that the code only passes
  around are \<^typ>\<open>u64\<close> values.
\<close>

section \<open>Error numbers and result codes\<close>

text \<open>The negative of a Linux error number, as the code returns it.\<close>

definition EINTR :: int where "EINTR = 4"
definition EIO :: int where "EIO = 5"
definition EAGAIN :: int where "EAGAIN = 11"
definition ENOMEM :: int where "ENOMEM = 12"
definition ENODEV :: int where "ENODEV = 19"
definition EINVAL :: int where "EINVAL = 22"
definition ETIME :: int where "ETIME = 62"
definition EOPNOTSUPP :: int where "EOPNOTSUPP = 95"

lemmas errno_defs = EINTR_def EIO_def EAGAIN_def ENOMEM_def ENODEV_def EINVAL_def ETIME_def
  EOPNOTSUPP_def

definition UBLK_IO_RES_OK :: int where "UBLK_IO_RES_OK = 0"
definition UBLK_IO_RES_NEED_GET_DATA :: int where "UBLK_IO_RES_NEED_GET_DATA = 1"
definition UBLK_IO_RES_ABORT :: int where "UBLK_IO_RES_ABORT = - ENODEV"

lemmas io_res_defs = UBLK_IO_RES_OK_def UBLK_IO_RES_NEED_GET_DATA_def UBLK_IO_RES_ABORT_def

section \<open>Command numbers and the ioctl encoding\<close>

definition UBLK_CMD_GET_QUEUE_AFFINITY :: u32 where "UBLK_CMD_GET_QUEUE_AFFINITY = 0x01"
definition UBLK_CMD_GET_DEV_INFO :: u32 where "UBLK_CMD_GET_DEV_INFO = 0x02"
definition UBLK_CMD_ADD_DEV :: u32 where "UBLK_CMD_ADD_DEV = 0x04"
definition UBLK_CMD_DEL_DEV :: u32 where "UBLK_CMD_DEL_DEV = 0x05"
definition UBLK_CMD_START_DEV :: u32 where "UBLK_CMD_START_DEV = 0x06"
definition UBLK_CMD_STOP_DEV :: u32 where "UBLK_CMD_STOP_DEV = 0x07"
definition UBLK_CMD_SET_PARAMS :: u32 where "UBLK_CMD_SET_PARAMS = 0x08"
definition UBLK_CMD_GET_PARAMS :: u32 where "UBLK_CMD_GET_PARAMS = 0x09"
definition UBLK_CMD_START_USER_RECOVERY :: u32 where "UBLK_CMD_START_USER_RECOVERY = 0x10"
definition UBLK_CMD_END_USER_RECOVERY :: u32 where "UBLK_CMD_END_USER_RECOVERY = 0x11"
definition UBLK_CMD_GET_DEV_INFO2 :: u32 where "UBLK_CMD_GET_DEV_INFO2 = 0x12"

lemmas ctrl_cmd_defs = UBLK_CMD_GET_QUEUE_AFFINITY_def UBLK_CMD_GET_DEV_INFO_def
  UBLK_CMD_ADD_DEV_def UBLK_CMD_DEL_DEV_def UBLK_CMD_START_DEV_def UBLK_CMD_STOP_DEV_def
  UBLK_CMD_SET_PARAMS_def UBLK_CMD_GET_PARAMS_def UBLK_CMD_START_USER_RECOVERY_def
  UBLK_CMD_END_USER_RECOVERY_def UBLK_CMD_GET_DEV_INFO2_def

definition UBLK_IO_FETCH_REQ :: u32 where "UBLK_IO_FETCH_REQ = 0x20"
definition UBLK_IO_COMMIT_AND_FETCH_REQ :: u32 where "UBLK_IO_COMMIT_AND_FETCH_REQ = 0x21"
definition UBLK_IO_NEED_GET_DATA :: u32 where "UBLK_IO_NEED_GET_DATA = 0x22"

lemmas io_cmd_defs = UBLK_IO_FETCH_REQ_def UBLK_IO_COMMIT_AND_FETCH_REQ_def
  UBLK_IO_NEED_GET_DATA_def

text \<open>
  The generic Linux \<^verbatim>\<open>_IOC\<close> encoding: number in bits 0-7, type in 8-15, argument size in 16-29,
  direction in 30-31.
\<close>

definition IOC :: "u32 \<Rightarrow> u32 \<Rightarrow> u32 \<Rightarrow> u32 \<Rightarrow> u32" where
  "IOC dir ty nr sz = push_bit 30 dir OR push_bit 8 ty OR nr OR push_bit 16 sz"

definition IOC_NR :: "u32 \<Rightarrow> u32" where "IOC_NR x = x AND 0xff"
definition IOC_TYPE :: "u32 \<Rightarrow> u32" where "IOC_TYPE x = drop_bit 8 x AND 0xff"
definition IOC_SIZE :: "u32 \<Rightarrow> u32" where "IOC_SIZE x = drop_bit 16 x AND 0x3fff"
definition IOC_DIR :: "u32 \<Rightarrow> u32" where "IOC_DIR x = drop_bit 30 x AND 3"

definition IOR :: "u32 \<Rightarrow> u32 \<Rightarrow> u32 \<Rightarrow> u32" where "IOR ty nr sz = IOC 2 ty nr sz"
definition IOWR :: "u32 \<Rightarrow> u32 \<Rightarrow> u32 \<Rightarrow> u32" where "IOWR ty nr sz = IOC 3 ty nr sz"

lemmas ioc_defs = IOC_def IOC_NR_def IOC_TYPE_def IOC_SIZE_def IOC_DIR_def IOR_def IOWR_def

definition sizeof_ctrl_cmd :: u32 where "sizeof_ctrl_cmd = 32"
definition sizeof_io_cmd :: u32 where "sizeof_io_cmd = 16"
definition sizeof_io_desc :: u32 where "sizeof_io_desc = 24"
definition sizeof_dev_info :: nat where "sizeof_dev_info = 64"
definition sizeof_params :: nat where "sizeof_params = 112"
definition sizeof_cpu_set :: nat where "sizeof_cpu_set = 128"
definition sizeof_message :: nat where "sizeof_message = 32"

lemmas sizeof_defs = sizeof_ctrl_cmd_def sizeof_io_cmd_def sizeof_io_desc_def sizeof_dev_info_def
  sizeof_params_def sizeof_cpu_set_def sizeof_message_def

text \<open>The character \<^verbatim>\<open>'u'\<close>.\<close>

definition ioc_u :: u32 where "ioc_u = 0x75"

definition UBLK_U_CMD_ADD_DEV :: u32 where
  "UBLK_U_CMD_ADD_DEV = IOWR ioc_u UBLK_CMD_ADD_DEV sizeof_ctrl_cmd"

text \<open>The table \<^verbatim>\<open>ctrl_cmd_op\<close>; an index without an initialiser holds 0.\<close>

definition ctrl_cmd_op :: "u32 list" where
  "ctrl_cmd_op =
    [0,
     IOR ioc_u UBLK_CMD_GET_QUEUE_AFFINITY sizeof_ctrl_cmd,
     IOR ioc_u UBLK_CMD_GET_DEV_INFO sizeof_ctrl_cmd,
     0,
     UBLK_U_CMD_ADD_DEV,
     IOWR ioc_u UBLK_CMD_DEL_DEV sizeof_ctrl_cmd,
     IOWR ioc_u UBLK_CMD_START_DEV sizeof_ctrl_cmd,
     IOWR ioc_u UBLK_CMD_STOP_DEV sizeof_ctrl_cmd,
     IOWR ioc_u UBLK_CMD_SET_PARAMS sizeof_ctrl_cmd,
     IOR ioc_u UBLK_CMD_GET_PARAMS sizeof_ctrl_cmd,
     0, 0, 0, 0, 0, 0,
     IOWR ioc_u UBLK_CMD_START_USER_RECOVERY sizeof_ctrl_cmd,
     IOWR ioc_u UBLK_CMD_END_USER_RECOVERY sizeof_ctrl_cmd,
     IOR ioc_u UBLK_CMD_GET_DEV_INFO2 sizeof_ctrl_cmd]"

definition legacy_op_to_ioctl :: "u32 \<Rightarrow> u32 result" where
  "legacy_op_to_ioctl op =
    bindE (assertE (IOC_TYPE op = 0)) (\<lambda>_.
    bindE (assertE (IOC_DIR op = 0)) (\<lambda>_.
    bindE (assertE (IOC_SIZE op = 0)) (\<lambda>_.
    bindE (assertE (UBLK_CMD_GET_QUEUE_AFFINITY \<le> op \<and> op \<le> UBLK_CMD_GET_DEV_INFO2)) (\<lambda>_.
    Inr (ctrl_cmd_op ! unat op)))))"

text \<open>The command numbers of the header, with the holes of the table left out.\<close>

definition legacy_ops :: "u32 list" where
  "legacy_ops =
    [UBLK_CMD_GET_QUEUE_AFFINITY, UBLK_CMD_GET_DEV_INFO, UBLK_CMD_ADD_DEV, UBLK_CMD_DEL_DEV,
     UBLK_CMD_START_DEV, UBLK_CMD_STOP_DEV, UBLK_CMD_SET_PARAMS, UBLK_CMD_GET_PARAMS,
     UBLK_CMD_START_USER_RECOVERY, UBLK_CMD_END_USER_RECOVERY, UBLK_CMD_GET_DEV_INFO2]"

lemma small_op_no_ioc_fields:
  "op < 256 \<Longrightarrow> IOC_TYPE op = 0 \<and> IOC_DIR op = 0 \<and> IOC_SIZE op = 0" for op :: u32
proof -
  assume "op < 256"
  then have "\<not> bit op n" if "8 \<le> n" for n
    using that by (intro high_bit_clear [of _ 8]) (simp_all add: word_less_nat_alt)
  then have "drop_bit k op = 0" if "8 \<le> k" for k
    using that by (intro bit_eqI) (simp add: bit_drop_bit_eq)
  then show ?thesis
    by (simp add: IOC_TYPE_def IOC_DIR_def IOC_SIZE_def)
qed

lemma legacy_op_to_ioctl_iff:
  "legacy_op_to_ioctl op =
     (if 1 \<le> op \<and> op \<le> 0x12 then Inr (ctrl_cmd_op ! unat op) else Inl Assert_failed)"
proof (cases "op < 256")
  case True
  then show ?thesis
    by (simp add: legacy_op_to_ioctl_def small_op_no_ioc_fields assertE_def ctrl_cmd_defs)
next
  case False
  then have "\<not> op \<le> 0x12" by (simp add: word_le_nat_alt word_less_nat_alt)
  then show ?thesis
    by (auto simp: legacy_op_to_ioctl_def assertE_def ctrl_cmd_defs bindE_def)
qed

text \<open>Each command keeps its number in the ioctl encoding and carries the type \<^verbatim>\<open>'u'\<close> and the
  size of the command structure.\<close>

lemma ctrl_cmd_op_table:
  "list_all (\<lambda>op. let c = ctrl_cmd_op ! unat op in
     1 \<le> op \<and> op \<le> 0x12 \<and> IOC_NR c = op \<and> IOC_TYPE c = ioc_u \<and> IOC_SIZE c = sizeof_ctrl_cmd
     \<and> (IOC_DIR c = 2 \<or> IOC_DIR c = 3)) legacy_ops"
  by code_simp

lemma legacy_op_to_ioctl_encoding:
  "op \<in> set legacy_ops \<Longrightarrow>
   \<exists>c. legacy_op_to_ioctl op = Inr c \<and> IOC_NR c = op \<and> IOC_TYPE c = ioc_u
     \<and> IOC_SIZE c = sizeof_ctrl_cmd \<and> (IOC_DIR c = 2 \<or> IOC_DIR c = 3)"
  using ctrl_cmd_op_table by (auto simp: legacy_op_to_ioctl_iff list_all_iff Let_def)

section \<open>Flag bits\<close>

definition UBLK_F_UNPRIVILEGED_DEV :: u64 where [flag_defs]: "UBLK_F_UNPRIVILEGED_DEV = push_bit 5 1"
definition UBLK_F_CMD_IOCTL_ENCODE :: u64 where [flag_defs]: "UBLK_F_CMD_IOCTL_ENCODE = push_bit 6 1"
definition UBLK_F_USER_COPY :: u64 where [flag_defs]: "UBLK_F_USER_COPY = push_bit 7 1"
definition UBLKSRV_F_NEED_EVENTFD :: u64 where [flag_defs]: "UBLKSRV_F_NEED_EVENTFD = push_bit 1 1"

definition UBLKSRV_NEED_FETCH_RQ :: u32 where [flag_defs]: "UBLKSRV_NEED_FETCH_RQ = push_bit 0 1"
definition UBLKSRV_NEED_COMMIT_RQ_COMP :: u32 where
  [flag_defs]: "UBLKSRV_NEED_COMMIT_RQ_COMP = push_bit 1 1"
definition UBLKSRV_IO_FREE :: u32 where [flag_defs]: "UBLKSRV_IO_FREE = push_bit 2 1"
definition UBLKSRV_NEED_GET_DATA :: u32 where [flag_defs]: "UBLKSRV_NEED_GET_DATA = push_bit 3 1"

definition UBLKSRV_QUEUE_STOPPING :: u32 where [flag_defs]: "UBLKSRV_QUEUE_STOPPING = push_bit 0 1"
definition UBLKSRV_QUEUE_IDLE :: u32 where [flag_defs]: "UBLKSRV_QUEUE_IDLE = push_bit 1 1"
definition UBLKSRV_QUEUE_IOCTL_OP :: u32 where [flag_defs]: "UBLKSRV_QUEUE_IOCTL_OP = push_bit 2 1"
definition UBLKSRV_USER_COPY :: u32 where [flag_defs]: "UBLKSRV_USER_COPY = push_bit 3 1"

definition UBLK_PARAM_TYPE_BASIC :: u32 where [flag_defs]: "UBLK_PARAM_TYPE_BASIC = push_bit 0 1"
definition UBLK_PARAM_TYPE_DISCARD :: u32 where [flag_defs]: "UBLK_PARAM_TYPE_DISCARD = push_bit 1 1"

text \<open>\<^verbatim>\<open>x & FLAG\<close> in a condition.\<close>

definition has_flag :: "'a::len word \<Rightarrow> 'a word \<Rightarrow> bool" where
  "has_flag x f \<longleftrightarrow> x AND f \<noteq> 0"

lemma has_flag_bit: "has_flag x (push_bit n 1) \<longleftrightarrow> bit x n"
  by (simp add: has_flag_def and_bit_neq_0_iff del: push_bit_of_1)

text \<open>Each flag test is the test of one bit; \<open>flag_simps\<close> turns flag goals into bit goals.\<close>

lemma io_flag_iffs:
  "has_flag x UBLKSRV_NEED_FETCH_RQ \<longleftrightarrow> bit x 0"
  "has_flag x UBLKSRV_NEED_COMMIT_RQ_COMP \<longleftrightarrow> bit x 1"
  "has_flag x UBLKSRV_IO_FREE \<longleftrightarrow> bit x 2"
  "has_flag x UBLKSRV_NEED_GET_DATA \<longleftrightarrow> bit x 3"
  by (simp_all only: flag_defs has_flag_bit)

lemma queue_flag_iffs:
  "has_flag x UBLKSRV_QUEUE_STOPPING \<longleftrightarrow> bit x 0"
  "has_flag x UBLKSRV_QUEUE_IDLE \<longleftrightarrow> bit x 1"
  "has_flag x UBLKSRV_QUEUE_IOCTL_OP \<longleftrightarrow> bit x 2"
  "has_flag x UBLKSRV_USER_COPY \<longleftrightarrow> bit x 3"
  by (simp_all only: flag_defs has_flag_bit)

lemma dev_flag_iffs:
  "has_flag x UBLK_F_UNPRIVILEGED_DEV \<longleftrightarrow> bit x 5"
  "has_flag x UBLK_F_CMD_IOCTL_ENCODE \<longleftrightarrow> bit x 6"
  "has_flag x UBLK_F_USER_COPY \<longleftrightarrow> bit x 7"
  "has_flag x UBLKSRV_F_NEED_EVENTFD \<longleftrightarrow> bit x 1"
  by (simp_all only: flag_defs has_flag_bit)

lemma has_flag_or: "has_flag x (f OR g) \<longleftrightarrow> has_flag x f \<or> has_flag x g"
  unfolding has_flag_def
  by (metis (no_types, opaque_lifting) bit.conj_disj_distrib or_eq_0_iff)

end
