(* ===== verification/Structs.thy ===== *)
theory Structs
  imports Abi
begin

text \<open>
  The structures of \<^verbatim>\<open>ublkhelper.h\<close>. A field prefix names the structure. Structures that the code
  hands to the driver or copies with \<^verbatim>\<open>memcpy\<close> also have their byte image (the LP64 layout with its
  padding) and the function that reads the structure back from memory.
\<close>

section \<open>Control device structures\<close>

record dev_data =
  dd_dev_id :: int
  dd_max_io_buf_bytes :: u32
  dd_nr_hw_queues :: u16
  dd_queue_depth :: u16
  dd_tgt_type :: u64
  dd_tgt_ops :: u64
  dd_tgt_argc :: int
  dd_tgt_argv :: u64
  dd_run_dir :: "string option"
  dd_flags :: u64
  dd_ublksrv_flags :: u64

record dev_info =
  di_nr_hw_queues :: u16
  di_queue_depth :: u16
  di_state :: u16
  di_pad0 :: u16
  di_max_io_buf_bytes :: u32
  di_dev_id :: u32
  di_ublksrv_pid :: s32
  di_pad1 :: u32
  di_flags :: u64
  di_ublksrv_flags :: u64
  di_owner_uid :: u32
  di_owner_gid :: u32
  di_reserved1 :: u64
  di_reserved2 :: u64

definition dev_info_bytes :: "dev_info \<Rightarrow> byte list" where
  "dev_info_bytes i =
    le_bytes 2 (di_nr_hw_queues i) @ le_bytes 2 (di_queue_depth i) @ le_bytes 2 (di_state i) @
    le_bytes 2 (di_pad0 i) @ le_bytes 4 (di_max_io_buf_bytes i) @ le_bytes 4 (di_dev_id i) @
    le_bytes 4 (di_ublksrv_pid i) @ le_bytes 4 (di_pad1 i) @ le_bytes 8 (di_flags i) @
    le_bytes 8 (di_ublksrv_flags i) @ le_bytes 4 (di_owner_uid i) @ le_bytes 4 (di_owner_gid i) @
    le_bytes 8 (di_reserved1 i) @ le_bytes 8 (di_reserved2 i)"

definition dev_info_of :: "byte list \<Rightarrow> dev_info" where
  "dev_info_of b =
    \<lparr>di_nr_hw_queues = field 0 2 b, di_queue_depth = field 2 2 b, di_state = field 4 2 b,
     di_pad0 = field 6 2 b, di_max_io_buf_bytes = field 8 4 b, di_dev_id = field 12 4 b,
     di_ublksrv_pid = field 16 4 b, di_pad1 = field 20 4 b, di_flags = field 24 8 b,
     di_ublksrv_flags = field 32 8 b, di_owner_uid = field 40 4 b, di_owner_gid = field 44 4 b,
     di_reserved1 = field 48 8 b, di_reserved2 = field 56 8 b\<rparr>"

lemma length_dev_info_bytes [simp, layout_simps]: "length (dev_info_bytes i) = 64"
  by (simp add: dev_info_bytes_def)

lemma dev_info_of_bytes [simp]: "dev_info_of (dev_info_bytes i) = i"
  by (cases i) (simp add: dev_info_of_def dev_info_bytes_def)

text \<open>
  \<^verbatim>\<open>struct ublksrv_ctrl_dev\<close>. The ring is represented by its file descriptor, the CPU set buffer by
  its content (None for a null pointer).
\<close>

record ctrl_dev =
  cd_ring_fd :: int
  cd_ctrl_fd :: int
  cd_bs_shift :: u32
  cd_info :: dev_info
  cd_tgt_type :: u64
  cd_tgt_ops :: u64
  cd_run_dir :: "string option"
  cd_tgt_argc :: int
  cd_tgt_argv :: u64
  cd_cpuset :: "byte list option"

text \<open>\<^verbatim>\<open>struct ublksrv_ctrl_cmd_data\<close>, the command as the library passes it around.\<close>

record cmd_data =
  cm_op :: u32
  cm_flags :: u16
  cm_data :: u64
  cm_dev_path_len :: u16
  cm_addr :: u64
  cm_len :: u32

definition CTRL_CMD_HAS_DATA :: u16 where [flag_defs]: "CTRL_CMD_HAS_DATA = push_bit 0 1"
definition CTRL_CMD_HAS_BUF :: u16 where [flag_defs]: "CTRL_CMD_HAS_BUF = push_bit 1 1"
definition CTRL_CMD_NO_TRANS :: u16 where [flag_defs]: "CTRL_CMD_NO_TRANS = push_bit 2 1"

lemma cmd_flag_iffs:
  "has_flag x CTRL_CMD_HAS_DATA \<longleftrightarrow> bit x 0"
  "has_flag x CTRL_CMD_HAS_BUF \<longleftrightarrow> bit x 1"
  "has_flag x CTRL_CMD_NO_TRANS \<longleftrightarrow> bit x 2"
  by (simp_all only: flag_defs has_flag_bit)

text \<open>\<^verbatim>\<open>struct ublksrv_ctrl_cmd\<close>, the command as the driver reads it from the submission entry.\<close>

record ctrl_cmd =
  cc_dev_id :: u32
  cc_queue_id :: u16
  cc_len :: u16
  cc_addr :: u64
  cc_data :: u64
  cc_dev_path_len :: u16
  cc_pad :: u16
  cc_reserved :: u32

text \<open>
  The fields of \<^verbatim>\<open>struct io_uring_sqe\<close> the code touches; \<open>'c\<close> is the command area that starts at
  \<^verbatim>\<open>addr3\<close>. \<open>sqe_off\<close> holds the two 32-bit halves of \<^verbatim>\<open>off\<close>.
\<close>

record 'c sqe =
  sqe_opcode :: byte
  sqe_flags :: byte
  sqe_ioprio :: u16
  sqe_fd :: int
  sqe_off0 :: u32
  sqe_off1 :: u32
  sqe_rw_flags :: u32
  sqe_user_data :: u64
  sqe_cmd :: 'c

definition IORING_OP_URING_CMD :: byte where "IORING_OP_URING_CMD = 46"
definition IOSQE_FIXED_FILE :: byte where "IOSQE_FIXED_FILE = 1"

definition ublksrv_set_sqe_cmd_op :: "u32 \<Rightarrow> 'c sqe \<Rightarrow> 'c sqe" where
  "ublksrv_set_sqe_cmd_op cmd_op sqe = sqe\<lparr>sqe_off0 := cmd_op, sqe_off1 := 0\<rparr>"

section \<open>Device parameters\<close>

record param_basic =
  pb_attrs :: u32
  pb_logical_bs_shift :: byte
  pb_physical_bs_shift :: byte
  pb_io_opt_shift :: byte
  pb_io_min_shift :: byte
  pb_max_sectors :: u32
  pb_chunk_sectors :: u32
  pb_dev_sectors :: u64
  pb_virt_boundary_mask :: u64

record param_discard =
  pd_discard_alignment :: u32
  pd_discard_granularity :: u32
  pd_max_discard_sectors :: u32
  pd_max_write_zeroes_sectors :: u32
  pd_max_discard_segments :: u16
  pd_reserved0 :: u16

record param_devt =
  pv_char_major :: u32
  pv_char_minor :: u32
  pv_disk_major :: u32
  pv_disk_minor :: u32

record param_zoned =
  pz_max_open_zones :: u32
  pz_max_active_zones :: u32
  pz_max_zone_append_sectors :: u32
  pz_reserved :: "byte list"

record ublk_params =
  up_len :: u32
  up_types :: u32
  up_basic :: param_basic
  up_discard :: param_discard
  up_devt :: param_devt
  up_zoned :: param_zoned

text \<open>The 20 reserved bytes of the zoned parameters are an array in C.\<close>

definition wf_params :: "ublk_params \<Rightarrow> bool" where
  "wf_params p \<longleftrightarrow> length (pz_reserved (up_zoned p)) = 20"

definition basic_bytes :: "param_basic \<Rightarrow> byte list" where
  "basic_bytes p =
    le_bytes 4 (pb_attrs p) @ le_bytes 1 (pb_logical_bs_shift p) @
    le_bytes 1 (pb_physical_bs_shift p) @ le_bytes 1 (pb_io_opt_shift p) @
    le_bytes 1 (pb_io_min_shift p) @ le_bytes 4 (pb_max_sectors p) @
    le_bytes 4 (pb_chunk_sectors p) @ le_bytes 8 (pb_dev_sectors p) @
    le_bytes 8 (pb_virt_boundary_mask p)"

definition basic_of :: "byte list \<Rightarrow> param_basic" where
  "basic_of b =
    \<lparr>pb_attrs = field 0 4 b, pb_logical_bs_shift = field 4 1 b, pb_physical_bs_shift = field 5 1 b,
     pb_io_opt_shift = field 6 1 b, pb_io_min_shift = field 7 1 b, pb_max_sectors = field 8 4 b,
     pb_chunk_sectors = field 12 4 b, pb_dev_sectors = field 16 8 b,
     pb_virt_boundary_mask = field 24 8 b\<rparr>"

definition discard_bytes :: "param_discard \<Rightarrow> byte list" where
  "discard_bytes p =
    le_bytes 4 (pd_discard_alignment p) @ le_bytes 4 (pd_discard_granularity p) @
    le_bytes 4 (pd_max_discard_sectors p) @ le_bytes 4 (pd_max_write_zeroes_sectors p) @
    le_bytes 2 (pd_max_discard_segments p) @ le_bytes 2 (pd_reserved0 p)"

definition discard_of :: "byte list \<Rightarrow> param_discard" where
  "discard_of b =
    \<lparr>pd_discard_alignment = field 0 4 b, pd_discard_granularity = field 4 4 b,
     pd_max_discard_sectors = field 8 4 b, pd_max_write_zeroes_sectors = field 12 4 b,
     pd_max_discard_segments = field 16 2 b, pd_reserved0 = field 18 2 b\<rparr>"

definition devt_bytes :: "param_devt \<Rightarrow> byte list" where
  "devt_bytes p =
    le_bytes 4 (pv_char_major p) @ le_bytes 4 (pv_char_minor p) @ le_bytes 4 (pv_disk_major p) @
    le_bytes 4 (pv_disk_minor p)"

definition devt_of :: "byte list \<Rightarrow> param_devt" where
  "devt_of b =
    \<lparr>pv_char_major = field 0 4 b, pv_char_minor = field 4 4 b, pv_disk_major = field 8 4 b,
     pv_disk_minor = field 12 4 b\<rparr>"

definition zoned_bytes :: "param_zoned \<Rightarrow> byte list" where
  "zoned_bytes p =
    le_bytes 4 (pz_max_open_zones p) @ le_bytes 4 (pz_max_active_zones p) @
    le_bytes 4 (pz_max_zone_append_sectors p) @ pz_reserved p"

definition zoned_of :: "byte list \<Rightarrow> param_zoned" where
  "zoned_of b =
    \<lparr>pz_max_open_zones = field 0 4 b, pz_max_active_zones = field 4 4 b,
     pz_max_zone_append_sectors = field 8 4 b, pz_reserved = take 20 (drop 12 b)\<rparr>"

lemma length_param_bytes [simp, layout_simps]:
  "length (basic_bytes b) = 32"
  "length (discard_bytes d) = 20"
  "length (devt_bytes v) = 16"
  by (simp_all add: basic_bytes_def discard_bytes_def devt_bytes_def)

lemma basic_of_bytes [simp]: "basic_of (basic_bytes p) = p"
  by (cases p) (simp add: basic_of_def basic_bytes_def)

lemma discard_of_bytes [simp]: "discard_of (discard_bytes p) = p"
  by (cases p) (simp add: discard_of_def discard_bytes_def)

lemma devt_of_bytes [simp]: "devt_of (devt_bytes p) = p"
  by (cases p) (simp add: devt_of_def devt_bytes_def)

lemma zoned_of_bytes [simp]: "length (pz_reserved p) = 20 \<Longrightarrow> zoned_of (zoned_bytes p) = p"
  by (cases p) (simp add: zoned_of_def zoned_bytes_def)

text \<open>The four trailing bytes align the structure to 8.\<close>

definition ublk_params_bytes :: "ublk_params \<Rightarrow> byte list" where
  "ublk_params_bytes p =
    le_bytes 4 (up_len p) @ le_bytes 4 (up_types p) @ basic_bytes (up_basic p) @
    discard_bytes (up_discard p) @ devt_bytes (up_devt p) @ zoned_bytes (up_zoned p) @
    replicate 4 0"

definition ublk_params_of :: "byte list \<Rightarrow> ublk_params" where
  "ublk_params_of b =
    \<lparr>up_len = field 0 4 b, up_types = field 4 4 b, up_basic = basic_of (take 32 (drop 8 b)),
     up_discard = discard_of (take 20 (drop 40 b)), up_devt = devt_of (take 16 (drop 60 b)),
     up_zoned = zoned_of (take 32 (drop 76 b))\<rparr>"

lemma length_ublk_params_bytes [layout_simps]:
  "wf_params p \<Longrightarrow> length (ublk_params_bytes p) = sizeof_params"
  by (simp add: ublk_params_bytes_def zoned_bytes_def wf_params_def sizeof_params_def)

lemma ublk_params_of_bytes:
  "wf_params p \<Longrightarrow> ublk_params_of (ublk_params_bytes p) = p"
proof -
  assume "wf_params p"
  then have "length (zoned_bytes (up_zoned p)) = 32" "length (pz_reserved (up_zoned p)) = 20"
    by (simp_all add: zoned_bytes_def wf_params_def)
  then show ?thesis
    by (cases p) (simp add: ublk_params_of_def ublk_params_bytes_def)
qed

definition zero_params :: ublk_params where
  "zero_params = ublk_params_of (replicate 112 0)"

section \<open>Queue structures\<close>

text \<open>\<^verbatim>\<open>struct ublksrv_io_cmd\<close>, the command area of an I/O submission entry.\<close>

record io_cmd =
  ic_q_id :: u16
  ic_tag :: u16
  ic_result :: s32
  ic_addr :: u64

text \<open>\<^verbatim>\<open>struct ublksrv_io_desc\<close>, written by the driver into the mapped command buffer.\<close>

record io_desc =
  id_op_flags :: u32
  id_nr_sectors :: u32
  id_start_sector :: u64
  id_addr :: u64

definition io_desc_of :: "byte list \<Rightarrow> io_desc" where
  "io_desc_of b =
    \<lparr>id_op_flags = field 0 4 b, id_nr_sectors = field 4 4 b, id_start_sector = field 8 8 b,
     id_addr = field 16 8 b\<rparr>"

definition io_desc_bytes :: "io_desc \<Rightarrow> byte list" where
  "io_desc_bytes d =
    le_bytes 4 (id_op_flags d) @ le_bytes 4 (id_nr_sectors d) @ le_bytes 8 (id_start_sector d) @
    le_bytes 8 (id_addr d)"

lemma length_io_desc_bytes [simp, layout_simps]: "length (io_desc_bytes d) = 24"
  by (simp add: io_desc_bytes_def)

lemma io_desc_of_bytes [simp]: "io_desc_of (io_desc_bytes d) = d"
  by (cases d) (simp add: io_desc_of_def io_desc_bytes_def)

text \<open>
  \<^verbatim>\<open>struct ublk_io\<close> with its \<^verbatim>\<open>struct ublk_io_data\<close>: \<open>io_iod\<close> is the offset of the descriptor in the
  mapped command buffer (None for a null pointer), \<open>io_private\<close> the heap block of the private data.
\<close>

record ublk_io =
  io_buf_addr :: u64
  io_flags :: u32
  io_result :: u32
  io_tag :: int
  io_iod :: "nat option"
  io_private :: "byte list"

section \<open>Device structures\<close>

record tgt_info =
  tg_dev_size :: u64
  tg_ring_depth :: u32
  tg_nr_fds :: u32
  tg_fds :: "int list"
  tg_extra_ios :: u32
  tg_io_data_size :: u32
  tg_ops :: u64
  tg_iowq_max_workers :: "u32 \<times> u32"

text \<open>\<^verbatim>\<open>struct _ublksrv_dev\<close>; the queue table is kept by the daemon model.\<close>

record ublksrv_dev =
  ud_tgt :: tgt_info
  ud_cdev_fd :: int
  ud_pid_file_fd :: int
  ud_cq_depth :: int

section \<open>The structures as codecs\<close>

interpretation info_codec: codec dev_info_bytes dev_info_of 64 "\<lambda>_. True"
proof unfold_locales
  fix x rest
  show "dev_info_of (dev_info_bytes x @ rest) = x"
    by (cases x) (simp add: dev_info_of_def dev_info_bytes_def)
qed simp

interpretation desc_codec: codec io_desc_bytes io_desc_of 24 "\<lambda>_. True"
proof unfold_locales
  fix x rest
  show "io_desc_of (io_desc_bytes x @ rest) = x"
    by (cases x) (simp add: io_desc_of_def io_desc_bytes_def)
qed simp

interpretation params_codec: codec ublk_params_bytes ublk_params_of 112 wf_params
proof unfold_locales
  fix x rest
  assume "wf_params x"
  then have "length (zoned_bytes (up_zoned x)) = 32" "length (pz_reserved (up_zoned x)) = 20"
    by (simp_all add: zoned_bytes_def wf_params_def)
  then show "ublk_params_of (ublk_params_bytes x @ rest) = x"
    by (cases x) (simp add: ublk_params_of_def ublk_params_bytes_def)
qed (simp add: length_ublk_params_bytes sizeof_params_def)

end
