(* ===== verification/User_Data.thy ===== *)
theory User_Data
  imports Structs
begin

text \<open>
  The 64-bit \<^verbatim>\<open>user_data\<close> cookie that ties a completion to its request: tag in bits 0-15, command
  number in bits 16-23, target data from bit 24 on, and bit 63 for requests of the target itself
  (\<^verbatim>\<open>build_user_data\<close>, \<^verbatim>\<open>user_data_to_tag\<close>, \<^verbatim>\<open>user_data_to_op\<close> and \<^verbatim>\<open>is_target_io\<close>).
\<close>

definition build_user_data :: "u32 \<Rightarrow> u32 \<Rightarrow> u32 \<Rightarrow> u32 \<Rightarrow> u64 result" where
  "build_user_data tag op tgt_data is_target_io =
    bindE (assertE (drop_bit 16 tag = 0 \<and> drop_bit 8 op = 0 \<and> drop_bit 16 tgt_data = 0)) (\<lambda>_.
    Inr (ucast (tag OR push_bit 16 op OR push_bit 24 tgt_data) OR
         push_bit 63 (ucast is_target_io)))"

definition user_data_to_tag :: "u64 \<Rightarrow> u32" where
  "user_data_to_tag user_data = ucast (user_data AND 0xffff)"

definition user_data_to_op :: "u64 \<Rightarrow> u32" where
  "user_data_to_op user_data = ucast (drop_bit 16 user_data AND 0xff)"

definition is_target_io :: "u64 \<Rightarrow> bool" where
  "is_target_io user_data \<longleftrightarrow> user_data AND push_bit 63 1 \<noteq> 0"

lemma low_masks: "(0xffff :: u64) = mask 16" "(0xff :: u64) = mask 8" "(0xff :: u32) = mask 8"
  by (simp_all add: mask_eq_exp_minus_1)

lemma is_target_io_bit: "is_target_io x \<longleftrightarrow> bit x 63"
  by (simp add: is_target_io_def and_bit_neq_0_iff del: push_bit_of_1)

lemma drop_bit_0_iff: "drop_bit n x = 0 \<longleftrightarrow> (\<forall>m\<ge>n. \<not> bit x m)" for x :: "'a::len word"
proof
  assume "drop_bit n x = 0"
  then have "\<not> bit (drop_bit n x) m" for m by simp
  then show "\<forall>m\<ge>n. \<not> bit x m"
    by (auto simp: bit_drop_bit_eq dest!: le_Suc_ex)
next
  assume "\<forall>m\<ge>n. \<not> bit x m"
  then show "drop_bit n x = 0" by (intro bit_eqI) (simp add: bit_drop_bit_eq)
qed

lemma drop_bit_0_if_less: "unat x < 2 ^ n \<Longrightarrow> drop_bit n x = 0" for x :: "'a::len word"
  using high_bit_clear by (auto simp: drop_bit_0_iff)

text \<open>The cookie bit by bit.\<close>

lemma bit_user_data:
  assumes "build_user_data tag op tgt tio = Inr ud"
  shows "bit ud n \<longleftrightarrow>
    (n < 32 \<and> (bit tag n \<or> 16 \<le> n \<and> bit op (n - 16) \<or> 24 \<le> n \<and> bit tgt (n - 24)))
    \<or> n = 63 \<and> bit tio 0"
proof -
  have ud: "ud = ucast (tag OR push_bit 16 op OR push_bit 24 tgt) OR push_bit 63 (ucast tio)"
    using assms by (auto simp: build_user_data_def bindE_eq_Inr_iff)
  show ?thesis
    by (cases "n = 63") (auto simp: ud bit_simps dest: bit_imp_le_length)
qed

lemma build_user_data_fields:
  assumes "build_user_data tag op tgt tio = Inr ud"
  shows "(\<forall>m\<ge>16. \<not> bit tag m) \<and> (\<forall>m\<ge>8. \<not> bit op m) \<and> (\<forall>m\<ge>16. \<not> bit tgt m)"
  using assms by (auto simp: build_user_data_def bindE_eq_Inr_iff drop_bit_0_iff)

text \<open>Decoding gives back what was encoded.\<close>

lemma user_data_tag:
  "build_user_data tag op tgt tio = Inr ud \<Longrightarrow> user_data_to_tag ud = tag"
  using build_user_data_fields [of tag op tgt tio ud]
  by (intro bit_eqI)
     (auto simp: user_data_to_tag_def low_masks bit_user_data bit_simps not_le
       dest: bit_imp_le_length)

lemma user_data_op:
  "build_user_data tag op tgt tio = Inr ud \<Longrightarrow> user_data_to_op ud = op"
proof -
  assume ud: "build_user_data tag op tgt tio = Inr ud"
  note f = build_user_data_fields [OF ud]
  have "n < 8" if "bit op n" for n using f that by (meson not_le)
  then have "bit op n \<Longrightarrow> n < 16" for n by force
  with f show "user_data_to_op ud = op"
    by (intro bit_eqI)
       (auto simp: user_data_to_op_def low_masks bit_user_data [OF ud] bit_simps not_le
         dest: bit_imp_le_length)
qed

lemma user_data_target:
  "build_user_data tag op tgt tio = Inr ud \<Longrightarrow> is_target_io ud \<longleftrightarrow> odd tio"
  by (simp add: is_target_io_bit bit_user_data bit_0)

lemma build_user_data_ok:
  "unat tag < 2 ^ 16 \<Longrightarrow> unat op < 2 ^ 8 \<Longrightarrow> unat tgt < 2 ^ 16 \<Longrightarrow>
   \<exists>ud. build_user_data tag op tgt tio = Inr ud"
  by (auto simp: build_user_data_def drop_bit_0_if_less)

end
