(* ===== verification/Message.thy ===== *)
theory Message
  imports Structs
begin

text \<open>
  The request header handed to the target (\<^verbatim>\<open>struct message\<close>), the byte order helpers of
  \<^verbatim>\<open>ublksrv_tgt_endian.h\<close>, and \<^verbatim>\<open>__longhorn_build_req\<close>, which fills the header from the driver's
  I/O descriptor. The byte order of the host is a parameter.
\<close>

datatype endian = Little | Big

text \<open>The value whose \<open>n\<close> bytes are those of \<open>w\<close> in the opposite order.\<close>

definition bswap :: "nat \<Rightarrow> 'a::len word \<Rightarrow> 'a word" where
  "bswap n w = le_word (rev (le_bytes n w))"

text \<open>\<^verbatim>\<open>HOST_CONVERT\<close>: conversion between host order and a fixed order, on \<open>n\<close> byte values.\<close>

definition cpu_to_le :: "endian \<Rightarrow> nat \<Rightarrow> 'a::len word \<Rightarrow> 'a word" where
  "cpu_to_le h n w = (case h of Little \<Rightarrow> w | Big \<Rightarrow> bswap n w)"

definition cpu_to_be :: "endian \<Rightarrow> nat \<Rightarrow> 'a::len word \<Rightarrow> 'a word" where
  "cpu_to_be h n w = (case h of Little \<Rightarrow> bswap n w | Big \<Rightarrow> w)"

definition le_to_cpu :: "endian \<Rightarrow> nat \<Rightarrow> 'a::len word \<Rightarrow> 'a word" where
  "le_to_cpu h n w = (case h of Little \<Rightarrow> w | Big \<Rightarrow> bswap n w)"

definition be_to_cpu :: "endian \<Rightarrow> nat \<Rightarrow> 'a::len word \<Rightarrow> 'a word" where
  "be_to_cpu h n w = (case h of Little \<Rightarrow> bswap n w | Big \<Rightarrow> w)"

text \<open>How a host stores a value.\<close>

definition mem_bytes :: "endian \<Rightarrow> nat \<Rightarrow> 'a::len word \<Rightarrow> byte list" where
  "mem_bytes h n w = (case h of Little \<Rightarrow> le_bytes n w | Big \<Rightarrow> rev (le_bytes n w))"

lemma le_bytes_le_word:
  "length bs \<le> n \<Longrightarrow> 8 * length bs \<le> LENGTH('a) \<Longrightarrow>
   take (length bs) (le_bytes n (le_word bs :: 'a::len word)) = bs"
proof (induction bs arbitrary: n)
  case Nil
  then show ?case by simp
next
  case (Cons b bs)
  then obtain m where n: "n = Suc m" by (cases n) auto
  have "ucast (le_word (b # bs) :: 'a word) = b"
    using Cons.prems by (intro bit_eqI) (auto simp: le_word.simps bit_simps)
  moreover have "drop_bit 8 (le_word (b # bs) :: 'a word) = take_bit (LENGTH('a) - 8) (le_word bs)"
    by (intro bit_eqI) (auto simp: le_word.simps bit_simps dest: bit_imp_le_length)
  moreover have "take_bit (LENGTH('a) - 8) (le_word bs :: 'a word) = le_word bs"
  proof -
    have "\<not> bit (le_word xs :: 'a word) k" if "8 * length xs \<le> k" for xs k
      using that by (induction xs arbitrary: k) (auto simp: le_word.simps bit_simps dest: bit_imp_le_length)
    then have "\<not> bit (le_word bs :: 'a word) k" if "LENGTH('a) - 8 \<le> k" for k
      using that Cons.prems by simp
    then show ?thesis by (intro bit_eqI) (auto simp: bit_simps not_le[symmetric])
  qed
  ultimately show ?case using Cons n by (simp add: le_bytes.simps)
qed

lemma le_bytes_le_word_id:
  "length bs = n \<Longrightarrow> 8 * n \<le> LENGTH('a) \<Longrightarrow> le_bytes n (le_word bs :: 'a::len word) = bs"
  using le_bytes_le_word [where 'a = 'a, of bs n] by simp

lemma le_bytes_bswap: "8 * n \<le> LENGTH('a) \<Longrightarrow> le_bytes n (bswap n w) = rev (le_bytes n w)"
  for w :: "'a::len word"
  by (simp add: bswap_def le_bytes_le_word_id)

lemma bswap_bswap: "LENGTH('a) = 8 * n \<Longrightarrow> bswap n (bswap n w) = w" for w :: "'a::len word"
  by (simp add: bswap_def [of n "bswap n w"] le_bytes_bswap)

text \<open>On every host the converted value lies in memory in the fixed order.\<close>

lemma mem_bytes_cpu_to_le:
  "8 * n \<le> LENGTH('a) \<Longrightarrow> mem_bytes h n (cpu_to_le h n w) = le_bytes n w" for w :: "'a::len word"
  by (cases h) (simp_all add: mem_bytes_def cpu_to_le_def le_bytes_bswap)

lemma mem_bytes_cpu_to_be:
  "8 * n \<le> LENGTH('a) \<Longrightarrow> mem_bytes h n (cpu_to_be h n w) = rev (le_bytes n w)"
  for w :: "'a::len word"
  by (cases h) (simp_all add: mem_bytes_def cpu_to_be_def le_bytes_bswap)

text \<open>Conversion there and back.\<close>

lemma to_cpu_roundtrip:
  "LENGTH('a) = 8 * n \<Longrightarrow> le_to_cpu h n (cpu_to_le h n w) = w"
  "LENGTH('a) = 8 * n \<Longrightarrow> be_to_cpu h n (cpu_to_be h n w) = w" for w :: "'a::len word"
  by (cases h; simp add: le_to_cpu_def cpu_to_le_def bswap_bswap)
     (cases h; simp add: be_to_cpu_def cpu_to_be_def bswap_bswap)

section \<open>Requests\<close>

definition LONGHORN_MESSAGE_MAGIC :: u16 where "LONGHORN_MESSAGE_MAGIC = 0x1b01"

definition LONGHORN_CMD_TYPE_READ :: int where "LONGHORN_CMD_TYPE_READ = 0"
definition LONGHORN_CMD_TYPE_WRITE :: int where "LONGHORN_CMD_TYPE_WRITE = 1"
definition LONGHORN_CMD_TYPE_UNMAP :: int where "LONGHORN_CMD_TYPE_UNMAP = 7"

definition UBLK_IO_OP_READ :: byte where "UBLK_IO_OP_READ = 0"
definition UBLK_IO_OP_WRITE :: byte where "UBLK_IO_OP_WRITE = 1"
definition UBLK_IO_OP_FLUSH :: byte where "UBLK_IO_OP_FLUSH = 2"
definition UBLK_IO_OP_DISCARD :: byte where "UBLK_IO_OP_DISCARD = 3"

lemmas io_op_defs = UBLK_IO_OP_READ_def UBLK_IO_OP_WRITE_def UBLK_IO_OP_FLUSH_def
  UBLK_IO_OP_DISCARD_def
lemmas cmd_type_defs = LONGHORN_CMD_TYPE_READ_def LONGHORN_CMD_TYPE_WRITE_def
  LONGHORN_CMD_TYPE_UNMAP_def

definition ublksrv_get_op :: "io_desc \<Rightarrow> byte" where
  "ublksrv_get_op iod = ucast (id_op_flags iod AND 0xff)"

definition req_to_longhorn_cmd_type :: "io_desc \<Rightarrow> int" where
  "req_to_longhorn_cmd_type iod =
    (if ublksrv_get_op iod = UBLK_IO_OP_READ then LONGHORN_CMD_TYPE_READ
     else if ublksrv_get_op iod = UBLK_IO_OP_WRITE then LONGHORN_CMD_TYPE_WRITE
     else if ublksrv_get_op iod = UBLK_IO_OP_DISCARD then LONGHORN_CMD_TYPE_UNMAP
     else -1)"

definition get_nr_sectors :: "io_desc \<Rightarrow> u32" where
  "get_nr_sectors iod = id_nr_sectors iod"

record message =
  ms_magic :: u16
  ms_seq :: u32
  ms_type :: u32
  ms_offset :: u64
  ms_size :: u32
  ms_data_length :: u32

text \<open>\<^verbatim>\<open>type\<close> is converted from the \<^verbatim>\<open>int\<close> of the caller to \<^verbatim>\<open>uint32_t\<close>.\<close>

definition longhorn_build_req :: "endian \<Rightarrow> io_desc \<Rightarrow> u32 \<Rightarrow> u32 \<Rightarrow> message" where
  "longhorn_build_req h iod seq type =
    \<lparr>ms_magic = cpu_to_le h 2 LONGHORN_MESSAGE_MAGIC,
     ms_seq = cpu_to_le h 4 seq,
     ms_type = cpu_to_le h 4 type,
     ms_offset = cpu_to_le h 8 (push_bit 9 (id_start_sector iod)),
     ms_size = cpu_to_le h 4 (push_bit 9 (id_nr_sectors iod)),
     ms_data_length =
       (if type = word_of_int LONGHORN_CMD_TYPE_WRITE
        then cpu_to_le h 4 (push_bit 9 (id_nr_sectors iod)) else cpu_to_le h 4 0)\<rparr>"

text \<open>The header fields as little-endian memory, on every host.\<close>

lemma magic_bytes: "le_bytes 2 LONGHORN_MESSAGE_MAGIC = [0x01, 0x1b]"
  by code_simp

lemma build_req_wire:
  "mem_bytes h 2 (ms_magic (longhorn_build_req h iod seq ty)) = [0x01, 0x1b]"
  "mem_bytes h 4 (ms_seq (longhorn_build_req h iod seq ty)) = le_bytes 4 seq"
  "mem_bytes h 4 (ms_type (longhorn_build_req h iod seq ty)) = le_bytes 4 ty"
  "mem_bytes h 8 (ms_offset (longhorn_build_req h iod seq ty)) =
     le_bytes 8 (push_bit 9 (id_start_sector iod))"
  "mem_bytes h 4 (ms_size (longhorn_build_req h iod seq ty)) =
     le_bytes 4 (push_bit 9 (id_nr_sectors iod))"
  by (simp_all add: longhorn_build_req_def mem_bytes_cpu_to_le magic_bytes)

text \<open>Sectors to bytes in 32 bits: exact below 2^23 sectors (4 GiB), modulo 2^32 above.\<close>

lemma sectors_to_bytes: "unat (push_bit 9 (n :: u32)) = unat n * 512 mod 2 ^ 32"
  by (simp add: push_bit_eq_mult unat_word_ariths mult.commute)

end
