(* ===== verification/Queue.thy ===== *)
theory Queue
  imports User_Data Message
begin

text \<open>
  The queue of the I/O daemon (\<^verbatim>\<open>struct _ublksrv_queue\<close>) and the operations of its hot path:
  issuing a fetch or commit command, completing a request, handling a completion of the ring,
  reaping, and the idle and stopping states. What \<^verbatim>\<open>liburing\<close> and the kernel decide (whether a
  submission entry is free and what it held before, which completions arrive, how many entries are
  consumed) is an argument.
\<close>

section \<open>State\<close>

datatype mutex = Unlocked | Locked

text \<open>
  \<open>q_sq\<close> are the entries prepared since they were last consumed by the kernel, oldest first;
  \<open>q_signals\<close> counts the signals of the condition variable and \<open>q_efd_writes\<close> lists the
  descriptors written by \<^verbatim>\<open>ublksrv_kill_eventfd\<close>.
\<close>

record queue =
  q_id :: int
  q_depth :: nat
  q_io_cmd_buf :: "byte list"
  q_inflight :: s32
  q_lock :: mutex
  q_cond_mutex :: mutex
  q_signals :: nat
  q_state :: u32
  q_efd :: int
  q_efd_writes :: "int list"
  q_sq :: "io_cmd sqe list"
  q_ios :: "ublk_io list"

text \<open>
  A lock taken by a call that has already returned is never released: blocking on it is a
  deadlock.
\<close>

definition mutex_lock :: "mutex \<Rightarrow> mutex result" where
  "mutex_lock m = (case m of Unlocked \<Rightarrow> Inr Locked | Locked \<Rightarrow> Inl Deadlock)"

definition get_io :: "queue \<Rightarrow> nat \<Rightarrow> ublk_io result" where
  "get_io q i = (if i < length (q_ios q) then Inr (q_ios q ! i) else Inl Bad_access)"

definition put_io :: "nat \<Rightarrow> ublk_io \<Rightarrow> queue \<Rightarrow> queue" where
  "put_io i io q = q\<lparr>q_ios := (q_ios q)[i := io]\<rparr>"

lemma mutex_lock_simps [simp]:
  "mutex_lock Unlocked = Inr Locked"
  "mutex_lock Locked = Inl Deadlock"
  by (simp_all add: mutex_lock_def)

section \<open>Issuing an I/O command\<close>

text \<open>The command an I/O slot asks for; getting data comes before committing, before fetching.\<close>

definition io_cmd_op :: "u32 \<Rightarrow> u32" where
  "io_cmd_op flags =
    (if has_flag flags UBLKSRV_NEED_GET_DATA then UBLK_IO_NEED_GET_DATA
     else if has_flag flags UBLKSRV_NEED_COMMIT_RQ_COMP then UBLK_IO_COMMIT_AND_FETCH_REQ
     else if has_flag flags UBLKSRV_NEED_FETCH_RQ then UBLK_IO_FETCH_REQ
     else 0)"

text \<open>Filling the submission entry; fields that are not written keep their old content.\<close>

definition prep_io_sqe :: "queue \<Rightarrow> ublk_io \<Rightarrow> u32 \<Rightarrow> io_cmd sqe \<Rightarrow> io_cmd sqe result" where
  "prep_io_sqe q io tag sqe =
    (let cmd_op = io_cmd_op (io_flags io);
         cmd = sqe_cmd sqe;
         cmd = (if cmd_op = UBLK_IO_COMMIT_AND_FETCH_REQ then cmd\<lparr>ic_result := io_result io\<rparr>
                else cmd);
         cmd_op = (if has_flag (q_state q) UBLKSRV_QUEUE_IOCTL_OP
                   then IOWR ioc_u (IOC_NR cmd_op) sizeof_io_cmd else cmd_op);
         sqe = ublksrv_set_sqe_cmd_op cmd_op sqe;
         sqe = sqe\<lparr>sqe_fd := 0, sqe_opcode := IORING_OP_URING_CMD, sqe_flags := IOSQE_FIXED_FILE,
                   sqe_rw_flags := 0\<rparr>;
         cmd = cmd\<lparr>ic_tag := ucast tag\<rparr>;
         cmd = (if \<not> has_flag (q_state q) UBLKSRV_USER_COPY then cmd\<lparr>ic_addr := io_buf_addr io\<rparr>
                else cmd\<lparr>ic_addr := 0\<rparr>);
         cmd = cmd\<lparr>ic_q_id := word_of_int (q_id q)\<rparr>
     in bindE (build_user_data tag (IOC_NR cmd_op) 0 0) (\<lambda>ud.
        Inr (sqe\<lparr>sqe_cmd := cmd, sqe_user_data := ud\<rparr>)))"

text \<open>
  The end of the critical section: one request less in flight; the thread that brings the counter
  from 1 to 0 signals the daemon under the condition's mutex.
\<close>

definition inflight_dec :: "queue \<Rightarrow> queue result" where
  "inflight_dec q =
    (let old = q_inflight q; q = q\<lparr>q_inflight := old - 1\<rparr> in
     if old = 1 then
       bindE (mutex_lock (q_cond_mutex q)) (\<lambda>_.
       Inr (q\<lparr>q_signals := Suc (q_signals q), q_cond_mutex := Unlocked\<rparr>))
     else Inr q)"

text \<open>
  \<^verbatim>\<open>ublksrv_queue_io_cmd\<close>. The slot is what \<^verbatim>\<open>io_uring_get_sqe\<close> returns. The early returns come
  after the lock is taken and do not release it.
\<close>

definition ublksrv_queue_io_cmd ::
  "io_cmd sqe option \<Rightarrow> queue \<Rightarrow> nat \<Rightarrow> u32 \<Rightarrow> (int \<times> queue) result" where
  "ublksrv_queue_io_cmd slot q i tag =
    bindE (mutex_lock (q_lock q)) (\<lambda>m.
    let q = q\<lparr>q_lock := m\<rparr> in
    bindE (get_io q i) (\<lambda>io.
    if \<not> has_flag (io_flags io) UBLKSRV_IO_FREE then Inr (0, q)
    else if \<not> has_flag (io_flags io)
      (UBLKSRV_NEED_FETCH_RQ OR UBLKSRV_NEED_GET_DATA OR UBLKSRV_NEED_COMMIT_RQ_COMP)
    then Inr (0, q)
    else
      (case slot of
         None \<Rightarrow> Inr (-1, q)
       | Some sqe \<Rightarrow>
           bindE (prep_io_sqe q io tag sqe) (\<lambda>sqe.
           let q = put_io i (io\<lparr>io_flags := 0\<rparr>) (q\<lparr>q_sq := q_sq q @ [sqe]\<rparr>) in
           bindE (inflight_dec q) (\<lambda>q.
           Inr (1, q\<lparr>q_lock := Unlocked\<rparr>))))))"

text \<open>The loop of \<^verbatim>\<open>ublksrv_submit_fetch_commands\<close> from index \<open>i\<close> on, \<open>n\<close> rounds.\<close>

fun submit_fetch_from :: "(nat \<Rightarrow> io_cmd sqe option) \<Rightarrow> queue \<Rightarrow> nat \<Rightarrow> nat \<Rightarrow> queue result" where
  "submit_fetch_from slots q i 0 = Inr q"
| "submit_fetch_from slots q i (Suc n) =
    bindE (ublksrv_queue_io_cmd (slots i) q i (word_of_nat i)) (\<lambda>(_, q).
    submit_fetch_from slots q (Suc i) n)"

definition ublksrv_submit_fetch_commands ::
  "(nat \<Rightarrow> io_cmd sqe option) \<Rightarrow> queue \<Rightarrow> queue result" where
  "ublksrv_submit_fetch_commands slots q = submit_fetch_from slots q 0 (q_depth q)"

section \<open>Completing a request\<close>

definition ublksrv_mark_io_done :: "ublk_io \<Rightarrow> int \<Rightarrow> ublk_io" where
  "ublksrv_mark_io_done io res =
    io\<lparr>io_flags := io_flags io OR (UBLKSRV_NEED_COMMIT_RQ_COMP OR UBLKSRV_IO_FREE),
       io_result := word_of_int res\<rparr>"

definition ublksrv_complete_io ::
  "io_cmd sqe option \<Rightarrow> queue \<Rightarrow> u32 \<Rightarrow> int \<Rightarrow> (int \<times> queue) result" where
  "ublksrv_complete_io slot q tag res =
    bindE (get_io q (unat tag)) (\<lambda>io.
    ublksrv_queue_io_cmd slot (put_io (unat tag) (ublksrv_mark_io_done io res) q) (unat tag) tag)"

section \<open>Handing a request to the target\<close>

text \<open>What \<^verbatim>\<open>onRequestAsync\<close> receives: the header, the request type, the data vector and the tag.\<close>

record handoff =
  ho_req :: message
  ho_type :: int
  ho_iov_base :: u64
  ho_iov_len :: u64
  ho_tag :: int

text \<open>The \<^verbatim>\<open>longhorn_io_data\<close> lies one \<^verbatim>\<open>ublk_io_tgt\<close> (8 bytes) into the private data.\<close>

definition longhorn_data_off :: nat where "longhorn_data_off = 8"

definition store_checked :: "nat \<Rightarrow> byte list \<Rightarrow> byte list \<Rightarrow> byte list result" where
  "store_checked off bs buf =
    (if off + length bs \<le> length buf then Inr (store_at off bs buf) else Inl Bad_access)"

text \<open>Reading the descriptor through \<^verbatim>\<open>data->iod\<close>.\<close>

definition read_iod :: "queue \<Rightarrow> ublk_io \<Rightarrow> io_desc result" where
  "read_iod q io =
    (case io_iod io of
       None \<Rightarrow> Inl Bad_access
     | Some off \<Rightarrow>
         if off + 24 \<le> length (q_io_cmd_buf q) then Inr (io_desc_of (drop off (q_io_cmd_buf q)))
         else Inl Bad_access)"

text \<open>
  \<^verbatim>\<open>demo_handle_io_async\<close> up to and with the call of \<^verbatim>\<open>onRequestAsync\<close>: from here on the target
  may complete the request. The counter is raised only after that call.
\<close>

definition hand_to_target :: "endian \<Rightarrow> queue \<Rightarrow> nat \<Rightarrow> (handoff \<times> queue) result" where
  "hand_to_target h q i =
    bindE (get_io q i) (\<lambda>io.
    bindE (read_iod q io) (\<lambda>iod.
    let type = req_to_longhorn_cmd_type iod; seq = word_of_int (io_tag io) :: u32 in
    bindE (store_checked longhorn_data_off (le_bytes 4 seq) (io_private io)) (\<lambda>priv.
    let req = longhorn_build_req h iod seq (word_of_int type);
        ho = \<lparr>ho_req = req, ho_type = type, ho_iov_base = id_addr iod,
              ho_iov_len = ucast (push_bit 9 (id_nr_sectors iod)), ho_tag = io_tag io\<rparr>
    in Inr (ho, put_io i (io\<lparr>io_private := priv\<rparr>) q))))"

definition inflight_inc :: "queue \<Rightarrow> queue" where
  "inflight_inc q = q\<lparr>q_inflight := q_inflight q + 1\<rparr>"

definition demo_handle_io_async ::
  "endian \<Rightarrow> queue \<Rightarrow> nat \<Rightarrow> (handoff \<times> queue) result" where
  "demo_handle_io_async h q i =
    bindE (hand_to_target h q i) (\<lambda>(ho, q). Inr (ho, inflight_inc q))"

section \<open>Handling completions\<close>

record cqe =
  cqe_user_data :: u64
  cqe_res :: int

text \<open>The queue stops and the slot no longer asks to fetch.\<close>

definition stop_fetching :: "nat \<Rightarrow> ublk_io \<Rightarrow> queue \<Rightarrow> queue" where
  "stop_fetching i io q =
    put_io i (io\<lparr>io_flags := io_flags io AND NOT UBLKSRV_NEED_FETCH_RQ\<rparr>)
      (q\<lparr>q_state := q_state q OR UBLKSRV_QUEUE_STOPPING\<rparr>)"

text \<open>
  \<^verbatim>\<open>ublksrv_handle_cqe\<close>: a completion of the target is only reported; anything but a fetched
  request or a data request retires the slot.
\<close>

definition ublksrv_handle_cqe ::
  "endian \<Rightarrow> queue \<Rightarrow> cqe \<Rightarrow> io_cmd sqe option \<Rightarrow> (handoff list \<times> queue) result" where
  "ublksrv_handle_cqe h q cqe slot =
    (let tag = user_data_to_tag (cqe_user_data cqe);
         fetch = (cqe_res cqe \<noteq> UBLK_IO_RES_ABORT \<and> \<not> has_flag (q_state q) UBLKSRV_QUEUE_STOPPING)
     in if is_target_io (cqe_user_data cqe) then Inr ([], q)
     else
       bindE (get_io q (unat tag)) (\<lambda>io.
       let q = (if \<not> fetch then stop_fetching (unat tag) io q else q)
       in if cqe_res cqe = UBLK_IO_RES_OK then
            bindE (demo_handle_io_async h q (unat tag)) (\<lambda>(ho, q). Inr ([ho], q))
          else if cqe_res cqe = UBLK_IO_RES_NEED_GET_DATA then
            bindE (get_io q (unat tag)) (\<lambda>io.
            bindE (ublksrv_queue_io_cmd slot
                     (put_io (unat tag)
                       (io\<lparr>io_flags := io_flags io OR (UBLKSRV_NEED_GET_DATA OR UBLKSRV_IO_FREE)\<rparr>) q)
                     (unat tag) tag) (\<lambda>(_, q). Inr ([], q)))
          else
            bindE (get_io q (unat tag)) (\<lambda>io.
            Inr ([], put_io (unat tag) (io\<lparr>io_flags := UBLKSRV_IO_FREE\<rparr>) q))))"

text \<open>\<^verbatim>\<open>ublksrv_reap_events_uring\<close>: the completions in ring order, with their count.\<close>

fun ublksrv_reap_events_uring ::
  "endian \<Rightarrow> queue \<Rightarrow> (cqe \<times> io_cmd sqe option) list \<Rightarrow> (nat \<times> handoff list \<times> queue) result" where
  "ublksrv_reap_events_uring h q [] = Inr (0, [], q)"
| "ublksrv_reap_events_uring h q ((c, slot) # cs) =
    bindE (ublksrv_handle_cqe h q c slot) (\<lambda>(hos, q).
    bindE (ublksrv_reap_events_uring h q cs) (\<lambda>(count, hos', q).
    Inr (Suc count, hos @ hos', q)))"

section \<open>The daemon's loop body\<close>

definition ublksrv_queue_is_done :: "queue \<Rightarrow> bool" where
  "ublksrv_queue_is_done q \<longleftrightarrow> has_flag (q_state q) UBLKSRV_QUEUE_STOPPING \<and> q_sq q = []"

definition ublksrv_kill_eventfd :: "queue \<Rightarrow> queue" where
  "ublksrv_kill_eventfd q =
    (if has_flag (q_state q) UBLKSRV_QUEUE_STOPPING \<and> 0 \<le> q_efd q
     then q\<lparr>q_efd_writes := q_efd_writes q @ [q_efd q]\<rparr> else q)"

definition ublksrv_queue_idle_enter :: "queue \<Rightarrow> queue" where
  "ublksrv_queue_idle_enter q =
    (if has_flag (q_state q) UBLKSRV_QUEUE_IDLE then q
     else q\<lparr>q_state := q_state q OR UBLKSRV_QUEUE_IDLE\<rparr>)"

definition ublksrv_queue_idle_exit :: "queue \<Rightarrow> queue" where
  "ublksrv_queue_idle_exit q =
    (if has_flag (q_state q) UBLKSRV_QUEUE_IDLE
     then q\<lparr>q_state := q_state q AND NOT UBLKSRV_QUEUE_IDLE\<rparr> else q)"

text \<open>The wait for the target: the daemon blocks while requests are in flight.\<close>

definition must_wait :: "queue \<Rightarrow> bool" where
  "must_wait q \<longleftrightarrow> 0 < sint (q_inflight q)"

text \<open>The timeout in seconds of the next wait for completions; an idle queue waits without one.\<close>

definition UBLKSRV_IO_IDLE_SECS :: int where "UBLKSRV_IO_IDLE_SECS = 20"

definition poll_timeout :: "queue \<Rightarrow> int option" where
  "poll_timeout q =
    (if has_flag (q_state q) UBLKSRV_QUEUE_IDLE then None else Some UBLKSRV_IO_IDLE_SECS)"

text \<open>
  What happens during one call of \<^verbatim>\<open>ublksrv_process_io\<close>: the completions the target delivers while
  the daemon waits, the result of submit-and-wait for a timeout, how many entries the kernel consumes, and the
  completions found in the ring.
\<close>

record poll_env =
  pe_completions :: "(u32 \<times> int \<times> io_cmd sqe option) list"
  pe_ret :: "int option \<Rightarrow> int"
  pe_consumed :: nat
  pe_cqes :: "(cqe \<times> io_cmd sqe option) list"

text \<open>Waiting with no completion left to come is a deadlock.\<close>

fun wait_inflight ::
  "(u32 \<times> int \<times> io_cmd sqe option) list \<Rightarrow> queue \<Rightarrow> queue result" where
  "wait_inflight [] q = (if must_wait q then Inl Deadlock else Inr q)"
| "wait_inflight ((tag, res, slot) # cs) q =
    (if must_wait q
     then bindE (ublksrv_complete_io slot q tag res) (\<lambda>(_, q). wait_inflight cs q)
     else Inr q)"

text \<open>The end of the body: wake the event descriptor of a stopping queue, else track idleness.\<close>

definition poll_end :: "int \<Rightarrow> nat \<Rightarrow> queue \<Rightarrow> queue" where
  "poll_end ret reapped q =
    (if has_flag (q_state q) UBLKSRV_QUEUE_STOPPING then ublksrv_kill_eventfd q
     else if ret = - ETIME \<and> reapped = 0 \<and> q_sq q = []
     then ublksrv_queue_idle_enter q else ublksrv_queue_idle_exit q)"

text \<open>After the wait: submit and wait for completions, reap them, and finish.\<close>

definition ublksrv_poll ::
  "endian \<Rightarrow> poll_env \<Rightarrow> int option \<Rightarrow> queue \<Rightarrow> (int \<times> handoff list \<times> queue) result" where
  "ublksrv_poll h e tsp q =
    bindE (ublksrv_reap_events_uring h (q\<lparr>q_sq := drop (pe_consumed e) (q_sq q)\<rparr>) (pe_cqes e))
     (\<lambda>(reapped, hos, q). Inr (int reapped, hos, poll_end (pe_ret e tsp) reapped q))"

definition ublksrv_process_io ::
  "endian \<Rightarrow> poll_env \<Rightarrow> queue \<Rightarrow> (int \<times> handoff list \<times> queue) result" where
  "ublksrv_process_io h e q =
    (if ublksrv_queue_is_done q then Inr (- ENODEV, [], q)
     else bindE (mutex_lock (q_cond_mutex q)) (\<lambda>_.
          bindE (wait_inflight (pe_completions e) q) (ublksrv_poll h e (poll_timeout q))))"

end
