(* ===== verification/Queue_Laws.thy ===== *)
theory Queue_Laws
  imports Queue
begin

text \<open>
  What each operation of the queue does, on every branch: the submission entry an issued command
  is, the lock, the counter of requests in flight, and the well-formedness of the queue.
\<close>

section \<open>Flags\<close>

text \<open>Slots whose command can be issued: freed, and in need of one of the three commands.\<close>

definition issuable :: "u32 \<Rightarrow> bool" where
  "issuable flags \<longleftrightarrow> has_flag flags UBLKSRV_IO_FREE \<and>
    (has_flag flags UBLKSRV_NEED_FETCH_RQ \<or> has_flag flags UBLKSRV_NEED_GET_DATA \<or>
     has_flag flags UBLKSRV_NEED_COMMIT_RQ_COMP)"

lemma issuable_bits: "issuable f \<longleftrightarrow> bit f 2 \<and> (bit f 0 \<or> bit f 3 \<or> bit f 1)"
  by (simp only: issuable_def io_flag_iffs)

definition fresh_flags :: u32 where
  "fresh_flags = UBLKSRV_NEED_FETCH_RQ OR UBLKSRV_IO_FREE"

lemma bits_of_marked:
  "bit (f OR (UBLKSRV_NEED_COMMIT_RQ_COMP OR UBLKSRV_IO_FREE)) n \<longleftrightarrow> bit f n \<or> n = 1 \<or> n = 2"
  by (auto simp: flag_defs bit_simps simp del: push_bit_of_1)

lemma bits_of_get_data:
  "bit (f OR (UBLKSRV_NEED_GET_DATA OR UBLKSRV_IO_FREE)) n \<longleftrightarrow> bit f n \<or> n = 3 \<or> n = 2"
  by (auto simp: flag_defs bit_simps simp del: push_bit_of_1)

lemma bits_of_fresh: "bit fresh_flags n \<longleftrightarrow> n = 0 \<or> n = 2"
  by (auto simp: fresh_flags_def flag_defs bit_simps simp del: push_bit_of_1)

lemma bits_of_free: "bit UBLKSRV_IO_FREE n \<longleftrightarrow> n = 2"
  by (auto simp: flag_defs bit_simps simp del: push_bit_of_1)

lemmas flag_bits = bits_of_marked bits_of_get_data bits_of_fresh bits_of_free

lemma issuable_marked: "issuable (io_flags (ublksrv_mark_io_done io res))"
  by (simp only: issuable_bits ublksrv_mark_io_done_def) (simp add: bits_of_marked)

lemma issuable_fresh: "issuable fresh_flags"
  by (simp only: issuable_bits) (simp add: bits_of_fresh)

lemma not_issuable_free: "\<not> issuable UBLKSRV_IO_FREE"
  by (simp only: issuable_bits) (simp add: bits_of_free)

lemma not_issuable_0: "\<not> issuable 0"
  by (simp only: issuable_bits) simp

lemma io_cmd_op_bits:
  "io_cmd_op f = (if bit f 3 then UBLK_IO_NEED_GET_DATA
                  else if bit f 1 then UBLK_IO_COMMIT_AND_FETCH_REQ
                  else if bit f 0 then UBLK_IO_FETCH_REQ else 0)"
  by (simp only: io_cmd_op_def io_flag_iffs)

lemma io_cmd_op_marked: "\<not> bit f 3 \<Longrightarrow>
  io_cmd_op (f OR (UBLKSRV_NEED_COMMIT_RQ_COMP OR UBLKSRV_IO_FREE)) = UBLK_IO_COMMIT_AND_FETCH_REQ"
  by (simp only: io_cmd_op_bits bits_of_marked) simp

lemma io_cmd_op_fresh: "io_cmd_op fresh_flags = UBLK_IO_FETCH_REQ"
  by (simp only: io_cmd_op_bits bits_of_fresh) simp

section \<open>The submission entry\<close>

lemma IOC_NR_io_cmd_op: "IOC_NR (io_cmd_op f) = io_cmd_op f"
  by (simp add: io_cmd_op_def IOC_NR_def io_cmd_defs)

lemma IOC_NR_IOC:
  assumes "unat nr < 256"
  shows "IOC_NR (IOC dir ty nr sz) = nr"
proof -
  have "n < 8" if "bit nr n" for n
    using assms that high_bit_clear [of nr 8 n] by (cases "n < 8") auto
  then show ?thesis
    by (intro bit_eqI) (auto simp: IOC_def IOC_NR_def low_masks bit_simps)
qed

lemma IOC_NR_IOWR: "unat nr < 256 \<Longrightarrow> IOC_NR (IOWR ty nr sz) = nr"
  by (simp add: IOWR_def IOC_NR_IOC)

lemma unat_io_cmd_op: "unat (io_cmd_op f) < 256"
  by (simp add: io_cmd_op_def io_cmd_defs)

text \<open>The command number that goes into the entry, with or without the ioctl encoding.\<close>

definition encoded_op :: "u32 \<Rightarrow> u32 \<Rightarrow> u32" where
  "encoded_op state op =
    (if has_flag state UBLKSRV_QUEUE_IOCTL_OP then IOWR ioc_u (IOC_NR op) sizeof_io_cmd else op)"

lemma IOC_NR_encoded: "IOC_NR (encoded_op st (io_cmd_op f)) = io_cmd_op f"
  using unat_io_cmd_op [of f] by (simp add: encoded_op_def IOC_NR_io_cmd_op IOC_NR_IOWR)

definition io_sqe :: "queue \<Rightarrow> ublk_io \<Rightarrow> u32 \<Rightarrow> io_cmd sqe \<Rightarrow> io_cmd sqe" where
  "io_sqe q io tag old =
    (let op = io_cmd_op (io_flags io) in
     old\<lparr>sqe_opcode := IORING_OP_URING_CMD, sqe_flags := IOSQE_FIXED_FILE, sqe_fd := 0,
         sqe_off0 := encoded_op (q_state q) op, sqe_off1 := 0, sqe_rw_flags := 0,
         sqe_user_data := projr (build_user_data tag op 0 0),
         sqe_cmd := \<lparr>ic_q_id = word_of_int (q_id q), ic_tag = ucast tag,
           ic_result = (if op = UBLK_IO_COMMIT_AND_FETCH_REQ then io_result io
                        else ic_result (sqe_cmd old)),
           ic_addr = (if has_flag (q_state q) UBLKSRV_USER_COPY then 0 else io_buf_addr io)\<rparr>\<rparr>)"

lemma prep_io_sqe_eq:
  assumes "unat tag < 2 ^ 16"
  shows "prep_io_sqe q io tag old = Inr (io_sqe q io tag old)"
proof -
  obtain ud where ud: "build_user_data tag (io_cmd_op (io_flags io)) 0 0 = Inr ud"
    using build_user_data_ok [of tag "io_cmd_op (io_flags io)" 0 0] assms unat_io_cmd_op by auto
  note nr = IOC_NR_encoded [unfolded encoded_op_def]
  show ?thesis
    by (cases old; cases "sqe_cmd old")
       (auto simp: prep_io_sqe_def io_sqe_def Let_def ublksrv_set_sqe_cmd_op_def nr ud
         encoded_op_def)
qed

text \<open>The cookie of an issued entry names its slot and command and is not a target's.\<close>

lemma io_sqe_cookie:
  assumes "unat tag < 2 ^ 16"
  shows "user_data_to_tag (sqe_user_data (io_sqe q io tag old)) = tag"
    and "user_data_to_op (sqe_user_data (io_sqe q io tag old)) = io_cmd_op (io_flags io)"
    and "\<not> is_target_io (sqe_user_data (io_sqe q io tag old))"
proof -
  obtain ud where ud: "build_user_data tag (io_cmd_op (io_flags io)) 0 0 = Inr ud"
    using build_user_data_ok [of tag "io_cmd_op (io_flags io)" 0 0] assms unat_io_cmd_op by auto
  then have "sqe_user_data (io_sqe q io tag old) = ud" by (simp add: io_sqe_def Let_def)
  then show "user_data_to_tag (sqe_user_data (io_sqe q io tag old)) = tag"
    and "user_data_to_op (sqe_user_data (io_sqe q io tag old)) = io_cmd_op (io_flags io)"
    and "\<not> is_target_io (sqe_user_data (io_sqe q io tag old))"
    using ud user_data_tag user_data_op user_data_target by auto
qed

lemma ic_tag_io_sqe [simp]: "ic_tag (sqe_cmd (io_sqe q io tag old)) = ucast tag"
  by (simp add: io_sqe_def Let_def)

section \<open>Issuing\<close>

text \<open>The effect of an issued command.\<close>

definition issued :: "queue \<Rightarrow> nat \<Rightarrow> u32 \<Rightarrow> io_cmd sqe \<Rightarrow> queue" where
  "issued q i tag old =
    q\<lparr>q_ios := (q_ios q)[i := (q_ios q ! i)\<lparr>io_flags := 0\<rparr>],
      q_sq := q_sq q @ [io_sqe q (q_ios q ! i) tag old],
      q_inflight := q_inflight q - 1,
      q_signals := (if q_inflight q = 1 then Suc (q_signals q) else q_signals q)\<rparr>"

lemma io_sqe_lock [simp]: "io_sqe (q\<lparr>q_lock := l\<rparr>) io tag old = io_sqe q io tag old"
  by (simp add: io_sqe_def)

lemma queue_io_cmd_issued:
  assumes "q_lock q = Unlocked" "q_cond_mutex q = Unlocked" "i < length (q_ios q)"
    and "unat tag < 2 ^ 16" "issuable (io_flags (q_ios q ! i))"
  shows "ublksrv_queue_io_cmd (Some old) q i tag = Inr (1, issued q i tag old)"
proof -
  have "has_flag (io_flags (q_ios q ! i)) UBLKSRV_IO_FREE"
    and "has_flag (io_flags (q_ios q ! i))
      (UBLKSRV_NEED_FETCH_RQ OR UBLKSRV_NEED_GET_DATA OR UBLKSRV_NEED_COMMIT_RQ_COMP)"
    using assms(5) by (auto simp: issuable_def has_flag_or)
  with assms(1-4) show ?thesis
    by (cases q)
       (simp add: ublksrv_queue_io_cmd_def get_io_def prep_io_sqe_eq Let_def inflight_dec_def
         issued_def put_io_def io_sqe_def)
qed

lemma queue_io_cmd_not_issuable:
  assumes "q_lock q = Unlocked" "i < length (q_ios q)" "\<not> issuable (io_flags (q_ios q ! i))"
  shows "ublksrv_queue_io_cmd slot q i tag = Inr (0, q\<lparr>q_lock := Locked\<rparr>)"
  using assms
  by (auto simp: ublksrv_queue_io_cmd_def get_io_def issuable_def has_flag_or Let_def)

lemma queue_io_cmd_no_sqe:
  assumes "q_lock q = Unlocked" "i < length (q_ios q)" "issuable (io_flags (q_ios q ! i))"
  shows "ublksrv_queue_io_cmd None q i tag = Inr (-1, q\<lparr>q_lock := Locked\<rparr>)"
  using assms
  by (auto simp: ublksrv_queue_io_cmd_def get_io_def issuable_def has_flag_or Let_def)

lemma queue_io_cmd_blocked: "q_lock q = Locked \<Longrightarrow> ublksrv_queue_io_cmd slot q i tag = Inl Deadlock"
  by (simp add: ublksrv_queue_io_cmd_def)

text \<open>All outcomes of a call that finds the lock free, in one rule.\<close>

lemma queue_io_cmd_cases:
  assumes "ublksrv_queue_io_cmd slot q i tag = Inr (r, q')" "unat tag < 2 ^ 16"
    and "q_cond_mutex q = Unlocked"
  obtains (skipped) "r = 0" "q' = q\<lparr>q_lock := Locked\<rparr>" "\<not> issuable (io_flags (q_ios q ! i))"
  | (no_sqe) "r = -1" "q' = q\<lparr>q_lock := Locked\<rparr>" "slot = None"
  | (issued) old where "r = 1" "q' = issued q i tag old" "slot = Some old"
      "issuable (io_flags (q_ios q ! i))" "q_lock q = Unlocked"
proof -
  have free: "q_lock q = Unlocked" using assms(1) queue_io_cmd_blocked by (cases "q_lock q") auto
  have len: "i < length (q_ios q)"
    using assms(1) free by (auto simp: ublksrv_queue_io_cmd_def get_io_def Let_def split: if_splits)
  show thesis
  proof (cases "issuable (io_flags (q_ios q ! i))")
    case False
    with queue_io_cmd_not_issuable [OF free len] assms(1) skipped show thesis by simp
  next
    case True
    then show thesis
      using queue_io_cmd_no_sqe [OF free len] queue_io_cmd_issued [OF free assms(3) len assms(2)]
        assms(1) free no_sqe issued by (cases slot) auto
  qed
qed

section \<open>Completing\<close>

text \<open>The entry that commits the result \<open>res\<close> of slot \<open>tag\<close>.\<close>

definition completed :: "queue \<Rightarrow> u32 \<Rightarrow> int \<Rightarrow> io_cmd sqe \<Rightarrow> queue" where
  "completed q tag res old =
    issued (put_io (unat tag) (ublksrv_mark_io_done (q_ios q ! unat tag) res) q) (unat tag) tag old"

lemma complete_io_completed:
  assumes "q_lock q = Unlocked" "q_cond_mutex q = Unlocked" "unat tag < length (q_ios q)"
    and "unat tag < 2 ^ 16"
  shows "ublksrv_complete_io (Some old) q tag res = Inr (1, completed q tag res old)"
  using assms queue_io_cmd_issued [of "put_io (unat tag) (ublksrv_mark_io_done (q_ios q ! unat tag) res) q"
      "unat tag" tag old] issuable_marked
  by (simp add: ublksrv_complete_io_def completed_def get_io_def put_io_def)

lemma complete_io_no_sqe:
  assumes "q_lock q = Unlocked" "unat tag < length (q_ios q)"
  shows "\<exists>q'. ublksrv_complete_io None q tag res = Inr (-1, q') \<and> q_lock q' = Locked"
  using assms queue_io_cmd_no_sqe [of "put_io (unat tag) (ublksrv_mark_io_done (q_ios q ! unat tag) res) q"
      "unat tag" tag] issuable_marked
  by (simp add: ublksrv_complete_io_def get_io_def put_io_def)

lemma complete_io_blocked:
  "q_lock q = Locked \<Longrightarrow> unat tag < length (q_ios q) \<Longrightarrow>
   ublksrv_complete_io slot q tag res = Inl Deadlock"
  by (simp add: ublksrv_complete_io_def get_io_def put_io_def queue_io_cmd_blocked)

lemma completed_sqe:
  assumes "unat tag < length (q_ios q)" "\<not> bit (io_flags (q_ios q ! unat tag)) 3"
  shows "q_sq (completed q tag res old) =
    q_sq q @ [io_sqe q (ublksrv_mark_io_done (q_ios q ! unat tag) res) tag old]"
    and "ic_result (sqe_cmd (last (q_sq (completed q tag res old)))) = word_of_int res"
    and "IOC_NR (sqe_off0 (last (q_sq (completed q tag res old)))) = UBLK_IO_COMMIT_AND_FETCH_REQ"
proof -
  let ?io = "ublksrv_mark_io_done (q_ios q ! unat tag) res"
  have op: "io_cmd_op (io_flags ?io) = UBLK_IO_COMMIT_AND_FETCH_REQ"
    using assms(2) io_cmd_op_marked by (simp add: ublksrv_mark_io_done_def)
  have frame: "io_sqe (put_io i io' q) io t o' = io_sqe q io t o'" for i io' io t o'
    by (simp add: io_sqe_def put_io_def)
  show sq: "q_sq (completed q tag res old) = q_sq q @ [io_sqe q ?io tag old]"
    using assms(1) by (simp add: completed_def issued_def frame) (simp add: put_io_def)
  show "ic_result (sqe_cmd (last (q_sq (completed q tag res old)))) = word_of_int res"
    using op by (simp add: sq) (simp add: io_sqe_def Let_def ublksrv_mark_io_done_def)
  show "IOC_NR (sqe_off0 (last (q_sq (completed q tag res old)))) = UBLK_IO_COMMIT_AND_FETCH_REQ"
    using IOC_NR_encoded [of "q_state q" "io_flags ?io"] by (simp add: sq) (simp add: io_sqe_def op Let_def)
qed

section \<open>Well-formed queues\<close>

text \<open>
  Slot \<open>i\<close> of a well-formed queue carries the tag \<open>i\<close>, points at the \<open>i\<close>-th descriptor and has room
  for the target's data behind the \<^verbatim>\<open>ublk_io_tgt\<close>.
\<close>

definition wf_slot :: "queue \<Rightarrow> nat \<Rightarrow> bool" where
  "wf_slot q i \<longleftrightarrow>
    io_tag (q_ios q ! i) = int i \<and> io_iod (q_ios q ! i) = Some (24 * i) \<and>
    longhorn_data_off + 4 \<le> length (io_private (q_ios q ! i))"

definition wf_queue :: "queue \<Rightarrow> bool" where
  "wf_queue q \<longleftrightarrow>
    q_lock q = Unlocked \<and> q_cond_mutex q = Unlocked \<and> q_depth q \<le> length (q_ios q) \<and>
    q_depth q < 2 ^ 16 \<and> 24 * q_depth q \<le> length (q_io_cmd_buf q) \<and> (\<forall>i < q_depth q. wf_slot q i)"

lemma wf_queueD:
  assumes "wf_queue q"
  shows "q_lock q = Unlocked" "q_cond_mutex q = Unlocked" "q_depth q \<le> length (q_ios q)"
    "q_depth q < 2 ^ 16" "i < q_depth q \<Longrightarrow> i < length (q_ios q)"
    "i < q_depth q \<Longrightarrow> wf_slot q i"
    "i < q_depth q \<Longrightarrow> 24 * i + 24 \<le> length (q_io_cmd_buf q)"
  using assms by (auto simp: wf_queue_def)

text \<open>Two slots that agree in what well-formedness reads.\<close>

definition same_slot :: "ublk_io \<Rightarrow> ublk_io \<Rightarrow> bool" where
  "same_slot io io' \<longleftrightarrow> io_tag io' = io_tag io \<and> io_iod io' = io_iod io \<and>
    length (io_private io') = length (io_private io)"

lemma same_slot_simps [simp]:
  "same_slot io io"
  "same_slot io (io'\<lparr>io_flags := f\<rparr>) = same_slot io io'"
  "same_slot io (io'\<lparr>io_result := r\<rparr>) = same_slot io io'"
  by (simp_all add: same_slot_def)

lemma wf_queue_frame:
  assumes "wf_queue q" "q_lock q' = Unlocked" "q_cond_mutex q' = Unlocked"
    and "q_depth q' = q_depth q" "length (q_io_cmd_buf q') = length (q_io_cmd_buf q)"
    and "length (q_ios q') = length (q_ios q)"
    and "\<And>i. i < q_depth q \<Longrightarrow> same_slot (q_ios q ! i) (q_ios q' ! i)"
  shows "wf_queue q'"
  using assms by (auto simp: wf_queue_def wf_slot_def same_slot_def)

lemma wf_queue_put_io:
  assumes "wf_queue q" "same_slot (q_ios q ! i) io"
  shows "wf_queue (put_io i io q)"
  using assms(1)
  by (rule wf_queue_frame) (use assms in \<open>auto simp: wf_queueD put_io_def nth_list_update_if\<close>)

lemma wf_queue_issued:
  assumes "wf_queue q"
  shows "wf_queue (issued q i tag old)"
  using assms
  by (rule wf_queue_frame) (use assms in \<open>auto simp: wf_queueD issued_def nth_list_update_if\<close>)

lemma wf_queue_completed: "wf_queue q \<Longrightarrow> wf_queue (completed q tag res old)"
  unfolding completed_def
  by (intro wf_queue_issued wf_queue_put_io) (auto simp: ublksrv_mark_io_done_def)

lemma wf_queue_updates [simp]:
  "wf_queue (q\<lparr>q_state := s\<rparr>) = wf_queue q"
  "wf_queue (q\<lparr>q_inflight := n\<rparr>) = wf_queue q"
  "wf_queue (q\<lparr>q_sq := sq\<rparr>) = wf_queue q"
  "wf_queue (q\<lparr>q_efd_writes := w\<rparr>) = wf_queue q"
  by (simp_all add: wf_queue_def wf_slot_def)

section \<open>Handing over\<close>

definition slot_desc :: "queue \<Rightarrow> nat \<Rightarrow> io_desc" where
  "slot_desc q i = io_desc_of (drop (24 * i) (q_io_cmd_buf q))"

text \<open>What the target receives for slot \<open>i\<close>.\<close>

definition handoff_of :: "endian \<Rightarrow> queue \<Rightarrow> nat \<Rightarrow> handoff" where
  "handoff_of h q i =
    (let iod = slot_desc q i; type = req_to_longhorn_cmd_type iod in
     \<lparr>ho_req = longhorn_build_req h iod (word_of_nat i) (word_of_int type), ho_type = type,
      ho_iov_base = id_addr iod, ho_iov_len = ucast (push_bit 9 (id_nr_sectors iod)),
      ho_tag = int i\<rparr>)"

definition with_seq :: "queue \<Rightarrow> nat \<Rightarrow> queue" where
  "with_seq q i =
    put_io i ((q_ios q ! i)\<lparr>io_private :=
      store_at longhorn_data_off (le_bytes 4 (word_of_nat i :: u32)) (io_private (q_ios q ! i))\<rparr>) q"

lemma hand_to_target_eq:
  assumes "wf_queue q" "i < q_depth q"
  shows "hand_to_target h q i = Inr (handoff_of h q i, with_seq q i)"
  using assms wf_queueD [OF assms(1)]
  by (auto simp: hand_to_target_def get_io_def read_iod_def store_checked_def handoff_of_def
      with_seq_def slot_desc_def wf_slot_def Let_def)

lemma wf_queue_with_seq: "wf_queue q \<Longrightarrow> wf_queue (with_seq q i)"
  unfolding with_seq_def by (rule wf_queue_put_io) (auto simp: same_slot_def)

lemma wf_queue_inflight_inc [simp]: "wf_queue (inflight_inc q) = wf_queue q"
  by (simp add: inflight_inc_def)

lemma wf_queue_stop_fetching:
  "wf_queue q \<Longrightarrow> i < q_depth q \<Longrightarrow> wf_queue (stop_fetching i (q_ios q ! i) q)"
  unfolding stop_fetching_def by (rule wf_queue_put_io) auto

section \<open>Handling completions\<close>

text \<open>The queue after the stop check at the start of the handler.\<close>

definition after_stop_check :: "queue \<Rightarrow> nat \<Rightarrow> int \<Rightarrow> queue" where
  "after_stop_check q i res =
    (if res = UBLK_IO_RES_ABORT \<or> has_flag (q_state q) UBLKSRV_QUEUE_STOPPING
     then stop_fetching i (q_ios q ! i) q else q)"

lemma wf_queue_after_stop_check:
  "wf_queue q \<Longrightarrow> i < q_depth q \<Longrightarrow> wf_queue (after_stop_check q i res)"
  by (simp add: after_stop_check_def wf_queue_stop_fetching)

lemma after_stop_check_frame [simp]:
  "q_depth (after_stop_check q i res) = q_depth q"
  "length (q_ios (after_stop_check q i res)) = length (q_ios q)"
  "q_sq (after_stop_check q i res) = q_sq q"
  "q_inflight (after_stop_check q i res) = q_inflight q"
  "q_io_cmd_buf (after_stop_check q i res) = q_io_cmd_buf q"
  "q_lock (after_stop_check q i res) = q_lock q"
  "q_cond_mutex (after_stop_check q i res) = q_cond_mutex q"
  "q_signals (after_stop_check q i res) = q_signals q"
  "q_id (after_stop_check q i res) = q_id q"
  "q_efd (after_stop_check q i res) = q_efd q"
  by (simp_all add: after_stop_check_def stop_fetching_def put_io_def)

lemma handoff_of_after_stop_check [simp]:
  "handoff_of h (after_stop_check q i res) j = handoff_of h q j"
  by (simp add: handoff_of_def slot_desc_def)

lemma handle_cqe_target:
  "is_target_io (cqe_user_data c) \<Longrightarrow> ublksrv_handle_cqe h q c slot = Inr ([], q)"
  by (simp add: ublksrv_handle_cqe_def)

text \<open>A completion of the I/O command of slot \<open>i\<close>.\<close>

definition completes_slot :: "queue \<Rightarrow> cqe \<Rightarrow> nat \<Rightarrow> bool" where
  "completes_slot q c i \<longleftrightarrow> \<not> is_target_io (cqe_user_data c) \<and>
    unat (user_data_to_tag (cqe_user_data c)) = i \<and> i < q_depth q"

lemma completes_slotD:
  assumes "completes_slot q c i"
  shows "\<not> is_target_io (cqe_user_data c)" "unat (user_data_to_tag (cqe_user_data c)) = i"
    "i < q_depth q"
  using assms by (auto simp: completes_slot_def)

text \<open>The handler as a choice on the result, after the stop check.\<close>

lemma handle_cqe_unfold:
  assumes wf: "wf_queue q" and c: "completes_slot q c i"
  shows "ublksrv_handle_cqe h q c slot =
    (let q' = after_stop_check q i (cqe_res c); io = q_ios q' ! i in
     if cqe_res c = UBLK_IO_RES_OK then
       bindE (demo_handle_io_async h q' i) (\<lambda>(ho, q). Inr ([ho], q))
     else if cqe_res c = UBLK_IO_RES_NEED_GET_DATA then
       bindE (ublksrv_queue_io_cmd slot
                (put_io i (io\<lparr>io_flags := io_flags io OR (UBLKSRV_NEED_GET_DATA OR UBLKSRV_IO_FREE)\<rparr>) q')
                i (user_data_to_tag (cqe_user_data c))) (\<lambda>(_, q). Inr ([], q))
     else Inr ([], put_io i (io\<lparr>io_flags := UBLKSRV_IO_FREE\<rparr>) q'))"
proof -
  note io = completes_slotD(1) [OF c] and tag = completes_slotD(2) [OF c]
  have len: "i < length (q_ios q)" using wf completes_slotD(3) [OF c] by (simp add: wf_queueD)
  have stop: "(if \<not> (cqe_res c \<noteq> UBLK_IO_RES_ABORT \<and> \<not> has_flag (q_state q) UBLKSRV_QUEUE_STOPPING)
      then stop_fetching i (q_ios q ! i) q else q) = after_stop_check q i (cqe_res c)"
    by (simp add: after_stop_check_def)
  have get: "get_io (after_stop_check q i (cqe_res c)) i =
      Inr (q_ios (after_stop_check q i (cqe_res c)) ! i)"
    using len by (simp add: get_io_def)
  have get0: "get_io q i = Inr (q_ios q ! i)" using len by (simp add: get_io_def)
  show ?thesis
    unfolding ublksrv_handle_cqe_def Let_def tag get0 bindE_simps stop get using io by simp
qed

lemma handle_cqe_ok:
  assumes "wf_queue q" "completes_slot q c i" "cqe_res c = UBLK_IO_RES_OK"
  shows "ublksrv_handle_cqe h q c slot =
    Inr ([handoff_of h q i], inflight_inc (with_seq (after_stop_check q i (cqe_res c)) i))"
  using assms hand_to_target_eq [of "after_stop_check q i (cqe_res c)" i h]
    completes_slotD(3) [OF assms(2)]
  by (simp add: handle_cqe_unfold demo_handle_io_async_def wf_queue_after_stop_check Let_def)

lemma handle_cqe_retire:
  assumes "wf_queue q" "completes_slot q c i"
    and "cqe_res c \<noteq> UBLK_IO_RES_OK" "cqe_res c \<noteq> UBLK_IO_RES_NEED_GET_DATA"
  shows "ublksrv_handle_cqe h q c slot =
    Inr ([], put_io i ((q_ios q ! i)\<lparr>io_flags := UBLKSRV_IO_FREE\<rparr>) (after_stop_check q i (cqe_res c)))"
  using assms completes_slotD(3) [OF assms(2)]
  by (auto simp: handle_cqe_unfold after_stop_check_def stop_fetching_def put_io_def Let_def wf_queueD)

lemma handle_cqe_get_data:
  assumes wf: "wf_queue q" and c: "completes_slot q c i"
    and get: "cqe_res c = UBLK_IO_RES_NEED_GET_DATA"
  shows "\<exists>q'. ublksrv_handle_cqe h q c (Some old) = Inr ([], q') \<and> wf_queue q' \<and>
    q_inflight q' = q_inflight q - 1 \<and> length (q_sq q') = Suc (length (q_sq q))"
proof -
  let ?q = "after_stop_check q i (cqe_res c)"
  let ?io = "(q_ios ?q ! i)\<lparr>io_flags :=
    io_flags (q_ios ?q ! i) OR (UBLKSRV_NEED_GET_DATA OR UBLKSRV_IO_FREE)\<rparr>"
  let ?q' = "put_io i ?io ?q"
  let ?tag = "user_data_to_tag (cqe_user_data c)"
  note tag = completes_slotD(2) [OF c] and i = completes_slotD(3) [OF c]
  have wf': "wf_queue ?q'"
    by (rule wf_queue_put_io) (auto simp: wf i wf_queue_after_stop_check)
  have len: "i < length (q_ios ?q)" using wf i by (simp add: wf_queueD)
  have "ublksrv_queue_io_cmd (Some old) ?q' i ?tag = Inr (1, issued ?q' i ?tag old)"
  proof (rule queue_io_cmd_issued)
    show "issuable (io_flags (q_ios ?q' ! i))"
      using len by (simp only: issuable_bits put_io_def) (simp add: bits_of_get_data)
    show "i < length (q_ios ?q')" using len by (simp add: put_io_def)
    show "unat ?tag < 2 ^ 16" using tag i wf_queueD(4) [OF wf] by simp
  qed (use wf' in \<open>simp_all add: wf_queueD\<close>)
  moreover have "wf_queue (issued ?q' i ?tag old)"
    by (rule wf_queue_issued [OF wf'])
  moreover have "q_inflight (issued ?q' i ?tag old) = q_inflight q - 1"
    and "length (q_sq (issued ?q' i ?tag old)) = Suc (length (q_sq q))"
    by (simp_all add: issued_def) (simp_all add: put_io_def)
  ultimately show ?thesis
    using assms by (simp add: handle_cqe_unfold [OF wf c] Let_def io_res_defs)
qed

end
