(* ===== verification/Engine.thy ===== *)
theory Engine
  imports Queue_Laws "HOL-Library.Multiset"
begin

text \<open>
  The queue daemon, the target's completion threads and the driver running concurrently. A step is
  one action of one of them, built from the functions of \<^verbatim>\<open>Queue\<close>; the request tags move between
  the driver, the two rings and the target. The target of this system completes every request once
  and the driver follows its documented protocol: it completes each consumed command once, and
  does not ask for data, as the library never requests that feature.
\<close>

section \<open>System states\<close>

text \<open>
  Where the daemon is: at the top of \<^verbatim>\<open>ublksrv_process_io\<close>, waiting for the target, reaping, or in
  \<^verbatim>\<open>demo_handle_io_async\<close> between the call of \<^verbatim>\<open>onRequestAsync\<close> and the increment.
\<close>

datatype pc = Top | Waiting | Reaping | Adding | Exited

text \<open>
  \<open>sys_kernel\<close>: the commands consumed by the driver and not completed; \<open>sys_cq\<close>: the completion
  ring; \<open>sys_target\<close> and \<open>sys_marked\<close>: the tags in the hands of the target, before and after
  \<^verbatim>\<open>ublksrv_mark_io_done\<close>. \<open>sys_retired\<close> and the two counters are history.
\<close>

record sys =
  sys_q :: queue
  sys_pc :: pc
  sys_kernel :: "io_cmd sqe list"
  sys_cq :: "cqe list"
  sys_target :: "nat multiset"
  sys_marked :: "nat multiset"
  sys_retired :: "nat multiset"
  sys_handed :: "nat \<Rightarrow> nat"
  sys_committed :: "nat \<Rightarrow> nat"

definition sqe_tag :: "io_cmd sqe \<Rightarrow> nat" where
  "sqe_tag e = unat (user_data_to_tag (sqe_user_data e))"

definition cqe_tag :: "cqe \<Rightarrow> nat" where
  "cqe_tag c = unat (user_data_to_tag (cqe_user_data c))"

text \<open>The first half of handling a delivered request, up to the call of the target.\<close>

definition cqe_hand :: "endian \<Rightarrow> queue \<Rightarrow> cqe \<Rightarrow> (handoff \<times> queue) result" where
  "cqe_hand h q c = hand_to_target h (after_stop_check q (cqe_tag c) (cqe_res c)) (cqe_tag c)"

text \<open>The two halves are the handler.\<close>

lemma handle_cqe_split:
  assumes "wf_queue q" "completes_slot q c i" "cqe_res c = UBLK_IO_RES_OK"
  shows "ublksrv_handle_cqe h q c slot = bindE (cqe_hand h q c) (\<lambda>(ho, q). Inr ([ho], inflight_inc q))"
  using assms completes_slotD [OF assms(2)]
    hand_to_target_eq [of "after_stop_check q i (cqe_res c)" i h]
  by (simp add: handle_cqe_ok cqe_hand_def cqe_tag_def wf_queue_after_stop_check)

section \<open>Steps\<close>

definition write_desc :: "nat \<Rightarrow> io_desc \<Rightarrow> queue \<Rightarrow> queue" where
  "write_desc t d q = q\<lparr>q_io_cmd_buf := store_at (24 * t) (io_desc_bytes d) (q_io_cmd_buf q)\<rparr>"

inductive step :: "endian \<Rightarrow> sys \<Rightarrow> sys \<Rightarrow> bool" for h :: endian where
  \<comment> \<open>the driver completes a command, with a descriptor for the slot\<close>
  complete:
    "sys_kernel s = xs @ e # ys \<Longrightarrow> res \<noteq> UBLK_IO_RES_NEED_GET_DATA \<Longrightarrow>
     step h s (s\<lparr>sys_kernel := xs @ ys,
       sys_cq := sys_cq s @ [\<lparr>cqe_user_data = sqe_user_data e, cqe_res = res\<rparr>],
       sys_q := write_desc (sqe_tag e) d (sys_q s)\<rparr>)"
| enter:
    "sys_pc s = Top \<Longrightarrow> \<not> ublksrv_queue_is_done (sys_q s) \<Longrightarrow> step h s (s\<lparr>sys_pc := Waiting\<rparr>)"
| exit:
    "sys_pc s = Top \<Longrightarrow> ublksrv_queue_is_done (sys_q s) \<Longrightarrow> step h s (s\<lparr>sys_pc := Exited\<rparr>)"
| submit:
    "sys_pc s = Waiting \<Longrightarrow> \<not> must_wait (sys_q s) \<Longrightarrow>
     step h s (s\<lparr>sys_pc := Reaping, sys_kernel := sys_kernel s @ take n (q_sq (sys_q s)),
       sys_q := (sys_q s)\<lparr>q_sq := drop n (q_sq (sys_q s))\<rparr>\<rparr>)"
| hand:
    "sys_pc s = Reaping \<Longrightarrow> sys_cq s = c # cs \<Longrightarrow> \<not> is_target_io (cqe_user_data c) \<Longrightarrow>
     cqe_res c = UBLK_IO_RES_OK \<Longrightarrow> cqe_hand h (sys_q s) c = Inr (ho, q') \<Longrightarrow>
     step h s (s\<lparr>sys_pc := Adding, sys_cq := cs, sys_q := q',
       sys_target := add_mset (cqe_tag c) (sys_target s),
       sys_handed := (sys_handed s)(cqe_tag c := Suc (sys_handed s (cqe_tag c)))\<rparr>)"
| add:
    "sys_pc s = Adding \<Longrightarrow>
     step h s (s\<lparr>sys_pc := Reaping, sys_q := inflight_inc (sys_q s)\<rparr>)"
| retire:
    "sys_pc s = Reaping \<Longrightarrow> sys_cq s = c # cs \<Longrightarrow> \<not> is_target_io (cqe_user_data c) \<Longrightarrow>
     cqe_res c \<noteq> UBLK_IO_RES_OK \<Longrightarrow> ublksrv_handle_cqe h (sys_q s) c slot = Inr (hos, q') \<Longrightarrow>
     step h s (s\<lparr>sys_cq := cs, sys_q := q',
       sys_retired := add_mset (cqe_tag c) (sys_retired s)\<rparr>)"
| finish:
    "sys_pc s = Reaping \<Longrightarrow>
     step h s (s\<lparr>sys_pc := Top, sys_q := poll_end ret reapped (sys_q s)\<rparr>)"
  \<comment> \<open>the target records its result\<close>
| mark:
    "t \<in># sys_target s \<Longrightarrow> get_io (sys_q s) t = Inr io \<Longrightarrow>
     step h s (s\<lparr>sys_target := sys_target s - {#t#}, sys_marked := add_mset t (sys_marked s),
       sys_q := put_io t (ublksrv_mark_io_done io res) (sys_q s)\<rparr>)"
  \<comment> \<open>and issues the commit; a ring as deep as the queue has a free entry unless that many are queued\<close>
| issue:
    "t \<in># sys_marked s \<Longrightarrow> (slot = None \<longrightarrow> q_depth (sys_q s) \<le> length (q_sq (sys_q s))) \<Longrightarrow>
     ublksrv_queue_io_cmd slot (sys_q s) t (word_of_nat t) = Inr (r, q') \<Longrightarrow>
     step h s (s\<lparr>sys_marked := sys_marked s - {#t#}, sys_q := q',
       sys_committed := (sys_committed s)
         (t := sys_committed s t + (if r = 1 then 1 else 0))\<rparr>)"

inductive_cases stepE: "step h s s'"

text \<open>
  The start: every slot's fetch command is queued, as \<^verbatim>\<open>ublksrv_queue_init\<close> leaves the queue.
\<close>

definition ready_queue :: "queue \<Rightarrow> bool" where
  "ready_queue q \<longleftrightarrow> wf_queue q \<and> q_inflight q = 0 \<and> map sqe_tag (q_sq q) = [0..<q_depth q] \<and>
    (\<forall>e \<in> set (q_sq q). \<not> is_target_io (sqe_user_data e)) \<and>
    (\<forall>t < q_depth q. io_flags (q_ios q ! t) = 0)"

definition start_sys :: "queue \<Rightarrow> sys" where
  "start_sys q = \<lparr>sys_q = q, sys_pc = Top, sys_kernel = [], sys_cq = [], sys_target = {#},
    sys_marked = {#}, sys_retired = {#}, sys_handed = (\<lambda>_. 0), sys_committed = (\<lambda>_. 0)\<rparr>"

definition reachable :: "endian \<Rightarrow> queue \<Rightarrow> sys \<Rightarrow> bool" where
  "reachable h q0 s \<longleftrightarrow> (step h)\<^sup>*\<^sup>* (start_sys q0) s"

section \<open>The invariant\<close>

text \<open>All tags, each where it is.\<close>

definition all_tags :: "sys \<Rightarrow> nat multiset" where
  "all_tags s = mset (map sqe_tag (q_sq (sys_q s))) + mset (map sqe_tag (sys_kernel s)) +
    mset (map cqe_tag (sys_cq s)) + sys_target s + sys_marked s + sys_retired s"

definition outstanding :: "sys \<Rightarrow> nat multiset" where
  "outstanding s = sys_target s + sys_marked s"

definition marked_flags :: u32 where
  "marked_flags = UBLKSRV_NEED_COMMIT_RQ_COMP OR UBLKSRV_IO_FREE"

text \<open>The flags of a slot say whether its result is recorded and not yet committed.\<close>

definition flags_ok :: "sys \<Rightarrow> bool" where
  "flags_ok s \<longleftrightarrow> (\<forall>t < q_depth (sys_q s). t \<notin># sys_retired s \<longrightarrow>
    io_flags (q_ios (sys_q s) ! t) = (if t \<in># sys_marked s then marked_flags else 0))"

definition inv :: "sys \<Rightarrow> bool" where
  "inv s \<longleftrightarrow>
    wf_queue (sys_q s) \<and>
    all_tags s = mset [0..<q_depth (sys_q s)] \<and>
    q_inflight (sys_q s) =
      word_of_nat (size (outstanding s)) - (if sys_pc s = Adding then 1 else 0) \<and>
    (\<forall>e \<in> set (q_sq (sys_q s)) \<union> set (sys_kernel s). \<not> is_target_io (sqe_user_data e)) \<and>
    (\<forall>c \<in> set (sys_cq s). \<not> is_target_io (cqe_user_data c) \<and> cqe_res c \<noteq> UBLK_IO_RES_NEED_GET_DATA) \<and>
    flags_ok s \<and>
    (\<forall>t. sys_handed s t = sys_committed s t + count (outstanding s) t)"

lemma count_upt: "count (mset [0..<d]) t = (if t < d then 1 else 0)"
  by (induction d) auto

text \<open>A tag is in one place only.\<close>

lemma inv_places:
  assumes "inv s"
  shows "count (mset (map sqe_tag (q_sq (sys_q s)))) t + count (mset (map sqe_tag (sys_kernel s))) t +
    count (mset (map cqe_tag (sys_cq s))) t + count (sys_target s) t + count (sys_marked s) t +
    count (sys_retired s) t = (if t < q_depth (sys_q s) then 1 else 0)"
proof -
  have "count (all_tags s) t = (if t < q_depth (sys_q s) then 1 else 0)"
    using assms by (simp add: inv_def count_upt)
  then show ?thesis by (simp add: all_tags_def)
qed

lemma count_cq: "c \<in> set (sys_cq s) \<Longrightarrow> 0 < count (mset (map cqe_tag (sys_cq s))) (cqe_tag c)"
  by simp

lemma inv_cq:
  assumes "inv s" "c \<in> set (sys_cq s)"
  shows "cqe_tag c < q_depth (sys_q s)" "cqe_tag c \<notin># sys_target s" "cqe_tag c \<notin># sys_marked s"
    "cqe_tag c \<notin># sys_retired s" "completes_slot (sys_q s) c (cqe_tag c)"
proof -
  have pos: "0 < count (mset (map cqe_tag (sys_cq s))) (cqe_tag c)"
    using count_cq [OF assms(2)] .
  have places: "cqe_tag c < q_depth (sys_q s) \<and> count (sys_target s) (cqe_tag c) = 0 \<and>
      count (sys_marked s) (cqe_tag c) = 0 \<and> count (sys_retired s) (cqe_tag c) = 0"
    using pos inv_places [OF assms(1), of "cqe_tag c"]
    by (simp del: count_greater_zero_iff mset_map split: if_splits)
  then show "cqe_tag c < q_depth (sys_q s)" "cqe_tag c \<notin># sys_target s"
    "cqe_tag c \<notin># sys_marked s" "cqe_tag c \<notin># sys_retired s"
    by (simp_all add: not_in_iff)
  with assms show "completes_slot (sys_q s) c (cqe_tag c)"
    by (auto simp: completes_slot_def cqe_tag_def inv_def)
qed

lemma inv_target:
  assumes "inv s" "t \<in># sys_target s"
  shows "t < q_depth (sys_q s)" "t \<notin># sys_marked s" "t \<notin># sys_retired s"
  using inv_places [OF assms(1), of t] assms(2)
  by (auto simp: not_in_iff count_greater_zero_iff [symmetric] simp del: count_greater_zero_iff
      split: if_splits)

lemma inv_marked:
  assumes "inv s" "t \<in># sys_marked s"
  shows "t < q_depth (sys_q s)" "t \<notin># sys_target s" "t \<notin># sys_retired s"
    "count (sys_marked s) t = 1"
  using inv_places [OF assms(1), of t] assms(2)
  by (auto simp: not_in_iff count_greater_zero_iff [symmetric] simp del: count_greater_zero_iff
      split: if_splits)

lemma inv_wf: "inv s \<Longrightarrow> wf_queue (sys_q s)"
  by (simp add: inv_def)

section \<open>Every step keeps the invariant\<close>

lemma io_flags_put_io:
  "io_flags (q_ios (put_io i io q) ! t) =
    (if t = i \<and> i < length (q_ios q) then io_flags io else io_flags (q_ios q ! t))"
  by (auto simp: put_io_def nth_list_update_if)

lemma io_flags_after_stop_check:
  "io_flags (q_ios q ! i) = 0 \<Longrightarrow>
   io_flags (q_ios (after_stop_check q i res) ! t) = io_flags (q_ios q ! t)"
  by (auto simp: after_stop_check_def stop_fetching_def put_io_def nth_list_update_if)

lemma put_io_frame [simp]:
  "q_depth (put_io i io q) = q_depth q"
  "length (q_ios (put_io i io q)) = length (q_ios q)"
  "q_sq (put_io i io q) = q_sq q"
  "q_inflight (put_io i io q) = q_inflight q"
  "q_io_cmd_buf (put_io i io q) = q_io_cmd_buf q"
  "q_lock (put_io i io q) = q_lock q"
  "q_cond_mutex (put_io i io q) = q_cond_mutex q"
  "q_signals (put_io i io q) = q_signals q"
  "q_state (put_io i io q) = q_state q"
  "q_id (put_io i io q) = q_id q"
  by (simp_all add: put_io_def)

lemma inflight_inc_frame [simp]:
  "q_depth (inflight_inc q) = q_depth q"
  "q_ios (inflight_inc q) = q_ios q"
  "q_sq (inflight_inc q) = q_sq q"
  "q_inflight (inflight_inc q) = q_inflight q + 1"
  by (simp_all add: inflight_inc_def)

lemma poll_end_frame [simp]:
  "q_depth (poll_end ret n q) = q_depth q"
  "q_ios (poll_end ret n q) = q_ios q"
  "q_sq (poll_end ret n q) = q_sq q"
  "q_inflight (poll_end ret n q) = q_inflight q"
  "wf_queue (poll_end ret n q) = wf_queue q"
  by (simp_all add: poll_end_def ublksrv_kill_eventfd_def ublksrv_queue_idle_enter_def
      ublksrv_queue_idle_exit_def)

lemma write_desc_frame [simp]:
  "q_depth (write_desc t d q) = q_depth q"
  "q_ios (write_desc t d q) = q_ios q"
  "q_sq (write_desc t d q) = q_sq q"
  "q_inflight (write_desc t d q) = q_inflight q"
  "wf_queue (write_desc t d q) = wf_queue q"
  by (simp_all add: write_desc_def wf_queue_def wf_slot_def)

lemma with_seq_frame [simp]:
  "q_depth (with_seq q i) = q_depth q"
  "q_sq (with_seq q i) = q_sq q"
  "q_inflight (with_seq q i) = q_inflight q"
  "io_flags (q_ios (with_seq q i) ! t) = io_flags (q_ios q ! t)"
  by (simp_all add: with_seq_def io_flags_put_io)

lemma inv_complete:
  assumes "inv s" "sys_kernel s = xs @ e # ys" "res \<noteq> UBLK_IO_RES_NEED_GET_DATA"
  shows "inv (s\<lparr>sys_kernel := xs @ ys,
    sys_cq := sys_cq s @ [\<lparr>cqe_user_data = sqe_user_data e, cqe_res = res\<rparr>],
    sys_q := write_desc (sqe_tag e) d (sys_q s)\<rparr>)"
proof -
  have "cqe_tag \<lparr>cqe_user_data = sqe_user_data e, cqe_res = res\<rparr> = sqe_tag e"
    by (simp add: cqe_tag_def sqe_tag_def)
  with assms show ?thesis
    by (auto simp: inv_def all_tags_def outstanding_def flags_ok_def)
qed

lemma inv_pc:
  assumes "inv s" "sys_pc s \<noteq> Adding" "pc \<noteq> Adding"
  shows "inv (s\<lparr>sys_pc := pc\<rparr>)"
  using assms by (simp add: inv_def all_tags_def outstanding_def flags_ok_def)

lemma inv_submit:
  assumes "inv s" "sys_pc s = Waiting"
  shows "inv (s\<lparr>sys_pc := Reaping, sys_kernel := sys_kernel s @ take n (q_sq (sys_q s)),
    sys_q := (sys_q s)\<lparr>q_sq := drop n (q_sq (sys_q s))\<rparr>\<rparr>)"
proof -
  have "mset (map sqe_tag (drop n (q_sq (sys_q s)))) + mset (map sqe_tag (take n (q_sq (sys_q s)))) =
      mset (map sqe_tag (q_sq (sys_q s)))"
    by (metis add.commute append_take_drop_id map_append mset_append)
  with assms show ?thesis
    by (auto simp: inv_def all_tags_def outstanding_def flags_ok_def add_ac
        dest: in_set_takeD in_set_dropD)
qed

lemma inv_finish:
  assumes "inv s" "sys_pc s = Reaping"
  shows "inv (s\<lparr>sys_pc := Top, sys_q := poll_end ret n (sys_q s)\<rparr>)"
  using assms by (simp add: inv_def all_tags_def outstanding_def flags_ok_def)

lemma inv_add:
  assumes "inv s" "sys_pc s = Adding"
  shows "inv (s\<lparr>sys_pc := Reaping, sys_q := inflight_inc (sys_q s)\<rparr>)"
  using assms by (simp add: inv_def all_tags_def outstanding_def flags_ok_def)

lemma inv_hand:
  assumes inv: "inv s" and pc: "sys_pc s = Reaping" and cq: "sys_cq s = c # cs"
    and hand: "cqe_hand h (sys_q s) c = Inr (ho, q')"
  shows "inv (s\<lparr>sys_pc := Adding, sys_cq := cs, sys_q := q',
       sys_target := add_mset (cqe_tag c) (sys_target s),
       sys_handed := (sys_handed s)(cqe_tag c := Suc (sys_handed s (cqe_tag c)))\<rparr>)"
proof -
  let ?q = "after_stop_check (sys_q s) (cqe_tag c) (cqe_res c)"
  have c: "c \<in> set (sys_cq s)" using cq by simp
  note t = inv_cq [OF inv c]
  have wf: "wf_queue ?q" using inv_wf [OF inv] t(1) by (rule wf_queue_after_stop_check)
  have q': "q' = with_seq ?q (cqe_tag c)"
    using hand t(1) hand_to_target_eq [OF wf, of "cqe_tag c" h] by (simp add: cqe_hand_def)
  have "io_flags (q_ios (sys_q s) ! cqe_tag c) = 0"
    using inv t by (simp add: inv_def flags_ok_def)
  then have fl: "io_flags (q_ios q' ! i) = io_flags (q_ios (sys_q s) ! i)" for i
    by (simp add: q' io_flags_after_stop_check)
  have q: "q_depth q' = q_depth (sys_q s)" "q_sq q' = q_sq (sys_q s)"
    "q_inflight q' = q_inflight (sys_q s)" "wf_queue q'"
    using wf by (simp_all add: q' wf_queue_with_seq)
  show ?thesis
    using inv pc cq by (auto simp: inv_def all_tags_def outstanding_def flags_ok_def fl q)
qed

lemma inv_retire:
  assumes inv: "inv s" and pc: "sys_pc s = Reaping" and cq: "sys_cq s = c # cs"
    and res: "cqe_res c \<noteq> UBLK_IO_RES_OK"
    and retire: "ublksrv_handle_cqe h (sys_q s) c slot = Inr (hos, q')"
  shows "inv (s\<lparr>sys_cq := cs, sys_q := q',
       sys_retired := add_mset (cqe_tag c) (sys_retired s)\<rparr>)"
proof -
  have c: "c \<in> set (sys_cq s)" using cq by simp
  note t = inv_cq [OF inv c]
  let ?io = "(q_ios (sys_q s) ! cqe_tag c)\<lparr>io_flags := UBLKSRV_IO_FREE\<rparr>"
  let ?q = "after_stop_check (sys_q s) (cqe_tag c) (cqe_res c)"
  have "cqe_res c \<noteq> UBLK_IO_RES_NEED_GET_DATA" using inv c by (simp add: inv_def)
  then have q': "q' = put_io (cqe_tag c) ?io ?q"
    using retire handle_cqe_retire [OF inv_wf [OF inv] t(5) res] by simp
  have "same_slot (q_ios ?q ! cqe_tag c) ?io"
    by (simp add: same_slot_def after_stop_check_def stop_fetching_def put_io_def nth_list_update_if)
  then have wf: "wf_queue q'"
    unfolding q' by (intro wf_queue_put_io wf_queue_after_stop_check inv_wf inv t)
  have fl: "io_flags (q_ios q' ! i) = io_flags (q_ios (sys_q s) ! i)" if "i \<noteq> cqe_tag c" for i
    using that by (simp add: q' io_flags_put_io after_stop_check_def stop_fetching_def)
  have q: "q_depth q' = q_depth (sys_q s)" "q_sq q' = q_sq (sys_q s)"
    "q_inflight q' = q_inflight (sys_q s)"
    by (simp_all add: q')
  show ?thesis
    using inv pc cq wf by (auto simp: inv_def all_tags_def outstanding_def flags_ok_def fl q)
qed

lemma inv_mark:
  assumes inv: "inv s" and t: "t \<in># sys_target s" and io: "get_io (sys_q s) t = Inr io"
  shows "inv (s\<lparr>sys_target := sys_target s - {#t#}, sys_marked := add_mset t (sys_marked s),
       sys_q := put_io t (ublksrv_mark_io_done io res) (sys_q s)\<rparr>)"
proof -
  note tt = inv_target [OF inv t]
  let ?q = "put_io t (ublksrv_mark_io_done io res) (sys_q s)"
  have io': "io = q_ios (sys_q s) ! t" "t < length (q_ios (sys_q s))"
    using io by (auto simp: get_io_def split: if_splits)
  have "wf_queue ?q"
    by (rule wf_queue_put_io [OF inv_wf [OF inv]]) (simp add: io' ublksrv_mark_io_done_def)
  moreover have "io_flags io = 0"
    using inv tt by (simp add: inv_def flags_ok_def io')
  then have "io_flags (q_ios ?q ! i) = (if i = t then marked_flags else io_flags (q_ios (sys_q s) ! i))" for i
    by (simp add: io_flags_put_io io' ublksrv_mark_io_done_def marked_flags_def)
  moreover obtain m where "sys_target s = add_mset t m" using t by (meson mset_add)
  ultimately show ?thesis
    using inv by (auto simp: inv_def all_tags_def outstanding_def flags_ok_def)
qed

lemma marked_flags_issuable: "issuable marked_flags"
  using issuable_marked [of "\<lparr>io_buf_addr = 0, io_flags = 0, io_result = 0, io_tag = 0, io_iod = None,
    io_private = []\<rparr>"] by (simp add: ublksrv_mark_io_done_def marked_flags_def)

text \<open>A recorded result is always committed: the ring cannot be full.\<close>

lemma issue_eq:
  assumes inv: "inv s" and t: "t \<in># sys_marked s"
    and slot: "slot = None \<longrightarrow> q_depth (sys_q s) \<le> length (q_sq (sys_q s))"
  shows "\<exists>old. slot = Some old \<and>
    ublksrv_queue_io_cmd slot (sys_q s) t (word_of_nat t) = Inr (1, issued (sys_q s) t (word_of_nat t) old)"
proof -
  note tt = inv_marked [OF inv t] and wf = inv_wf [OF inv]
  have "size (mset (map sqe_tag (q_sq (sys_q s))) + sys_marked s) \<le> size (all_tags s)"
    by (simp add: all_tags_def)
  moreover have "size (all_tags s) = q_depth (sys_q s)" using inv by (simp add: inv_def)
  moreover have "0 < size (sys_marked s)" using t by (simp add: nonempty_has_size [symmetric]) auto
  ultimately have "length (q_sq (sys_q s)) < q_depth (sys_q s)" by simp
  then obtain old where old: "slot = Some old" using slot by (cases slot) auto
  have "issuable (io_flags (q_ios (sys_q s) ! t))"
    using inv t tt marked_flags_issuable by (simp add: inv_def flags_ok_def)
  moreover have "unat (word_of_nat t :: u32) < 2 ^ 16"
    using tt(1) wf_queueD(4) [OF wf] by (simp add: unsigned_of_nat take_bit_nat_eq_self)
  ultimately show ?thesis
    using old queue_io_cmd_issued [of "sys_q s" t "word_of_nat t" old] wf_queueD [OF wf] tt by auto
qed

lemma inv_issue:
  assumes inv: "inv s" and t: "t \<in># sys_marked s"
    and slot: "slot = None \<longrightarrow> q_depth (sys_q s) \<le> length (q_sq (sys_q s))"
    and run: "ublksrv_queue_io_cmd slot (sys_q s) t (word_of_nat t) = Inr (r, q')"
  shows "inv (s\<lparr>sys_marked := sys_marked s - {#t#}, sys_q := q',
       sys_committed := (sys_committed s)(t := sys_committed s t + (if r = 1 then 1 else 0))\<rparr>)"
proof -
  obtain old where r: "r = 1" and q': "q' = issued (sys_q s) t (word_of_nat t) old"
    using issue_eq [OF inv t slot] run by auto
  note tt = inv_marked [OF inv t] and wf = inv_wf [OF inv]
  have t16: "unat (word_of_nat t :: u32) = t" "t < 2 ^ 16"
    using tt(1) wf_queueD(4) [OF wf] by (simp_all add: unsigned_of_nat take_bit_nat_eq_self)
  let ?e = "io_sqe (sys_q s) (q_ios (sys_q s) ! t) (word_of_nat t) old"
  have e: "sqe_tag ?e = t" "\<not> is_target_io (sqe_user_data ?e)"
    using io_sqe_cookie [of "word_of_nat t" "sys_q s" "q_ios (sys_q s) ! t" old] t16
    by (simp_all add: sqe_tag_def)
  obtain m where m: "sys_marked s = add_mset t m" using t by (meson mset_add)
  then have "t \<notin># m" using tt(4) by (simp add: not_in_iff)
  have len: "t < length (q_ios (sys_q s))" using tt(1) wf by (simp add: wf_queueD)
  have fl: "io_flags (q_ios q' ! i) = (if i = t then 0 else io_flags (q_ios (sys_q s) ! i))" for i
    using len by (simp add: q' issued_def nth_list_update_if)
  have q: "q_depth q' = q_depth (sys_q s)" "q_sq q' = q_sq (sys_q s) @ [?e]"
    "q_inflight q' = q_inflight (sys_q s) - 1" "wf_queue q'"
    using wf by (simp_all add: q' wf_queue_issued) (simp_all add: issued_def)
  show ?thesis
    using inv e m \<open>t \<notin># m\<close> r
    by (auto simp: inv_def all_tags_def outstanding_def flags_ok_def fl q)
qed

theorem step_inv: "step h s s' \<Longrightarrow> inv s \<Longrightarrow> inv s'"
proof (induction rule: step.induct)
  case (enter s) then show ?case by (intro inv_pc) auto
next
  case (exit s) then show ?case by (intro inv_pc) auto
next
  case (issue t s slot r q') then show ?case by (intro inv_issue)
qed (simp_all add: inv_complete inv_submit inv_hand inv_add inv_retire inv_finish inv_mark inv_issue)

lemma inv_start: "ready_queue q \<Longrightarrow> inv (start_sys q)"
proof -
  assume "ready_queue q"
  moreover from this have "mset (map sqe_tag (q_sq q)) = mset [0..<q_depth q]"
    by (simp only: ready_queue_def)
  ultimately show ?thesis
    by (auto simp: inv_def start_sys_def all_tags_def outstanding_def flags_ok_def ready_queue_def)
qed

interpretation engine: invariant_system "\<lambda>s. \<exists>q. ready_queue q \<and> s = start_sys q" "step h" inv for h
  by unfold_locales (auto intro: inv_start step_inv)

lemma reachable_inv: "reachable h q0 s \<Longrightarrow> ready_queue q0 \<Longrightarrow> inv s"
  unfolding reachable_def by (blast intro: engine.reachable_invariant)

end
