(* ===== verification/Engine_Props.thy ===== *)
theory Engine_Props
  imports Engine
begin

text \<open>
  What the invariant of the concurrent queue gives: the daemon touches the submission ring only
  when no target thread can, every delivered request is committed exactly once, the wake-up is
  never lost, the system does not get stuck, and each tag follows its life cycle.
\<close>

section \<open>The counter decides whether the target is busy\<close>

lemma outstanding_bound: "inv s \<Longrightarrow> size (outstanding s) < 2 ^ 16"
proof -
  assume inv: "inv s"
  have "size (outstanding s) \<le> size (all_tags s)"
    by (simp add: outstanding_def all_tags_def)
  also have "\<dots> = q_depth (sys_q s)" using inv by (simp add: inv_def)
  finally show ?thesis using wf_queueD(4) [OF inv_wf [OF inv]] by simp
qed

lemma sint_small: "n < 2 ^ 16 \<Longrightarrow> sint (word_of_nat n :: s32) = int n"
  by (simp add: signed_of_nat signed_take_bit_int_eq_self)

lemma must_wait_iff: "inv s \<Longrightarrow> sys_pc s \<noteq> Adding \<Longrightarrow> must_wait (sys_q s) \<longleftrightarrow> outstanding s \<noteq> {#}"
  using outstanding_bound [of s]
  by (auto simp: must_wait_def inv_def sint_small nonempty_has_size [symmetric])

section \<open>Progress\<close>

lemma issue_enabled:
  assumes inv: "inv s" and t: "t \<in># sys_marked s"
  shows "\<exists>old. step h s (s\<lparr>sys_marked := sys_marked s - {#t#},
    sys_q := issued (sys_q s) t (word_of_nat t) old,
    sys_committed := (sys_committed s)(t := sys_committed s t + 1)\<rparr>)"
proof -
  fix old :: "io_cmd sqe"
  obtain old' where "Some old = Some old'"
    "ublksrv_queue_io_cmd (Some old) (sys_q s) t (word_of_nat t) =
      Inr (1, issued (sys_q s) t (word_of_nat t) old')"
    using issue_eq [OF inv t, of "Some old"] by auto
  then show ?thesis
    using step.issue [OF t, of "Some old" 1 "issued (sys_q s) t (word_of_nat t) old" h] by auto
qed

lemma mark_enabled:
  assumes inv: "inv s" and t: "t \<in># sys_target s"
  shows "step h s (s\<lparr>sys_target := sys_target s - {#t#}, sys_marked := add_mset t (sys_marked s),
       sys_q := put_io t (ublksrv_mark_io_done (q_ios (sys_q s) ! t) res) (sys_q s)\<rparr>)"
proof -
  have "t < length (q_ios (sys_q s))"
    using inv_target(1) [OF inv t] wf_queueD [OF inv_wf [OF inv]] by simp
  then show ?thesis using t by (intro step.mark) (simp_all add: get_io_def)
qed

text \<open>One target step while the daemon waits: the target's work left gets smaller.\<close>

definition target_work :: "sys \<Rightarrow> nat" where
  "target_work s = 2 * size (sys_target s) + size (sys_marked s)"

lemma target_step:
  assumes inv: "inv s" and busy: "outstanding s \<noteq> {#}"
  shows "\<exists>s'. step h s s' \<and> target_work s' < target_work s \<and> sys_pc s' = sys_pc s \<and>
    sys_kernel s' = sys_kernel s \<and> sys_cq s' = sys_cq s"
proof (cases "sys_marked s = {#}")
  case False
  then obtain t where t: "t \<in># sys_marked s" by (meson multiset_nonemptyE)
  then have "size (sys_marked s - {#t#}) < size (sys_marked s)" by (simp add: size_Diff1_less)
  moreover obtain old where "step h s (s\<lparr>sys_marked := sys_marked s - {#t#},
    sys_q := issued (sys_q s) t (word_of_nat t) old,
    sys_committed := (sys_committed s)(t := sys_committed s t + 1)\<rparr>)"
    using issue_enabled [OF inv t] by blast
  ultimately show ?thesis by (fastforce simp: target_work_def)
next
  case True
  with busy obtain t where t: "t \<in># sys_target s"
    by (auto simp: outstanding_def elim: multiset_nonemptyE)
  then have "size (sys_target s) = Suc (size (sys_target s - {#t#}))"
    by (metis insert_DiffM size_add_mset)
  then show ?thesis
    using mark_enabled [OF inv t]
    by (fastforce simp: target_work_def)
qed

lemma drain:
  assumes "inv s" "sys_pc s = Waiting"
  shows "\<exists>s'. (step h)\<^sup>*\<^sup>* s s' \<and> inv s' \<and> sys_pc s' = Waiting \<and> \<not> must_wait (sys_q s')"
proof -
  have "\<exists>s'. (step h)\<^sup>*\<^sup>* s s' \<and> inv s' \<and> sys_pc s' = Waiting \<and> \<not> must_wait (sys_q s')"
  proof (rule engine.run_until [where m = target_work and G = "\<lambda>s. sys_pc s = Waiting"
        and busy = "\<lambda>s. must_wait (sys_q s)"])
    fix a
    assume a: "inv a" "sys_pc a = Waiting" "must_wait (sys_q a)"
    then have "outstanding a \<noteq> {#}" by (simp add: must_wait_iff)
    with a show "\<exists>b. step h a b \<and> sys_pc b = Waiting \<and> target_work b < target_work a"
      using target_step [OF a(1), of h] by metis
  qed (use assms in auto)
  then show ?thesis .
qed

lemma progress:
  assumes "inv s" "sys_pc s \<noteq> Exited"
  shows "\<exists>s'. step h s s'"
proof (cases "sys_pc s")
  case Top
  then show ?thesis using step.enter step.exit by blast
next
  case Waiting
  show ?thesis
  proof (cases "must_wait (sys_q s)")
    case True
    with assms(1) Waiting have "outstanding s \<noteq> {#}" by (simp add: must_wait_iff)
    then show ?thesis using target_step [OF assms(1)] by blast
  next
    case False
    with Waiting show ?thesis using step.submit by blast
  qed
next
  case Reaping
  then show ?thesis using step.finish by blast
next
  case Adding
  then show ?thesis using step.add by blast
qed (use assms in simp)

section \<open>The wake-up\<close>

lemma issued_signals: "q_signals (issued q i tag old) = q_signals q + (if q_inflight q = 1 then 1 else 0)"
  by (simp add: issued_def)

lemma waiting_step:
  assumes "step h s s'" "inv s" "sys_pc s = Waiting" "must_wait (sys_q s)" "\<not> must_wait (sys_q s')"
  shows "q_signals (sys_q s') = Suc (q_signals (sys_q s)) \<and> sys_pc s' = Waiting"
  using assms(1,3-)
proof cases
  case (issue t slot r q')
  obtain old where old: "q' = issued (sys_q s) t (word_of_nat t) old"
    using issue_eq [OF assms(2) issue(2) issue(3)] issue(4) by auto
  have "outstanding s \<noteq> {#}" using assms by (simp add: must_wait_iff)
  have s': "sys_q s' = q'" "sys_pc s' = Waiting" using issue assms(3) by simp_all
  have "inv s'" using step_inv [OF assms(1,2)] .
  then have "outstanding s' = {#}" using assms(5) s'(2) must_wait_iff [of s'] by simp
  then have "outstanding s = {#t#}" using issue by (auto simp: outstanding_def add_mset_remove_trivial_If
      dest!: multi_member_split)
  then have "q_inflight (sys_q s) = 1" using assms(2,3) by (simp add: inv_def)
  with s' old show ?thesis by (simp add: issued_signals)
qed (auto simp: must_wait_def)

section \<open>The life cycle of a tag\<close>

datatype place = Queued | Fetched | Posted | Handed | Marked | Retired | Nowhere

definition place_of :: "sys \<Rightarrow> nat \<Rightarrow> place" where
  "place_of s t =
    (if t \<in> sqe_tag ` set (q_sq (sys_q s)) then Queued
     else if t \<in> sqe_tag ` set (sys_kernel s) then Fetched
     else if t \<in> cqe_tag ` set (sys_cq s) then Posted
     else if t \<in># sys_target s then Handed
     else if t \<in># sys_marked s then Marked
     else if t \<in># sys_retired s then Retired
     else Nowhere)"

text \<open>The abstract protocol of one request slot.\<close>

inductive life :: "place \<Rightarrow> place \<Rightarrow> bool" where
  consume: "life Queued Fetched"
| post: "life Fetched Posted"
| deliver: "life Posted Handed"
| abort: "life Posted Retired"
| result: "life Handed Marked"
| commit: "life Marked Queued"

inductive_simps life_simps:
  "life Queued p" "life Fetched p" "life Posted p" "life Handed p" "life Marked p" "life Retired p"
  "life Nowhere p"

lemma life_retired_final: "\<not> life Retired p"
  by (simp add: life_simps)

text \<open>Where a tag is decides its place, since it is nowhere else.\<close>

lemma count_image_pos: "t \<in> f ` set xs \<longleftrightarrow> 0 < count (mset (map f xs)) t"
  by (simp only: count_greater_zero_iff) (simp add: image_iff)

lemma first_nonzero:
  fixes a b c d e f :: nat
  assumes "a + b + c + d + e + f = (if P then 1 else 0)"
  defines "x \<equiv> if 0 < a then Queued else if 0 < b then Fetched else if 0 < c then Posted
    else if 0 < d then Handed else if 0 < e then Marked else if 0 < f then Retired else Nowhere"
  shows "(0 < a \<longrightarrow> x = Queued) \<and> (0 < b \<longrightarrow> x = Fetched) \<and> (0 < c \<longrightarrow> x = Posted) \<and>
    (0 < d \<longrightarrow> x = Handed) \<and> (0 < e \<longrightarrow> x = Marked) \<and> (0 < f \<longrightarrow> x = Retired)"
  using assms(1) by (auto simp: x_def split: if_splits)

lemma place_of_eqs:
  assumes "inv s"
  shows "t \<in> sqe_tag ` set (q_sq (sys_q s)) \<Longrightarrow> place_of s t = Queued"
    "t \<in> sqe_tag ` set (sys_kernel s) \<Longrightarrow> place_of s t = Fetched"
    "t \<in> cqe_tag ` set (sys_cq s) \<Longrightarrow> place_of s t = Posted"
    "t \<in># sys_target s \<Longrightarrow> place_of s t = Handed"
    "t \<in># sys_marked s \<Longrightarrow> place_of s t = Marked"
    "t \<in># sys_retired s \<Longrightarrow> place_of s t = Retired"
  using first_nonzero [OF inv_places [OF assms, of t]]
  unfolding place_of_def count_image_pos count_greater_zero_iff [symmetric]
  by blast+

text \<open>Two states with the same tags in the same places, but for one tag.\<close>

lemma place_of_cong:
  assumes "t \<in> sqe_tag ` set (q_sq (sys_q s)) \<longleftrightarrow> t \<in> sqe_tag ` set (q_sq (sys_q s'))"
    "t \<in> sqe_tag ` set (sys_kernel s) \<longleftrightarrow> t \<in> sqe_tag ` set (sys_kernel s')"
    "t \<in> cqe_tag ` set (sys_cq s) \<longleftrightarrow> t \<in> cqe_tag ` set (sys_cq s')"
    "t \<in># sys_target s \<longleftrightarrow> t \<in># sys_target s'"
    "t \<in># sys_marked s \<longleftrightarrow> t \<in># sys_marked s'"
    "t \<in># sys_retired s \<longleftrightarrow> t \<in># sys_retired s'"
  shows "place_of s' t = place_of s t"
  using assms by (simp add: place_of_def)

lemma q_sq_hand: "cqe_hand h q c = Inr (ho, q') \<Longrightarrow> q_sq q' = q_sq q"
  by (auto simp: cqe_hand_def hand_to_target_def bindE_eq_Inr_iff Let_def)

lemma step_life:
  assumes st: "step h s s'" and inv: "inv s"
  shows "place_of s' t = place_of s t \<or> life (place_of s t) (place_of s' t)"
proof -
  have inv': "inv s'" using step_inv [OF st inv] .
  note here = place_of_eqs [OF inv] and there = place_of_eqs [OF inv']
  show ?thesis
    using st
  proof cases
    case (complete xs e ys res d)
    let ?c = "\<lparr>cqe_user_data = sqe_user_data e, cqe_res = res\<rparr>"
    have tag: "cqe_tag ?c = sqe_tag e" by (simp add: cqe_tag_def sqe_tag_def)
    show ?thesis
    proof (cases "t = sqe_tag e")
      case True
      have "place_of s t = Fetched" using complete True by (intro here(2)) auto
      moreover have "place_of s' t = Posted" using complete True tag by (intro there(3)) auto
      ultimately show ?thesis by (simp add: life_simps)
    next
      case False
      with complete tag show ?thesis by (intro disjI1 place_of_cong) auto
    qed
  next
    case (submit n)
    show ?thesis
    proof (cases "t \<in> sqe_tag ` set (take n (q_sq (sys_q s)))")
      case True
      have "place_of s t = Queued" using True by (intro here(1)) (auto dest: in_set_takeD)
      moreover have "place_of s' t = Fetched" using submit True by (intro there(2)) auto
      ultimately show ?thesis by (simp add: life_simps)
    next
      case False
      have "set (q_sq (sys_q s)) = set (take n (q_sq (sys_q s))) \<union> set (drop n (q_sq (sys_q s)))"
        by (metis append_take_drop_id set_append)
      with submit False show ?thesis by (intro disjI1 place_of_cong) auto
    qed
  next
    case (hand c cs ho q')
    show ?thesis
    proof (cases "t = cqe_tag c")
      case True
      have "place_of s t = Posted" using hand True by (intro here(3)) auto
      moreover have "place_of s' t = Handed" using hand True by (intro there(4)) auto
      ultimately show ?thesis by (simp add: life_simps)
    next
      case False
      with hand q_sq_hand [OF hand(6)] show ?thesis by (intro disjI1 place_of_cong) auto
    qed
  next
    case (retire c cs slot hos q')
    show ?thesis
    proof (cases "t = cqe_tag c")
      case True
      have "place_of s t = Posted" using retire True by (intro here(3)) auto
      moreover have "place_of s' t = Retired" using retire True by (intro there(6)) auto
      ultimately show ?thesis by (simp add: life_simps)
    next
      case False
      have c: "c \<in> set (sys_cq s)" "cqe_res c \<noteq> UBLK_IO_RES_NEED_GET_DATA"
        using retire inv by (auto simp: inv_def)
      have "q_sq q' = q_sq (sys_q s)"
        using retire(6) handle_cqe_retire [OF inv_wf [OF inv] inv_cq(5) [OF inv c(1)] retire(5) c(2)]
        by auto
      with retire False show ?thesis by (intro disjI1 place_of_cong) auto
    qed
  next
    case (mark u io res)
    show ?thesis
    proof (cases "t = u")
      case True
      have "place_of s t = Handed" using mark True by (intro here(4)) auto
      moreover have "place_of s' t = Marked" using mark True by (intro there(5)) auto
      ultimately show ?thesis by (simp add: life_simps)
    next
      case False
      with mark show ?thesis by (intro disjI1 place_of_cong) (auto simp: in_diff_count)
    qed
  next
    case (issue u slot r q')
    obtain old where q': "q' = issued (sys_q s) u (word_of_nat u) old"
      using issue_eq [OF inv issue(2) issue(3)] issue(4) by auto
    have u: "unat (word_of_nat u :: u32) = u" "u < 2 ^ 16"
      using inv_marked(1) [OF inv issue(2)] wf_queueD(4) [OF inv_wf [OF inv]]
      by (simp_all add: unsigned_of_nat take_bit_nat_eq_self)
    let ?e = "io_sqe (sys_q s) (q_ios (sys_q s) ! u) (word_of_nat u) old"
    have e: "sqe_tag ?e = u"
      using io_sqe_cookie(1) [of "word_of_nat u"] u by (simp add: sqe_tag_def)
    have sq: "q_sq (sys_q s') = q_sq (sys_q s) @ [?e]" using issue q' by (simp add: issued_def)
    show ?thesis
    proof (cases "t = u")
      case True
      have "place_of s t = Marked" using issue True by (intro here(5)) auto
      moreover have "place_of s' t = Queued" using sq e True by (intro there(1)) auto
      ultimately show ?thesis by (simp add: life_simps)
    next
      case False
      with issue sq e show ?thesis
        by (intro disjI1 place_of_cong) (auto simp: in_diff_count)
    qed
  qed (auto intro!: disjI1 place_of_cong)
qed

end
