(* ===== verification/Demo.thy ===== *)
theory Demo
  imports Engine_Props
begin

text \<open>
  A concrete queue of depth 1, ready to run, and a concrete run of the concurrent system: the fetch
  command is submitted, the driver delivers a write request, it is handed to the target, and the
  daemon comes back to wait for it. The properties of the concurrent system are applied here.
\<close>

definition demo_sqe :: "io_cmd sqe" where
  "demo_sqe = \<lparr>sqe_opcode = IORING_OP_URING_CMD, sqe_flags = IOSQE_FIXED_FILE, sqe_ioprio = 0,
    sqe_fd = 0, sqe_off0 = UBLK_IO_FETCH_REQ, sqe_off1 = 0, sqe_rw_flags = 0,
    sqe_user_data = 0x200000, sqe_cmd = \<lparr>ic_q_id = 0, ic_tag = 0, ic_result = 0, ic_addr = 0\<rparr>\<rparr>"

definition demo_io :: ublk_io where
  "demo_io = \<lparr>io_buf_addr = 0x1000, io_flags = 0, io_result = 0, io_tag = 0, io_iod = Some 0,
    io_private = replicate 12 0\<rparr>"

definition demo_queue :: queue where
  "demo_queue = \<lparr>q_id = 0, q_depth = 1, q_io_cmd_buf = replicate 24 0, q_inflight = 0,
    q_lock = Unlocked, q_cond_mutex = Unlocked, q_signals = 0, q_state = 0, q_efd = -1,
    q_efd_writes = [], q_sq = [demo_sqe], q_ios = [demo_io]\<rparr>"

text \<open>A write of 8 sectors at sector 16.\<close>

definition demo_desc :: io_desc where
  "demo_desc = \<lparr>id_op_flags = 1, id_nr_sectors = 8, id_start_sector = 16, id_addr = 0x1000\<rparr>"

definition demo_cqe :: cqe where
  "demo_cqe = \<lparr>cqe_user_data = 0x200000, cqe_res = UBLK_IO_RES_OK\<rparr>"

lemma demo_tags: "sqe_tag demo_sqe = 0" "cqe_tag demo_cqe = 0"
  "\<not> is_target_io (sqe_user_data demo_sqe)" "\<not> is_target_io (cqe_user_data demo_cqe)"
  by code_simp+

lemma wf_demo_queue: "wf_queue demo_queue"
  by (simp add: wf_queue_def wf_slot_def demo_queue_def demo_io_def longhorn_data_off_def)

lemma ready_demo_queue: "ready_queue demo_queue"
  using wf_demo_queue demo_tags
  by (simp add: ready_queue_def demo_queue_def) (simp add: demo_io_def)

definition demo_delivered :: queue where
  "demo_delivered = write_desc 0 demo_desc (demo_queue\<lparr>q_sq := []\<rparr>)"

lemma demo_hand: "cqe_hand Little demo_delivered demo_cqe =
  Inr (handoff_of Little demo_delivered 0, with_seq demo_delivered 0)"
proof -
  have wf: "wf_queue demo_delivered"
    using wf_demo_queue by (simp add: demo_delivered_def)
  have stop: "after_stop_check demo_delivered 0 UBLK_IO_RES_OK = demo_delivered"
    by (simp add: after_stop_check_def io_res_defs errno_defs demo_delivered_def write_desc_def
        demo_queue_def has_flag_def)
  show ?thesis
    using hand_to_target_eq [OF wf, of 0 Little] demo_tags
    by (simp add: cqe_hand_def demo_cqe_def [THEN arg_cong [where f = cqe_res]] stop)
       (simp add: demo_delivered_def demo_queue_def write_desc_def)
qed

text \<open>The state in which the daemon waits for the request it has handed over.\<close>

definition demo_busy :: sys where
  "demo_busy = (start_sys (inflight_inc (with_seq demo_delivered 0)))
    \<lparr>sys_pc := Waiting, sys_target := {#0#}, sys_handed := (\<lambda>_. 0)(0 := 1)\<rparr>"

lemma demo_not_stopping:
  "poll_end 0 n (inflight_inc (with_seq demo_delivered 0)) = inflight_inc (with_seq demo_delivered 0)"
  "\<not> ublksrv_queue_is_done (inflight_inc (with_seq demo_delivered 0))"
  by (simp_all add: poll_end_def ublksrv_queue_is_done_def ublksrv_queue_idle_exit_def
      inflight_inc_def with_seq_def put_io_def demo_delivered_def write_desc_def demo_queue_def
      has_flag_def ETIME_def)

lemma demo_reachable: "reachable Little demo_queue demo_busy"
proof -
  let ?s0 = "start_sys demo_queue"
  let ?s1 = "?s0\<lparr>sys_pc := Waiting\<rparr>"
  let ?s2 = "?s0\<lparr>sys_pc := Reaping, sys_kernel := [demo_sqe], sys_q := demo_queue\<lparr>q_sq := []\<rparr>\<rparr>"
  let ?s3 = "?s0\<lparr>sys_pc := Reaping, sys_cq := [demo_cqe], sys_q := demo_delivered\<rparr>"
  let ?s4 = "?s0\<lparr>sys_pc := Adding, sys_q := with_seq demo_delivered 0, sys_target := {#0#},
    sys_handed := (\<lambda>_. 0)(0 := 1)\<rparr>"
  let ?s5 = "?s4\<lparr>sys_pc := Reaping, sys_q := inflight_inc (with_seq demo_delivered 0)\<rparr>"
  have "step Little ?s0 ?s1"
    using step.enter [of ?s0 Little]
    by (simp add: start_sys_def ublksrv_queue_is_done_def demo_queue_def)
  moreover have "step Little ?s1 ?s2"
    using step.submit [of ?s1 Little 1]
    by (simp add: start_sys_def must_wait_def demo_queue_def)
  moreover have "step Little ?s2 ?s3"
    using step.complete [of ?s2 "[]" demo_sqe "[]" UBLK_IO_RES_OK Little demo_desc] demo_tags
    by (simp add: start_sys_def demo_delivered_def demo_cqe_def io_res_defs)
       (simp add: demo_sqe_def)
  moreover have "step Little ?s3 ?s4"
    using step.hand [of ?s3 demo_cqe "[]" Little "handoff_of Little demo_delivered 0"
        "with_seq demo_delivered 0"] demo_tags demo_hand
    by (simp add: start_sys_def) (simp add: demo_cqe_def)
  moreover have "step Little ?s4 ?s5"
    using step.add [of ?s4 Little] by (simp add: start_sys_def)
  moreover have "step Little ?s5 (?s5\<lparr>sys_pc := Top\<rparr>)"
    using step.finish [of ?s5 Little 0 1] by (simp add: start_sys_def demo_not_stopping)
  moreover have "step Little (?s5\<lparr>sys_pc := Top\<rparr>) demo_busy"
    using step.enter [of "?s5\<lparr>sys_pc := Top\<rparr>" Little] demo_not_stopping
    by (simp add: start_sys_def demo_busy_def)
  ultimately show ?thesis
    unfolding reachable_def by (meson converse_rtranclp_into_rtranclp rtranclp.rtrancl_refl)
qed

lemma demo_busy_simps: "sys_pc demo_busy = Waiting" "outstanding demo_busy = {#0#}"
  "sys_target demo_busy = {#0#}" "sys_marked demo_busy = {#}"
  by (simp_all add: demo_busy_def outstanding_def start_sys_def)

end
