(* ===== verification/Queue_Props.thy ===== *)
theory Queue_Props
  imports Demo
begin

text \<open>
  The properties of the operations of one queue: issuing on every branch and what the early
  returns do to the lock, committing a result, handling and reaping completions, stopping, and
  idling.
\<close>

section \<open>Issuing a command\<close>

text \<open>
  C12: \<^verbatim>\<open>ublksrv_queue_io_cmd\<close> on every branch. A lock that is held is never obtained; a slot that
  asks for nothing and a full ring return 0 and -1, both with the lock still held; otherwise one
  entry is queued, the slot's flags are cleared, the counter goes down by one, a waiting daemon is
  signalled when it was 1, and the lock is released.
\<close>

theorem queue_io_cmd_branches:
  assumes "q_cond_mutex q = Unlocked" "i < length (q_ios q)" "unat tag < 2 ^ 16"
  shows "ublksrv_queue_io_cmd slot q i tag =
    (if q_lock q = Locked then Inl Deadlock
     else if \<not> issuable (io_flags (q_ios q ! i)) then Inr (0, q\<lparr>q_lock := Locked\<rparr>)
     else case slot of
       None \<Rightarrow> Inr (-1, q\<lparr>q_lock := Locked\<rparr>)
     | Some old \<Rightarrow> Inr (1, issued q i tag old))"
  using assms queue_io_cmd_blocked [of q slot i tag] queue_io_cmd_not_issuable [of q i slot tag]
    queue_io_cmd_no_sqe [of q i tag] queue_io_cmd_issued [of q i tag]
  by (cases "q_lock q") (auto split: option.split)

theorem queue_io_cmd_branches_witness:
  "ublksrv_queue_io_cmd None demo_queue 0 0 = Inr (0, demo_queue\<lparr>q_lock := Locked\<rparr>)"
proof -
  have "io_flags (q_ios demo_queue ! 0) = 0" "q_lock demo_queue = Unlocked"
    "q_cond_mutex demo_queue = Unlocked" "0 < length (q_ios demo_queue)"
    by (simp_all add: demo_queue_def demo_io_def)
  then show ?thesis
    using queue_io_cmd_branches [of demo_queue 0 0 None] not_issuable_0 by simp
qed

text \<open>
  C31: Any call that returns without issuing leaves the lock held, so that the next call on the
  queue, for whatever slot, blocks for ever.
\<close>

theorem early_return_blocks:
  assumes "ublksrv_queue_io_cmd slot q i tag = Inr (r, q')" "r \<noteq> 1"
  shows "ublksrv_queue_io_cmd slot' q' j tag' = Inl Deadlock"
proof -
  have "q_lock q' = Locked"
    using assms
    by (auto simp: ublksrv_queue_io_cmd_def mutex_lock_def bindE_eq_Inr_iff Let_def
        split: mutex.splits if_splits option.splits)
  then show ?thesis by (rule queue_io_cmd_blocked)
qed

theorem early_return_blocks_witness:
  "\<exists>q'. ublksrv_queue_io_cmd None demo_queue 0 0 = Inr (0, q') \<and>
    ublksrv_queue_io_cmd (Some demo_sqe) q' 0 0 = Inl Deadlock"
proof -
  have call: "ublksrv_queue_io_cmd None demo_queue 0 0 = Inr (0, demo_queue\<lparr>q_lock := Locked\<rparr>)"
    by (rule queue_io_cmd_not_issuable) (simp_all add: demo_queue_def demo_io_def not_issuable_0)
  show ?thesis using call early_return_blocks [OF call] by simp
qed

section \<open>Completing a request\<close>

text \<open>
  C10: Completing tag \<open>t\<close> with a result on a well-formed queue succeeds and queues exactly one
  entry, behind those already queued: a commit-and-fetch of that tag with that result, whose
  cookie names the tag and is not taken for one of the target's own requests.
\<close>

theorem complete_io_commits:
  assumes "wf_queue q" "unat tag < q_depth q" "\<not> has_flag (io_flags (q_ios q ! unat tag)) UBLKSRV_NEED_GET_DATA"
  shows "\<exists>q' e. ublksrv_complete_io (Some old) q tag res = Inr (1, q') \<and> wf_queue q' \<and>
    q_sq q' = q_sq q @ [e] \<and> IOC_NR (sqe_off0 e) = UBLK_IO_COMMIT_AND_FETCH_REQ \<and>
    ic_result (sqe_cmd e) = word_of_int res \<and> ic_tag (sqe_cmd e) = ucast tag \<and>
    user_data_to_tag (sqe_user_data e) = tag \<and> \<not> is_target_io (sqe_user_data e) \<and>
    q_inflight q' = q_inflight q - 1 \<and> io_flags (q_ios q' ! unat tag) = 0"
proof -
  have len: "unat tag < length (q_ios q)" and tag: "unat tag < 2 ^ 16"
    using wf_queueD(3,4) [OF assms(1)] assms(2) by simp_all
  have get: "\<not> bit (io_flags (q_ios q ! unat tag)) 3" using assms(3) by (simp only: io_flag_iffs simp_thms)
  let ?q = "completed q tag res old"
  let ?e = "io_sqe q (ublksrv_mark_io_done (q_ios q ! unat tag) res) tag old"
  have "ublksrv_complete_io (Some old) q tag res = Inr (1, ?q)"
    using wf_queueD(1,2) [OF assms(1)] len tag by (intro complete_io_completed) simp_all
  moreover have "q_sq ?q = q_sq q @ [?e]" by (rule completed_sqe(1) [OF len get])
  moreover have "IOC_NR (sqe_off0 ?e) = UBLK_IO_COMMIT_AND_FETCH_REQ"
    "ic_result (sqe_cmd ?e) = word_of_int res"
    using completed_sqe(2,3) [OF len get] by (simp_all add: completed_sqe(1) [OF len get])
  moreover have "q_inflight ?q = q_inflight q - 1" "io_flags (q_ios ?q ! unat tag) = 0"
    using len by (simp_all add: completed_def issued_def nth_list_update_if)
  ultimately show ?thesis
    using io_sqe_cookie(1,3) [OF tag] wf_queue_completed [OF assms(1)] by auto
qed

theorem complete_io_commits_witness:
  "\<exists>q'. ublksrv_complete_io (Some demo_sqe) demo_queue 0 4096 = Inr (1, q') \<and> length (q_sq q') = 2"
proof -
  have pre: "unat (0 :: u32) < q_depth demo_queue"
    "\<not> has_flag (io_flags (q_ios demo_queue ! unat (0 :: u32))) UBLKSRV_NEED_GET_DATA"
    by (simp_all add: demo_queue_def demo_io_def has_flag_def)
  have "length (q_sq demo_queue) = 1" by (simp add: demo_queue_def)
  then show ?thesis
    using complete_io_commits [OF wf_demo_queue pre, of demo_sqe 4096] by auto
qed

text \<open>
  C32: Nothing stops a second completion of the same request: both calls succeed, two commits of the
  same tag are queued with the two results, and the counter goes down by two for one request.
\<close>

theorem complete_io_twice:
  assumes "wf_queue q" "unat tag < q_depth q" "\<not> has_flag (io_flags (q_ios q ! unat tag)) UBLKSRV_NEED_GET_DATA"
  shows "\<exists>q1 q2 e1 e2. ublksrv_complete_io (Some old) q tag res1 = Inr (1, q1) \<and>
    ublksrv_complete_io (Some old) q1 tag res2 = Inr (1, q2) \<and>
    q_sq q2 = q_sq q @ [e1, e2] \<and> sqe_tag e1 = unat tag \<and> sqe_tag e2 = unat tag \<and>
    ic_result (sqe_cmd e1) = word_of_int res1 \<and> ic_result (sqe_cmd e2) = word_of_int res2 \<and>
    q_inflight q2 = q_inflight q - 2"
proof -
  note D = wf_queueD(1-4) [OF assms(1)]
  have len: "unat tag < length (q_ios q)" and tag: "unat tag < 2 ^ 16" using D assms(2) by simp_all
  have get: "\<not> bit (io_flags (q_ios q ! unat tag)) 3" using assms(3) by (simp only: io_flag_iffs simp_thms)
  let ?q1 = "completed q tag res1 old" and ?q2 = "completed (completed q tag res1 old) tag res2 old"
  let ?e1 = "io_sqe q (ublksrv_mark_io_done (q_ios q ! unat tag) res1) tag old"
  let ?e2 = "io_sqe ?q1 (ublksrv_mark_io_done (q_ios ?q1 ! unat tag) res2) tag old"
  have flags1: "io_flags (q_ios ?q1 ! unat tag) = 0" and len1: "unat tag < length (q_ios ?q1)"
    and d1: "q_depth ?q1 = q_depth q" and i1: "q_inflight ?q1 = q_inflight q - 1"
    using len by (simp_all add: completed_def issued_def nth_list_update_if)
  then have get1: "\<not> bit (io_flags (q_ios ?q1 ! unat tag)) 3" by simp
  note D1 = wf_queueD(1,2) [OF wf_queue_completed [OF assms(1)]]
  have "ublksrv_complete_io (Some old) q tag res1 = Inr (1, ?q1)"
    using D len tag by (intro complete_io_completed) simp_all
  moreover have "ublksrv_complete_io (Some old) ?q1 tag res2 = Inr (1, ?q2)"
    using D1 len1 tag by (intro complete_io_completed) simp_all
  moreover have "q_sq ?q2 = q_sq q @ [?e1, ?e2]"
    using completed_sqe(1) [OF len get] completed_sqe(1) [OF len1 get1] by simp
  moreover have "ic_result (sqe_cmd ?e1) = word_of_int res1" "ic_result (sqe_cmd ?e2) = word_of_int res2"
    using completed_sqe(2) [OF len get] completed_sqe(2) [OF len1 get1]
    by (simp_all add: completed_sqe(1) [OF len get] completed_sqe(1) [OF len1 get1])
  moreover have "q_inflight ?q2 = q_inflight q - 2"
    using i1 by (simp add: completed_def [of ?q1] issued_def)
  ultimately show ?thesis
    using io_sqe_cookie(1) [OF tag] by (auto simp: sqe_tag_def)
qed

theorem complete_io_twice_witness:
  "\<exists>q1 q2. ublksrv_complete_io (Some demo_sqe) demo_queue 0 (-5) = Inr (1, q1) \<and>
    ublksrv_complete_io (Some demo_sqe) q1 0 4096 = Inr (1, q2) \<and> q_inflight q2 = -2"
proof -
  have pre: "unat (0 :: u32) < q_depth demo_queue"
    "\<not> has_flag (io_flags (q_ios demo_queue ! unat (0 :: u32))) UBLKSRV_NEED_GET_DATA"
    by (simp_all add: demo_queue_def demo_io_def has_flag_def)
  have "q_inflight demo_queue = 0" by (simp add: demo_queue_def)
  then show ?thesis
    using complete_io_twice [OF wf_demo_queue pre, of demo_sqe "-5" 4096] by auto
qed

section \<open>Reaping completions\<close>

lemma with_seq_cmd_buf [simp]: "q_io_cmd_buf (with_seq q i) = q_io_cmd_buf q"
  "q_state (with_seq q i) = q_state q"
  by (simp_all add: with_seq_def)

text \<open>One completion that is not a request for data.\<close>

lemma handle_cqe_effect:
  assumes wf: "wf_queue q" and c: "completes_slot q c i" and res: "cqe_res c \<noteq> UBLK_IO_RES_NEED_GET_DATA"
  shows "\<exists>q'. ublksrv_handle_cqe h q c slot =
      Inr (if cqe_res c = UBLK_IO_RES_OK then [handoff_of h q i] else [], q') \<and>
    wf_queue q' \<and> q_depth q' = q_depth q \<and> q_io_cmd_buf q' = q_io_cmd_buf q \<and> q_sq q' = q_sq q \<and>
    q_inflight q' = q_inflight q + (if cqe_res c = UBLK_IO_RES_OK then 1 else 0)"
proof (cases "cqe_res c = UBLK_IO_RES_OK")
  case True
  let ?q = "inflight_inc (with_seq (after_stop_check q i (cqe_res c)) i)"
  have "wf_queue ?q"
    using wf completes_slotD(3) [OF c] by (simp add: wf_queue_with_seq wf_queue_after_stop_check)
  then show ?thesis
    using handle_cqe_ok [OF wf c True, of h slot] True by (auto simp: inflight_inc_def)
next
  case False
  let ?q = "put_io i ((q_ios q ! i)\<lparr>io_flags := UBLKSRV_IO_FREE\<rparr>) (after_stop_check q i (cqe_res c))"
  have "same_slot (q_ios (after_stop_check q i (cqe_res c)) ! i) ((q_ios q ! i)\<lparr>io_flags := UBLKSRV_IO_FREE\<rparr>)"
    by (auto simp: after_stop_check_def stop_fetching_def put_io_def nth_list_update_if same_slot_def)
  then have "wf_queue ?q"
    using wf completes_slotD(3) [OF c] by (intro wf_queue_put_io wf_queue_after_stop_check)
  then show ?thesis
    using handle_cqe_retire [OF wf c False res, of h slot] False by auto
qed

lemma handoff_of_cong: "q_io_cmd_buf q' = q_io_cmd_buf q \<Longrightarrow> handoff_of h q' i = handoff_of h q i"
  by (simp add: handoff_of_def slot_desc_def)

text \<open>Completions of slots, none of which asks for data.\<close>

definition plain_cqes :: "queue \<Rightarrow> (cqe \<times> io_cmd sqe option) list \<Rightarrow> bool" where
  "plain_cqes q cs \<longleftrightarrow> list_all (\<lambda>(c, _). completes_slot q c (cqe_tag c) \<and>
    cqe_res c \<noteq> UBLK_IO_RES_NEED_GET_DATA) cs"

lemma plain_cqes_cong: "q_depth q' = q_depth q \<Longrightarrow> plain_cqes q' cs = plain_cqes q cs"
  by (simp add: plain_cqes_def completes_slot_def)

definition delivered :: "(cqe \<times> io_cmd sqe option) list \<Rightarrow> nat list" where
  "delivered cs = map (\<lambda>(c, _). cqe_tag c) (filter (\<lambda>(c, _). cqe_res c = UBLK_IO_RES_OK) cs)"

text \<open>
  C11: Reaping handles every completion in the ring: the count is their number, each delivered
  request is handed to the target exactly once, in ring order and with the descriptor of its slot,
  the counter goes up by the number of these, no entry is queued, and the queue stays well-formed.
\<close>

theorem reap_hands_over_all:
  assumes "wf_queue q" "plain_cqes q cs"
  shows "\<exists>q'. ublksrv_reap_events_uring h q cs =
      Inr (length cs, map (handoff_of h q) (delivered cs), q') \<and>
    wf_queue q' \<and> q_depth q' = q_depth q \<and> q_sq q' = q_sq q \<and>
    q_inflight q' = q_inflight q + word_of_nat (length (delivered cs))"
  using assms
proof (induction cs arbitrary: q)
  case Nil
  then show ?case by (simp add: delivered_def)
next
  case (Cons x cs)
  obtain c slot where x: "x = (c, slot)" by (cases x)
  have c: "completes_slot q c (cqe_tag c)" "cqe_res c \<noteq> UBLK_IO_RES_NEED_GET_DATA"
    using Cons.prems(2) by (auto simp: x plain_cqes_def)
  obtain q1 where q1: "ublksrv_handle_cqe h q c slot =
        Inr (if cqe_res c = UBLK_IO_RES_OK then [handoff_of h q (cqe_tag c)] else [], q1)"
      "wf_queue q1" "q_depth q1 = q_depth q" "q_io_cmd_buf q1 = q_io_cmd_buf q" "q_sq q1 = q_sq q"
      "q_inflight q1 = q_inflight q + (if cqe_res c = UBLK_IO_RES_OK then 1 else 0)"
    using handle_cqe_effect [OF Cons.prems(1) c] by blast
  have "plain_cqes q1 cs"
    using Cons.prems(2) plain_cqes_cong [OF q1(3)] by (simp add: x plain_cqes_def)
  from Cons.IH [OF q1(2) this] q1 show ?case
    by (auto simp: x delivered_def handoff_of_cong [OF q1(4)] cong: map_cong)
qed

theorem reap_hands_over_all_witness:
  "\<exists>q'. ublksrv_reap_events_uring Little demo_delivered [(demo_cqe, None)] =
    Inr (1, [handoff_of Little demo_delivered 0], q') \<and> q_inflight q' = 1"
proof -
  have wf: "wf_queue demo_delivered" using wf_demo_queue by (simp add: demo_delivered_def)
  have plain: "plain_cqes demo_delivered [(demo_cqe, None)]"
    using demo_tags
    by (simp add: plain_cqes_def completes_slot_def cqe_tag_def)
       (simp add: demo_delivered_def demo_queue_def demo_cqe_def io_res_defs)
  have d: "delivered [(demo_cqe, None)] = [0]"
    using demo_tags by (simp add: delivered_def) (simp add: demo_cqe_def)
  have i: "q_inflight demo_delivered = 0"
    by (simp add: demo_delivered_def demo_queue_def)
  show ?thesis
    using reap_hands_over_all [OF wf plain, of Little] unfolding d i by auto
qed

section \<open>Asking for data\<close>

text \<open>
  C33: Asking the driver for the data of a write takes the counter down although no request had
  been counted: starting with no request in flight, after one such completion and the delivery of
  another request the counter is 0 while the target works on the latter, so the daemon does not
  wait for it.
\<close>

theorem get_data_breaks_counter:
  assumes "wf_queue q" "q_inflight q = 0"
    and "completes_slot q c i" "cqe_res c = UBLK_IO_RES_NEED_GET_DATA"
    and "completes_slot q c' j" "cqe_res c' = UBLK_IO_RES_OK"
  shows "\<exists>q' ho. ublksrv_reap_events_uring h q [(c, Some old), (c', slot)] = Inr (2, [ho], q') \<and>
    q_inflight q' = 0 \<and> \<not> must_wait q'"
proof -
  obtain q1 where q1: "ublksrv_handle_cqe h q c (Some old) = Inr ([], q1)" "wf_queue q1"
      "q_inflight q1 = q_inflight q - 1"
    using handle_cqe_get_data [OF assms(1,3,4)] by blast
  have "q_depth q1 = q_depth q"
    using q1(1) assms(1,3,4) by (auto simp: handle_cqe_unfold [OF assms(1,3)] Let_def io_res_defs
        ublksrv_queue_io_cmd_def bindE_eq_Inr_iff inflight_dec_def split: if_splits)
  then have c': "completes_slot q1 c' j" "cqe_res c' \<noteq> UBLK_IO_RES_NEED_GET_DATA"
    using assms(5,6) by (simp_all add: completes_slot_def io_res_defs)
  obtain q2 where "ublksrv_handle_cqe h q1 c' slot = Inr ([handoff_of h q1 j], q2)"
      "q_inflight q2 = q_inflight q1 + 1"
    using handle_cqe_effect [OF q1(2) c', of h slot] assms(6) by auto
  with q1 assms(2) show ?thesis by (simp add: must_wait_def)
qed

definition demo_get_data :: cqe where
  "demo_get_data = \<lparr>cqe_user_data = 0x200000, cqe_res = UBLK_IO_RES_NEED_GET_DATA\<rparr>"

theorem get_data_breaks_counter_witness:
  "\<exists>q' ho. ublksrv_reap_events_uring Little demo_queue
      [(demo_get_data, Some demo_sqe), (demo_cqe, None)] = Inr (2, [ho], q') \<and> \<not> must_wait q'"
proof -
  have slots: "completes_slot demo_queue demo_get_data 0" "completes_slot demo_queue demo_cqe 0"
    using demo_tags
    by (simp_all add: completes_slot_def cqe_tag_def)
       (simp_all add: demo_queue_def demo_get_data_def demo_cqe_def)
  have res: "cqe_res demo_get_data = UBLK_IO_RES_NEED_GET_DATA" "cqe_res demo_cqe = UBLK_IO_RES_OK"
    "q_inflight demo_queue = 0"
    by (simp_all add: demo_get_data_def demo_cqe_def demo_queue_def)
  show ?thesis
    using get_data_breaks_counter [OF wf_demo_queue res(3) slots(1) res(1) slots(2) res(2)] by blast
qed

section \<open>Room for the target's data\<close>

text \<open>
  C37: Handing over a request stores its sequence number 8 bytes into the slot's private block. A
  block of the size asked for by a device that keeps \<^verbatim>\<open>io_data_size\<close> at 0, or of any size below
  12, is overrun by every delivered request.
\<close>

theorem short_private_block_overrun:
  assumes "completes_slot q c i" "cqe_res c = UBLK_IO_RES_OK" "i < length (q_ios q)"
    and "io_iod (q_ios q ! i) = Some off" "off + 24 \<le> length (q_io_cmd_buf q)"
    and "length (io_private (q_ios q ! i)) < 12"
  shows "ublksrv_handle_cqe h q c slot = Inl Bad_access"
proof -
  have "io_iod (q_ios (stop_fetching i (q_ios q ! i) q) ! i) = Some off \<and>
    io_private (q_ios (stop_fetching i (q_ios q ! i) q) ! i) = io_private (q_ios q ! i) \<and>
    length (q_ios (stop_fetching i (q_ios q ! i) q)) = length (q_ios q) \<and>
    q_io_cmd_buf (stop_fetching i (q_ios q ! i) q) = q_io_cmd_buf q"
    using assms by (simp add: stop_fetching_def put_io_def)
  then show ?thesis
    using assms(2-) completes_slotD(1,2) [OF assms(1)]
    by (auto simp: ublksrv_handle_cqe_def get_io_def demo_handle_io_async_def hand_to_target_def
        read_iod_def store_checked_def longhorn_data_off_def Let_def)
qed

theorem short_private_block_overrun_witness:
  "ublksrv_handle_cqe Little (demo_queue\<lparr>q_ios := [demo_io\<lparr>io_private := []\<rparr>]\<rparr>) demo_cqe None =
    Inl Bad_access"
proof -
  have "completes_slot (demo_queue\<lparr>q_ios := [demo_io\<lparr>io_private := []\<rparr>]\<rparr>) demo_cqe 0"
    using demo_tags by (simp add: completes_slot_def cqe_tag_def) (simp add: demo_queue_def)
  then show ?thesis
    by (rule short_private_block_overrun [where off = 0])
       (simp_all add: demo_queue_def demo_io_def demo_cqe_def)
qed

section \<open>Stopping\<close>

definition stopping :: "queue \<Rightarrow> bool" where
  "stopping q \<longleftrightarrow> has_flag (q_state q) UBLKSRV_QUEUE_STOPPING"

lemma queue_io_cmd_state:
  "ublksrv_queue_io_cmd slot q i tag = Inr (r, q') \<Longrightarrow> q_state q' = q_state q"
  by (auto simp: ublksrv_queue_io_cmd_def inflight_dec_def put_io_def bindE_eq_Inr_iff Let_def
      split: if_splits option.splits)

lemma complete_io_state:
  "ublksrv_complete_io slot q tag res = Inr (r, q') \<Longrightarrow> q_state q' = q_state q"
  by (auto simp: ublksrv_complete_io_def put_io_def bindE_eq_Inr_iff dest!: queue_io_cmd_state)

lemma stopping_or: "has_flag (s OR UBLKSRV_QUEUE_STOPPING) UBLKSRV_QUEUE_STOPPING"
  by (simp only: queue_flag_iffs) (simp add: flag_defs bit_simps)

lemma stop_fetching_stops: "stopping (stop_fetching i io q)"
  by (simp add: stopping_def stop_fetching_def put_io_def stopping_or)

lemma hand_to_target_state:
  "hand_to_target h q i = Inr (ho, q') \<Longrightarrow> q_state q' = q_state q"
  by (auto simp: hand_to_target_def put_io_def bindE_eq_Inr_iff Let_def)

lemma handle_cqe_stopping:
  assumes "ublksrv_handle_cqe h q c slot = Inr (hos, q')"
    and "stopping q \<or> cqe_res c = UBLK_IO_RES_ABORT \<and> \<not> is_target_io (cqe_user_data c)"
  shows "stopping q'"
proof (cases "is_target_io (cqe_user_data c)")
  case True
  with assms show ?thesis by (auto simp: ublksrv_handle_cqe_def)
next
  case False
  define io where "io = q_ios q ! unat (user_data_to_tag (cqe_user_data c))"
  let ?q = "stop_fetching (unat (user_data_to_tag (cqe_user_data c))) io q"
  have "q_state q' = q_state ?q"
    using assms False
    by (auto simp: ublksrv_handle_cqe_def stopping_def get_io_def demo_handle_io_async_def
        inflight_inc_def put_io_def bindE_eq_Inr_iff io_def Let_def split: if_splits
        dest!: hand_to_target_state queue_io_cmd_state)
  then show ?thesis using stop_fetching_stops by (simp add: stopping_def)
qed

lemma reap_stopping:
  assumes "ublksrv_reap_events_uring h q cs = Inr (n, hos, q')"
    and "stopping q \<or> (\<exists>x \<in> set cs. cqe_res (fst x) = UBLK_IO_RES_ABORT \<and>
      \<not> is_target_io (cqe_user_data (fst x)))"
  shows "stopping q'"
  using assms
proof (induction cs arbitrary: q n hos)
  case Nil
  then show ?case by simp
next
  case (Cons x cs)
  obtain c slot where x: "x = (c, slot)" by (cases x)
  obtain hos1 q1 n2 hos2 where q1: "ublksrv_handle_cqe h q c slot = Inr (hos1, q1)"
      "ublksrv_reap_events_uring h q1 cs = Inr (n2, hos2, q')"
    using Cons.prems(1) by (auto simp: x bindE_eq_Inr_iff)
  have "stopping q1 \<or> (\<exists>x \<in> set cs. cqe_res (fst x) = UBLK_IO_RES_ABORT \<and>
      \<not> is_target_io (cqe_user_data (fst x)))"
    using Cons.prems(2) handle_cqe_stopping [OF q1(1)] by (auto simp: x)
  with Cons.IH [OF q1(2)] show ?case by blast
qed

lemma wait_inflight_state: "wait_inflight cs q = Inr q' \<Longrightarrow> q_state q' = q_state q"
  by (induction cs q rule: wait_inflight.induct)
     (auto simp: bindE_eq_Inr_iff split: if_splits dest: complete_io_state)

lemma is_done_stopping: "ublksrv_queue_is_done q \<longleftrightarrow> stopping q \<and> q_sq q = []"
  by (simp add: ublksrv_queue_is_done_def stopping_def)

lemma poll_end_stopping: "stopping (poll_end ret n q) = stopping q"
proof -
  have "\<not> bit (UBLKSRV_QUEUE_IDLE) 0"
    by (simp add: flag_defs bit_simps)
  then show ?thesis
    unfolding stopping_def poll_end_def ublksrv_kill_eventfd_def ublksrv_queue_idle_enter_def
      ublksrv_queue_idle_exit_def queue_flag_iffs
    by (auto simp: bit_simps)
qed

text \<open>
  C13: Stopping is for ever: once a completion reports the device gone, no later round of the daemon
  clears the state, and a round that sees such a completion sets it; the round then ends the
  daemon's loop with -19 as soon as no entry is queued, and only then is the result negative.
\<close>

theorem stopping_is_final:
  assumes "ublksrv_process_io h e q = Inr (r, hos, q')"
  shows "(stopping q \<longrightarrow> stopping q') \<and>
    (r < 0 \<longleftrightarrow> stopping q \<and> q_sq q = []) \<and> (r < 0 \<longrightarrow> r = -19 \<and> q' = q \<and> hos = []) \<and>
    (0 \<le> r \<and> (\<exists>x \<in> set (pe_cqes e). cqe_res (fst x) = UBLK_IO_RES_ABORT \<and>
        \<not> is_target_io (cqe_user_data (fst x))) \<longrightarrow> stopping q')"
proof (cases "ublksrv_queue_is_done q")
  case True
  with assms show ?thesis
    by (auto simp: ublksrv_process_io_def ublksrv_queue_is_done_def stopping_def ENODEV_def)
next
  case False
  then obtain q1 n q2 where q1: "wait_inflight (pe_completions e) q = Inr q1"
    and q2: "ublksrv_reap_events_uring h (q1\<lparr>q_sq := drop (pe_consumed e) (q_sq q1)\<rparr>) (pe_cqes e) =
        Inr (n, hos, q2)"
    and r: "r = int n" "q' = poll_end (pe_ret e (poll_timeout q)) n q2"
    using assms by (auto simp: ublksrv_process_io_def ublksrv_poll_def bindE_eq_Inr_iff)
  have s1: "stopping (q1\<lparr>q_sq := drop (pe_consumed e) (q_sq q1)\<rparr>) = stopping q"
    using wait_inflight_state [OF q1] by (simp add: stopping_def)
  have s2: "stopping q' = stopping q2" by (simp only: r(2) poll_end_stopping)
  have "stopping q \<or> (\<exists>x \<in> set (pe_cqes e). cqe_res (fst x) = UBLK_IO_RES_ABORT \<and>
      \<not> is_target_io (cqe_user_data (fst x))) \<Longrightarrow> stopping q'"
    unfolding s2 using reap_stopping [OF q2] s1 by blast
  with False r(1) show ?thesis by (auto simp: is_done_stopping)
qed

theorem stopping_is_final_witness:
  "\<exists>q. ublksrv_process_io Little \<lparr>pe_completions = [], pe_ret = (\<lambda>_. 0), pe_consumed = 0, pe_cqes = []\<rparr>
      (demo_queue\<lparr>q_sq := [], q_state := UBLKSRV_QUEUE_STOPPING\<rparr>) = Inr (-19, [], q) \<and> stopping q"
proof -
  let ?q = "demo_queue\<lparr>q_sq := [], q_state := UBLKSRV_QUEUE_STOPPING\<rparr>"
  have s: "stopping ?q" using stopping_or [of 0] by (simp add: stopping_def)
  have "ublksrv_process_io Little \<lparr>pe_completions = [], pe_ret = (\<lambda>_. 0), pe_consumed = 0, pe_cqes = []\<rparr>
      ?q = Inr (-19, [], ?q)"
    using s by (simp add: ublksrv_process_io_def ublksrv_queue_is_done_def stopping_def ENODEV_def)
  with stopping_is_final [OF this] s show ?thesis by blast
qed

section \<open>Idling\<close>


end
