(* ===== verification/Engine_Refine.thy ===== *)
theory Engine_Refine
  imports Engine_Props Queue_Props
begin

text \<open>
  The function \<^verbatim>\<open>ublksrv_process_io\<close> as a run of the concurrent system: the waiting phase is a
  sequence of mark and issue steps of the target, the reaping phase one of hand, add and retire
  steps of the daemon.
\<close>

section \<open>The waiting phase\<close>

lemma step_trans: "step h s s' \<Longrightarrow> (step h)\<^sup>*\<^sup>* s' s'' \<Longrightarrow> (step h)\<^sup>*\<^sup>* s s''"
  by (rule converse_rtranclp_into_rtranclp)

text \<open>One call of \<^verbatim>\<open>ublksrv_complete_io\<close> is the target's two steps.\<close>

lemma complete_io_steps:
  assumes inv: "inv s" and t: "unat tag \<in># sys_target s"
  shows "\<exists>s'. ublksrv_complete_io (Some old) (sys_q s) tag res = Inr (1, sys_q s') \<and>
    (step h)\<^sup>*\<^sup>* s s' \<and> inv s' \<and> sys_pc s' = sys_pc s \<and> sys_cq s' = sys_cq s \<and>
    sys_target s' = sys_target s - {#unat tag#} \<and> sys_marked s' = sys_marked s \<and>
    sys_kernel s' = sys_kernel s \<and> q_io_cmd_buf (sys_q s') = q_io_cmd_buf (sys_q s) \<and>
    q_state (sys_q s') = q_state (sys_q s) \<and> q_depth (sys_q s') = q_depth (sys_q s)"
proof -
  let ?t = "unat tag" and ?io = "q_ios (sys_q s) ! unat tag"
  let ?s1 = "s\<lparr>sys_target := sys_target s - {#?t#}, sys_marked := add_mset ?t (sys_marked s),
       sys_q := put_io ?t (ublksrv_mark_io_done ?io res) (sys_q s)\<rparr>"
  have len: "?t < length (q_ios (sys_q s))"
    using inv_target(1) [OF inv t] wf_queueD [OF inv_wf [OF inv]] by simp
  have m: "step h s ?s1" by (rule mark_enabled [OF inv t])
  have inv1: "inv ?s1" by (rule step_inv [OF m inv])
  have t1: "?t \<in># sys_marked ?s1" by simp
  have w: "word_of_nat ?t = tag" by simp
  let ?q2 = "issued (sys_q ?s1) ?t tag old"
  let ?s2 = "?s1\<lparr>sys_marked := sys_marked ?s1 - {#?t#}, sys_q := ?q2,
       sys_committed := (sys_committed ?s1)(?t := sys_committed ?s1 ?t + 1)\<rparr>"
  have eq: "ublksrv_queue_io_cmd (Some old) (sys_q ?s1) ?t tag = Inr (1, ?q2)"
    using issue_eq [OF inv1 t1, of "Some old"] w by auto
  then have i: "step h ?s1 ?s2"
    using step.issue [OF t1, of "Some old" 1 ?q2 h] w by simp
  have "ublksrv_complete_io (Some old) (sys_q s) tag res = Inr (1, ?q2)"
    using eq len by (simp add: ublksrv_complete_io_def get_io_def)
  moreover have "(step h)\<^sup>*\<^sup>* s ?s2" using m i by (meson converse_rtranclp_into_rtranclp rtranclp.rtrancl_refl)
  moreover have "inv ?s2" by (rule step_inv [OF i inv1])
  ultimately show ?thesis
    by (intro exI [of _ ?s2]) (simp add: issued_def)
qed

text \<open>The completions that arrive while the daemon waits: one for each request the target holds.\<close>

definition completes_all :: "(u32 \<times> int \<times> io_cmd sqe option) list \<Rightarrow> nat multiset \<Rightarrow> bool" where
  "completes_all cs M \<longleftrightarrow> mset (map (\<lambda>(tag, _, _). unat tag) cs) = M \<and>
    list_all (\<lambda>(_, _, slot). slot \<noteq> None) cs"

lemma wait_inflight_steps:
  assumes "inv s" "sys_pc s = Waiting" "sys_marked s = {#}" "completes_all cs (sys_target s)"
  shows "\<exists>s'. wait_inflight cs (sys_q s) = Inr (sys_q s') \<and> (step h)\<^sup>*\<^sup>* s s' \<and> inv s' \<and>
    sys_pc s' = Waiting \<and> sys_cq s' = sys_cq s \<and> sys_target s' = {#} \<and> sys_marked s' = {#} \<and>
    sys_kernel s' = sys_kernel s \<and> q_io_cmd_buf (sys_q s') = q_io_cmd_buf (sys_q s) \<and>
    q_state (sys_q s') = q_state (sys_q s) \<and> q_depth (sys_q s') = q_depth (sys_q s)"
  using assms
proof (induction cs arbitrary: s)
  case Nil
  then have "outstanding s = {#}" by (simp add: outstanding_def completes_all_def)
  with Nil have "\<not> must_wait (sys_q s)" by (simp add: must_wait_iff)
  with Nil show ?case by (intro exI [of _ s]) (simp add: completes_all_def)
next
  case (Cons c cs)
  obtain tag res old where c: "c = (tag, res, Some old)"
    using Cons.prems(4) by (cases c) (auto simp: completes_all_def)
  have M: "sys_target s = add_mset (unat tag) (mset (map (\<lambda>(tag, _, _). unat tag) cs))"
    using Cons.prems(4) by (simp add: completes_all_def c)
  then have t: "unat tag \<in># sys_target s" by simp
  have wait: "must_wait (sys_q s)"
    using Cons.prems(1,2) M by (simp add: must_wait_iff outstanding_def)
  obtain s1 where s1: "ublksrv_complete_io (Some old) (sys_q s) tag res = Inr (1, sys_q s1)"
      "(step h)\<^sup>*\<^sup>* s s1" "inv s1" "sys_pc s1 = sys_pc s" "sys_cq s1 = sys_cq s"
      "sys_target s1 = sys_target s - {#unat tag#}" "sys_marked s1 = sys_marked s"
      "sys_kernel s1 = sys_kernel s" "q_io_cmd_buf (sys_q s1) = q_io_cmd_buf (sys_q s)"
      "q_state (sys_q s1) = q_state (sys_q s)" "q_depth (sys_q s1) = q_depth (sys_q s)"
    using complete_io_steps [OF Cons.prems(1) t, of old res h] by blast
  have "completes_all cs (sys_target s1)"
    using Cons.prems(4) M s1(6) by (simp add: completes_all_def)
  then obtain s2 where "wait_inflight cs (sys_q s1) = Inr (sys_q s2)" "(step h)\<^sup>*\<^sup>* s1 s2" "inv s2"
      "sys_pc s2 = Waiting" "sys_cq s2 = sys_cq s1" "sys_target s2 = {#}" "sys_marked s2 = {#}"
      "sys_kernel s2 = sys_kernel s1" "q_io_cmd_buf (sys_q s2) = q_io_cmd_buf (sys_q s1)"
      "q_state (sys_q s2) = q_state (sys_q s1)" "q_depth (sys_q s2) = q_depth (sys_q s1)"
    using Cons.IH [OF s1(3)] s1(4,7) Cons.prems(2,3) by auto
  with s1 wait show ?case by (intro exI [of _ s2]) (auto simp: c)
qed

section \<open>The reaping phase\<close>

lemma reap_steps:
  assumes "inv s" "sys_pc s = Reaping" "sys_cq s = map fst cs"
  shows "\<exists>s'. ublksrv_reap_events_uring h (sys_q s) cs =
      Inr (length cs, map (handoff_of h (sys_q s)) (delivered cs), sys_q s') \<and>
    (step h)\<^sup>*\<^sup>* s s' \<and> inv s' \<and> sys_pc s' = Reaping \<and> sys_cq s' = [] \<and>
    sys_target s' = sys_target s + mset (delivered cs) \<and> sys_marked s' = sys_marked s"
  using assms
proof (induction cs arbitrary: s)
  case Nil
  then show ?case by (intro exI [of _ s]) (simp add: delivered_def)
next
  case (Cons x cs)
  obtain c slot where x: "x = (c, slot)" by (cases x)
  have cq: "sys_cq s = c # map fst cs" using Cons.prems(3) by (simp add: x)
  then have c: "c \<in> set (sys_cq s)" by simp
  have slot: "completes_slot (sys_q s) c (cqe_tag c)" by (rule inv_cq(5) [OF Cons.prems(1) c])
  have tgt: "\<not> is_target_io (cqe_user_data c)" and res: "cqe_res c \<noteq> UBLK_IO_RES_NEED_GET_DATA"
    using Cons.prems(1) c by (auto simp: inv_def)
  note wf = inv_wf [OF Cons.prems(1)]
  obtain q1 where q1: "ublksrv_handle_cqe h (sys_q s) c slot =
        Inr (if cqe_res c = UBLK_IO_RES_OK then [handoff_of h (sys_q s) (cqe_tag c)] else [], q1)"
      "q_io_cmd_buf q1 = q_io_cmd_buf (sys_q s)"
    using handle_cqe_effect [OF wf slot res] by blast
  have "\<exists>s1. (step h)\<^sup>*\<^sup>* s s1 \<and> inv s1 \<and> sys_pc s1 = Reaping \<and> sys_cq s1 = map fst cs \<and> sys_q s1 = q1 \<and>
    sys_target s1 = sys_target s + mset (delivered [x]) \<and> sys_marked s1 = sys_marked s"
  proof (cases "cqe_res c = UBLK_IO_RES_OK")
    case True
    obtain ho q' where hand: "cqe_hand h (sys_q s) c = Inr (ho, q')" "q1 = inflight_inc q'"
      using q1(1) handle_cqe_split [OF wf slot True, of h slot] by (auto simp: bindE_eq_Inr_iff)
    let ?s1 = "s\<lparr>sys_pc := Adding, sys_cq := map fst cs, sys_q := q',
       sys_target := add_mset (cqe_tag c) (sys_target s),
       sys_handed := (sys_handed s)(cqe_tag c := Suc (sys_handed s (cqe_tag c)))\<rparr>"
    let ?s2 = "?s1\<lparr>sys_pc := Reaping, sys_q := inflight_inc (sys_q ?s1)\<rparr>"
    have a: "step h s ?s1" by (rule step.hand [OF Cons.prems(2) cq tgt True hand(1)])
    have b: "step h ?s1 ?s2" by (rule step.add) simp
    have "(step h)\<^sup>*\<^sup>* s ?s2" using a b by (meson converse_rtranclp_into_rtranclp rtranclp.rtrancl_refl)
    moreover have "inv ?s2" by (rule step_inv [OF b step_inv [OF a Cons.prems(1)]])
    ultimately show ?thesis
      using hand(2) True by (intro exI [of _ ?s2]) (simp add: x delivered_def)
  next
    case False
    let ?s1 = "s\<lparr>sys_cq := map fst cs, sys_q := q1,
       sys_retired := add_mset (cqe_tag c) (sys_retired s)\<rparr>"
    have a: "step h s ?s1" by (rule step.retire [OF Cons.prems(2) cq tgt False q1(1)])
    then show ?thesis
      using step_inv [OF a Cons.prems(1)] Cons.prems(2) False
      by (intro exI [of _ ?s1]) (auto simp: x delivered_def)
  qed
  then obtain s1 where s1: "(step h)\<^sup>*\<^sup>* s s1" "inv s1" "sys_pc s1 = Reaping" "sys_cq s1 = map fst cs"
      "sys_q s1 = q1" "sys_target s1 = sys_target s + mset (delivered [x])" "sys_marked s1 = sys_marked s"
    by blast
  from Cons.IH [OF s1(2,3,4)] obtain s2 where s2: "ublksrv_reap_events_uring h q1 cs =
        Inr (length cs, map (handoff_of h q1) (delivered cs), sys_q s2)"
      "(step h)\<^sup>*\<^sup>* s1 s2" "inv s2" "sys_pc s2 = Reaping" "sys_cq s2 = []"
      "sys_target s2 = sys_target s1 + mset (delivered cs)" "sys_marked s2 = sys_marked s1"
    by (auto simp: s1(5))
  have "delivered (x # cs) = delivered [x] @ delivered cs" by (simp add: delivered_def)
  moreover have "map (handoff_of h q1) (delivered cs) = map (handoff_of h (sys_q s)) (delivered cs)"
    by (simp add: handoff_of_cong [OF q1(2)])
  ultimately show ?case
    using s1 s2 q1(1) by (intro exI [of _ s2]) (auto simp: x delivered_def ac_simps)
qed

section \<open>One round\<close>

lemma process_io_steps:
  assumes inv: "inv s" and pc: "sys_pc s = Top" and marked: "sys_marked s = {#}"
    and busy: "\<not> ublksrv_queue_is_done (sys_q s)"
    and cs: "completes_all (pe_completions e) (sys_target s)" and cq: "sys_cq s = map fst (pe_cqes e)"
  shows "\<exists>s'. ublksrv_process_io h e (sys_q s) =
      Inr (int (length (pe_cqes e)), map (handoff_of h (sys_q s)) (delivered (pe_cqes e)), sys_q s') \<and>
    (step h)\<^sup>*\<^sup>* s s' \<and> inv s' \<and> sys_pc s' = Top \<and> sys_cq s' = [] \<and>
    sys_target s' = mset (delivered (pe_cqes e)) \<and> sys_marked s' = {#}"
proof -
  let ?s1 = "s\<lparr>sys_pc := Waiting\<rparr>"
  have a: "step h s ?s1" by (rule step.enter [OF pc busy])
  obtain s2 where s2: "wait_inflight (pe_completions e) (sys_q s) = Inr (sys_q s2)"
      "(step h)\<^sup>*\<^sup>* ?s1 s2" "inv s2" "sys_pc s2 = Waiting" "sys_cq s2 = sys_cq s"
      "sys_target s2 = {#}" "sys_marked s2 = {#}" "q_io_cmd_buf (sys_q s2) = q_io_cmd_buf (sys_q s)"
    using wait_inflight_steps [OF step_inv [OF a inv], of "pe_completions e" h] marked cs by auto
  let ?n = "pe_consumed e"
  let ?s3 = "s2\<lparr>sys_pc := Reaping, sys_kernel := sys_kernel s2 @ take ?n (q_sq (sys_q s2)),
       sys_q := (sys_q s2)\<lparr>q_sq := drop ?n (q_sq (sys_q s2))\<rparr>\<rparr>"
  have "\<not> must_wait (sys_q s2)" using s2 by (simp add: must_wait_iff outstanding_def)
  then have b: "step h s2 ?s3" by (rule step.submit [OF s2(4)])
  obtain s4 where s4: "ublksrv_reap_events_uring h (sys_q ?s3) (pe_cqes e) =
        Inr (length (pe_cqes e), map (handoff_of h (sys_q ?s3)) (delivered (pe_cqes e)), sys_q s4)"
      "(step h)\<^sup>*\<^sup>* ?s3 s4" "inv s4" "sys_pc s4 = Reaping" "sys_cq s4 = []"
      "sys_target s4 = sys_target ?s3 + mset (delivered (pe_cqes e))" "sys_marked s4 = sys_marked ?s3"
    using reap_steps [OF step_inv [OF b s2(3)], of "pe_cqes e" h] s2(5) cq by auto
  let ?fin = "poll_end (pe_ret e (poll_timeout (sys_q s))) (length (pe_cqes e))"
  let ?s5 = "s4\<lparr>sys_pc := Top, sys_q := ?fin (sys_q s4)\<rparr>"
  have c: "step h s4 ?s5" by (rule step.finish [OF s4(4)])
  have "(step h)\<^sup>*\<^sup>* s ?s5"
    using a s2(2) b s4(2) c by (meson converse_rtranclp_into_rtranclp rtranclp.rtrancl_refl rtranclp_trans)
  moreover have "inv ?s5" by (rule step_inv [OF c s4(3)])
  moreover have "ublksrv_process_io h e (sys_q s) =
      Inr (int (length (pe_cqes e)), map (handoff_of h (sys_q s)) (delivered (pe_cqes e)), sys_q ?s5)"
  proof -
    have "handoff_of h (sys_q ?s3) i = handoff_of h (sys_q s) i" for i
      by (rule handoff_of_cong) (simp add: s2(8))
    then have "ublksrv_reap_events_uring h ((sys_q s2)\<lparr>q_sq := drop ?n (q_sq (sys_q s2))\<rparr>) (pe_cqes e) =
        Inr (length (pe_cqes e), map (handoff_of h (sys_q s)) (delivered (pe_cqes e)), sys_q s4)"
      using s4(1) by simp
    then show ?thesis
      using s2(1) busy wf_queueD(2) [OF inv_wf [OF inv]]
      by (simp add: ublksrv_process_io_def ublksrv_poll_def)
  qed
  ultimately show ?thesis
    using s2 s4 by (intro exI [of _ ?s5]) simp
qed

end
