(* ===== verification/Os.thy ===== *)
theory Os
  imports Structs
begin

text \<open>
  What the control plane gets from outside the repository: the C library, the kernel and
  \<^verbatim>\<open>liburing\<close>. Every call appends an event to the history, and its result is a function of the
  history so far, so an environment may answer differently each time. Nothing is assumed about
  the answers here.
\<close>

section \<open>Events and the environment\<close>

text \<open>\<^verbatim>\<open>struct io_uring_params\<close>, the fields that are set.\<close>

record ring_params =
  rp_flags :: u32
  rp_cq_entries :: u32

text \<open>
  One event per call, with its arguments and result. A submission carries the entry and the content
  of the buffer it points to.
\<close>

datatype event =
    E_alloc nat bool
  | E_free
  | E_open string int
  | E_close int
  | E_unlink string
  | E_ftruncate int int
  | E_write int "byte list" int
  | E_ring_init nat ring_params int
  | E_get_sqe int bool
  | E_submit int "ctrl_cmd sqe" "byte list" int
  | E_wait int int
  | E_seen int
  | E_thread nat
  | E_join nat

type_synonym world = "event list"

record os =
  os_alloc :: "world \<Rightarrow> nat \<Rightarrow> bool"
  os_open :: "world \<Rightarrow> string \<Rightarrow> int"
  os_ftruncate :: "world \<Rightarrow> int \<Rightarrow> int"
  os_write :: "world \<Rightarrow> int \<Rightarrow> byte list \<Rightarrow> int"
  os_getpid :: "world \<Rightarrow> int"
  os_ring_init :: "world \<Rightarrow> int"
  os_ring_fd :: "world \<Rightarrow> int"
  os_get_sqe :: "world \<Rightarrow> int \<Rightarrow> (u64 \<times> ctrl_cmd sqe) option"
  os_submit :: "world \<Rightarrow> int \<Rightarrow> int"
  os_wait_cqe :: "world \<Rightarrow> int \<Rightarrow> int"
  os_cqe_res :: "world \<Rightarrow> int \<Rightarrow> int"
  os_cqe_out :: "world \<Rightarrow> int \<Rightarrow> byte list"
  os_junk :: "world \<Rightarrow> byte list"
  os_addr :: "world \<Rightarrow> u64"

text \<open>Memory nobody has initialised: \<open>n\<close> bytes with whatever content.\<close>

definition uninit :: "os \<Rightarrow> world \<Rightarrow> nat \<Rightarrow> byte list" where
  "uninit os w n = take n (os_junk os w @ replicate n 0)"

lemma length_uninit [simp]: "length (uninit os w n) = n"
  by (simp add: uninit_def)

section \<open>Waiting for a completion\<close>

text \<open>
  The loop around \<^verbatim>\<open>io_uring_wait_cqe\<close> retries as long as the wait is interrupted by a signal;
  None means that it never stops.
\<close>

definition EINTR_ret :: int where "EINTR_ret = - EINTR"

partial_function (option) wait_cqe_loop :: "os \<Rightarrow> int \<Rightarrow> world \<Rightarrow> (int \<times> world) option" where
  "wait_cqe_loop os fd w =
    (let r = os_wait_cqe os w fd; w' = w @ [E_wait fd r]
     in if r = EINTR_ret then wait_cqe_loop os fd w' else Some (r, w'))"

text \<open>After \<open>n\<close> interruptions the loop returns the first other answer.\<close>

definition interrupted :: "int \<Rightarrow> world \<Rightarrow> nat \<Rightarrow> world" where
  "interrupted fd w n = w @ replicate n (E_wait fd EINTR_ret)"

lemma interrupted_Suc: "interrupted fd (w @ [E_wait fd EINTR_ret]) n = interrupted fd w (Suc n)"
  by (simp add: interrupted_def)

lemma wait_cqe_loop_returns:
  assumes "\<And>i. i < n \<Longrightarrow> os_wait_cqe os (interrupted fd w i) fd = EINTR_ret"
    and "os_wait_cqe os (interrupted fd w n) fd = r" "r \<noteq> EINTR_ret"
  shows "wait_cqe_loop os fd w = Some (r, interrupted fd w n @ [E_wait fd r])"
  using assms
proof (induction n arbitrary: w)
  case 0
  then show ?case by (subst wait_cqe_loop.simps) (simp add: interrupted_def Let_def)
next
  case (Suc n)
  have r0: "os_wait_cqe os w fd = EINTR_ret" using Suc.prems(1) [of 0] by (simp add: interrupted_def)
  have "wait_cqe_loop os fd (w @ [E_wait fd EINTR_ret]) =
      Some (r, interrupted fd (w @ [E_wait fd EINTR_ret]) n @ [E_wait fd r])"
    using Suc.prems by (intro Suc.IH) (auto simp: interrupted_Suc)
  then show ?case
    by (subst wait_cqe_loop.simps) (simp add: r0 interrupted_Suc Let_def)
qed

text \<open>Whatever it returns is not an interruption, and the history only grows.\<close>

lemma wait_cqe_loop_result:
  assumes "wait_cqe_loop os fd w = Some (r, w')"
  shows "r \<noteq> EINTR_ret \<and> (\<exists>n. w' = interrupted fd w n @ [E_wait fd r])"
proof -
  have "fst x \<noteq> EINTR_ret \<and> (\<exists>n. snd x = interrupted fd w n @ [E_wait fd (fst x)])"
    if "wait_cqe_loop os fd w = Some x" for x
  proof (rule wait_cqe_loop.raw_induct
      [where P = "\<lambda>os fd w x. fst x \<noteq> EINTR_ret \<and> (\<exists>n. snd x = interrupted fd w n @ [E_wait fd (fst x)])",
       OF _ that])
    fix loop os fd w x
    assume IH: "\<And>os fd w x. loop os fd w = Some x \<Longrightarrow>
        fst x \<noteq> EINTR_ret \<and> (\<exists>n. snd x = interrupted fd w n @ [E_wait fd (fst x)])"
      and eq: "(let r = os_wait_cqe os w fd; w' = w @ [E_wait fd r]
        in if r = EINTR_ret then loop os fd w' else Some (r, w')) = Some x"
    show "fst x \<noteq> EINTR_ret \<and> (\<exists>n. snd x = interrupted fd w n @ [E_wait fd (fst x)])"
    proof (cases "os_wait_cqe os w fd = EINTR_ret")
      case True
      with eq IH [of os fd "w @ [E_wait fd EINTR_ret]" x] show ?thesis
        by (auto simp: Let_def interrupted_Suc intro: exI)
    next
      case False
      with eq show ?thesis by (auto simp: Let_def interrupted_def intro!: exI [of _ 0])
    qed
  qed
  from this [OF assms] show ?thesis by simp
qed

end
