(* ===== verification/Ctrl.thy ===== *)
theory Ctrl
  imports Os
begin

text \<open>
  The control plane: opening the control device, building and running one control command, and the
  operations on a device (\<^verbatim>\<open>ublksrv_ctrl_*\<close>, \<^verbatim>\<open>init_params\<close> and \<^verbatim>\<open>cmd_dev_del\<close>).
\<close>

section \<open>The control device\<close>

definition IORING_SETUP_CQSIZE :: u32 where [flag_defs]: "IORING_SETUP_CQSIZE = push_bit 3 1"
definition IORING_SETUP_COOP_TASKRUN :: u32 where
  [flag_defs]: "IORING_SETUP_COOP_TASKRUN = push_bit 8 1"
definition IORING_SETUP_SQE128 :: u32 where [flag_defs]: "IORING_SETUP_SQE128 = push_bit 10 1"

definition ublksrv_setup_ring_params :: "int \<Rightarrow> u32 \<Rightarrow> ring_params" where
  "ublksrv_setup_ring_params cq_depth flags =
    \<lparr>rp_flags = flags OR IORING_SETUP_CQSIZE, rp_cq_entries = word_of_int cq_depth\<rparr>"

definition CTRL_DEV :: string where "CTRL_DEV = ''/dev/ublk-control''"
definition UBLKC_DEV :: string where "UBLKC_DEV = ''/dev/ublkc''"
definition UBLKC_PATH_MAX :: nat where "UBLKC_PATH_MAX = 32"

definition ublk_is_unprivileged :: "ctrl_dev \<Rightarrow> bool" where
  "ublk_is_unprivileged dev \<longleftrightarrow> has_flag (di_flags (cd_info dev)) UBLK_F_UNPRIVILEGED_DEV"

definition zero_info :: dev_info where
  "zero_info = dev_info_of (replicate 64 0)"

text \<open>
  \<^verbatim>\<open>ublksrv_ctrl_init\<close>; the result of \<^verbatim>\<open>calloc\<close> is stored to without a check. None is the null
  pointer.
\<close>

definition ublksrv_ctrl_init :: "os \<Rightarrow> dev_data \<Rightarrow> world \<Rightarrow> (ctrl_dev option \<times> world) result" where
  "ublksrv_ctrl_init os data w =
    (let ok = os_alloc os w 1; w = w @ [E_alloc 1 ok];
         fd = os_open os w CTRL_DEV; w = w @ [E_open CTRL_DEV fd]
     in if \<not> ok then Inl Bad_access
     else if fd < 0 then Inr (None, w)
     else
       let info = zero_info
             \<lparr>di_dev_id := word_of_int (dd_dev_id data), di_nr_hw_queues := dd_nr_hw_queues data,
              di_queue_depth := dd_queue_depth data,
              di_max_io_buf_bytes := dd_max_io_buf_bytes data,
              di_flags := dd_flags data, di_ublksrv_flags := dd_ublksrv_flags data\<rparr>;
           p = ublksrv_setup_ring_params 32 IORING_SETUP_SQE128;
           ret = os_ring_init os w; w = w @ [E_ring_init 32 p ret]
       in if ret < 0 then Inr (None, w @ [E_free])
          else Inr (Some
            \<lparr>cd_ring_fd = os_ring_fd os w, cd_ctrl_fd = fd, cd_bs_shift = 0, cd_info = info,
             cd_tgt_type = dd_tgt_type data, cd_tgt_ops = dd_tgt_ops data,
             cd_run_dir = dd_run_dir data, cd_tgt_argc = dd_tgt_argc data,
             cd_tgt_argv = dd_tgt_argv data, cd_cpuset = None\<rparr>, w))"

definition ublksrv_ctrl_deinit :: "ctrl_dev \<Rightarrow> world \<Rightarrow> world" where
  "ublksrv_ctrl_deinit dev w =
    w @ [E_close (cd_ring_fd dev), E_close (cd_ctrl_fd dev), E_free, E_free]"

section \<open>One control command\<close>

text \<open>
  Filling the entry: fields of the command that the flags do not select keep what the ring slot
  held before. \<open>addr\<close> is the address of the entry, whose command area starts at byte 48.
\<close>

definition sqe_cmd_off :: u64 where "sqe_cmd_off = 48"

definition ublksrv_ctrl_init_cmd ::
  "ctrl_dev \<Rightarrow> u64 \<Rightarrow> ctrl_cmd sqe \<Rightarrow> cmd_data \<Rightarrow> ctrl_cmd sqe result" where
  "ublksrv_ctrl_init_cmd dev addr sqe data =
    (let info = cd_info dev; cmd = sqe_cmd sqe; cmd_op = cm_op data;
         sqe = sqe\<lparr>sqe_fd := cd_ctrl_fd dev, sqe_opcode := IORING_OP_URING_CMD, sqe_ioprio := 0\<rparr>;
         cmd = (if has_flag (cm_flags data) CTRL_CMD_HAS_BUF
                then cmd\<lparr>cc_addr := cm_addr data, cc_len := ucast (cm_len data)\<rparr> else cmd);
         cmd = (if has_flag (cm_flags data) CTRL_CMD_HAS_DATA
                then cmd\<lparr>cc_data := cm_data data, cc_dev_path_len := cm_dev_path_len data\<rparr>
                else cmd);
         cmd = cmd\<lparr>cc_dev_id := di_dev_id info, cc_queue_id := -1\<rparr>
     in bindE (if \<not> has_flag (cm_flags data) CTRL_CMD_NO_TRANS \<and>
                  has_flag (di_flags info) UBLK_F_CMD_IOCTL_ENCODE
               then legacy_op_to_ioctl cmd_op else Inr cmd_op) (\<lambda>cmd_op.
        Inr ((ublksrv_set_sqe_cmd_op cmd_op sqe)
               \<lparr>sqe_cmd := cmd, sqe_user_data := addr + sqe_cmd_off\<rparr>)))"

text \<open>
  \<^verbatim>\<open>__ublksrv_ctrl_cmd\<close> on the buffer the command points to: the result, the buffer after the driver
  has written to it, and the history.
\<close>

definition ublksrv_ctrl_cmd ::
  "os \<Rightarrow> ctrl_dev \<Rightarrow> cmd_data \<Rightarrow> byte list \<Rightarrow> world \<Rightarrow> (int \<times> byte list \<times> world) result" where
  "ublksrv_ctrl_cmd os dev data buf w =
    (let ring = cd_ring_fd dev; slot = os_get_sqe os w ring; w = w @ [E_get_sqe ring (slot \<noteq> None)]
     in case slot of
          None \<Rightarrow> Inr (- EINVAL, buf, w)
        | Some (addr, sqe) \<Rightarrow>
            bindE (ublksrv_ctrl_init_cmd dev addr sqe data) (\<lambda>sqe.
            let ret = os_submit os w ring; w = w @ [E_submit ring sqe buf ret] in
            if ret < 0 then Inr (ret, buf, w)
            else
              (case wait_cqe_loop os ring w of
                 None \<Rightarrow> Inl No_return
               | Some (ret, w) \<Rightarrow>
                   if ret < 0 then Inr (ret, buf, w)
                   else Inr (os_cqe_res os w ring, overlay (os_cqe_out os w ring) buf,
                             w @ [E_seen ring]))))"

section \<open>Device paths\<close>

text \<open>\<^verbatim>\<open>"%s%d"\<close> with the device number as a signed integer.\<close>

definition dev_path :: "u32 \<Rightarrow> string" where
  "dev_path dev_id = UBLKC_DEV @ int_dec (sint dev_id)"

definition put_dev_path :: "ctrl_dev \<Rightarrow> byte list \<Rightarrow> byte list" where
  "put_dev_path dev buf = overlay (snprintf UBLKC_PATH_MAX (dev_path (di_dev_id (cd_info dev)))) buf"

section \<open>Device parameters\<close>

text \<open>The two-part buffer of an unprivileged device: the path, then the payload.\<close>

definition path_data :: "cmd_data \<Rightarrow> u64 \<Rightarrow> nat \<Rightarrow> cmd_data" where
  "path_data data addr len =
    data\<lparr>cm_flags := cm_flags data OR (CTRL_CMD_HAS_BUF OR CTRL_CMD_HAS_DATA),
         cm_len := word_of_nat len, cm_dev_path_len := word_of_nat UBLKC_PATH_MAX,
         cm_addr := addr\<rparr>"

definition ublksrv_ctrl_set_params ::
  "os \<Rightarrow> ctrl_dev \<Rightarrow> ublk_params \<Rightarrow> world \<Rightarrow> (int \<times> ublk_params \<times> world) result" where
  "ublksrv_ctrl_set_params os dev params w =
    (let data = \<lparr>cm_op = UBLK_CMD_SET_PARAMS, cm_flags = CTRL_CMD_HAS_BUF, cm_data = 0,
                 cm_dev_path_len = 0, cm_addr = os_addr os w, cm_len = word_of_nat sizeof_params\<rparr>;
         buf = uninit os w (UBLKC_PATH_MAX + sizeof_params);
         params = params\<lparr>up_len := word_of_nat sizeof_params\<rparr>
     in if ublk_is_unprivileged dev then
          let buf = store_at UBLKC_PATH_MAX (ublk_params_bytes params) (put_dev_path dev buf);
              data = path_data data (os_addr os w) (UBLKC_PATH_MAX + sizeof_params)
          in bindE (ublksrv_ctrl_cmd os dev data buf w) (\<lambda>(ret, _, w). Inr (ret, params, w))
        else bindE (ublksrv_ctrl_cmd os dev data (ublk_params_bytes params) w) (\<lambda>(ret, out, w).
             Inr (ret, ublk_params_of out, w)))"

definition ublksrv_ctrl_get_params ::
  "os \<Rightarrow> ctrl_dev \<Rightarrow> ublk_params \<Rightarrow> world \<Rightarrow> (int \<times> ublk_params \<times> world) result" where
  "ublksrv_ctrl_get_params os dev params w =
    (let data = \<lparr>cm_op = UBLK_CMD_GET_PARAMS, cm_flags = CTRL_CMD_HAS_BUF, cm_data = 0,
                 cm_dev_path_len = 0, cm_addr = os_addr os w, cm_len = word_of_nat sizeof_params\<rparr>;
         buf = replicate (UBLKC_PATH_MAX + sizeof_params) 0;
         params = params\<lparr>up_len := word_of_nat sizeof_params\<rparr>
     in if ublk_is_unprivileged dev then
          let buf = store_at UBLKC_PATH_MAX (ublk_params_bytes params) (put_dev_path dev buf);
              data = path_data data (os_addr os w) (UBLKC_PATH_MAX + sizeof_params)
          in bindE (ublksrv_ctrl_cmd os dev data buf w) (\<lambda>(ret, buf, w).
             Inr (ret, if 0 \<le> ret then ublk_params_of (drop UBLKC_PATH_MAX buf) else params, w))
        else bindE (ublksrv_ctrl_cmd os dev data (ublk_params_bytes params) w) (\<lambda>(ret, out, w).
             Inr (ret, ublk_params_of out, w)))"

text \<open>\<^verbatim>\<open>init_params\<close>: the parameters of a new device, set at once.\<close>

definition init_params_value :: "dev_info \<Rightarrow> u64 \<Rightarrow> ublk_params" where
  "init_params_value info dev_sectors =
    zero_params
     \<lparr>up_len := word_of_nat sizeof_params,
      up_types := UBLK_PARAM_TYPE_BASIC OR UBLK_PARAM_TYPE_DISCARD,
      up_basic := (up_basic zero_params)
        \<lparr>pb_attrs := 0, pb_logical_bs_shift := 9, pb_physical_bs_shift := 12,
         pb_io_opt_shift := 12, pb_io_min_shift := 9,
         pb_max_sectors := drop_bit 9 (di_max_io_buf_bytes info),
         pb_dev_sectors := dev_sectors\<rparr>,
      up_discard := (up_discard zero_params)
        \<lparr>pd_discard_granularity := push_bit 9 1,
         pd_max_discard_sectors := drop_bit 9 (-1), pd_max_discard_segments := 1\<rparr>\<rparr>"

definition init_params :: "os \<Rightarrow> ctrl_dev \<Rightarrow> u64 \<Rightarrow> world \<Rightarrow> (int \<times> world) result" where
  "init_params os dev dev_sectors w =
    bindE (ublksrv_ctrl_set_params os dev (init_params_value (cd_info dev) dev_sectors) w)
      (\<lambda>(ret, _, w). Inr (ret, w))"

end
