(* ===== verification/Ctrl_Ops.thy ===== *)
theory Ctrl_Ops
  imports Ctrl
begin

text \<open>
  The operations on a device that are one or a few control commands: adding, starting, stopping
  and deleting it, its information with the fallback to older drivers, the CPU affinity of its
  queues, and the deletion by number.
\<close>

section \<open>Adding a device\<close>

text \<open>The driver completes the device information in place.\<close>

definition ctrl_add_dev_op :: "os \<Rightarrow> ctrl_dev \<Rightarrow> u32 \<Rightarrow> world \<Rightarrow> (int \<times> ctrl_dev \<times> world) result" where
  "ctrl_add_dev_op os dev cmd_op w =
    (let data = \<lparr>cm_op = cmd_op, cm_flags = CTRL_CMD_HAS_BUF OR CTRL_CMD_NO_TRANS, cm_data = 0,
                 cm_dev_path_len = 0, cm_addr = os_addr os w,
                 cm_len = word_of_nat sizeof_dev_info\<rparr>
     in bindE (ublksrv_ctrl_cmd os dev data (dev_info_bytes (cd_info dev)) w) (\<lambda>(ret, out, w).
        Inr (ret, dev\<lparr>cd_info := dev_info_of out\<rparr>, w)))"

definition ublksrv_ctrl_add_dev :: "os \<Rightarrow> ctrl_dev \<Rightarrow> world \<Rightarrow> (int \<times> ctrl_dev \<times> world) result" where
  "ublksrv_ctrl_add_dev os dev w =
    bindE (ctrl_add_dev_op os dev UBLK_U_CMD_ADD_DEV w) (\<lambda>(ret, dev, w).
    if ret < 0 then ctrl_add_dev_op os dev UBLK_CMD_ADD_DEV w else Inr (ret, dev, w))"

section \<open>Commands without a payload\<close>

text \<open>The macro \<^verbatim>\<open>ublk_un_privileged_prep_data\<close>: the command data and the buffer.\<close>

definition un_privileged_prep_data ::
  "os \<Rightarrow> ctrl_dev \<Rightarrow> cmd_data \<Rightarrow> world \<Rightarrow> cmd_data \<times> byte list" where
  "un_privileged_prep_data os dev data w =
    (let buf = uninit os w UBLKC_PATH_MAX in
     if ublk_is_unprivileged dev
     then (path_data data (os_addr os w) UBLKC_PATH_MAX, put_dev_path dev buf)
     else (data, buf))"

definition plain_data :: "u32 \<Rightarrow> u16 \<Rightarrow> cmd_data" where
  "plain_data cmd_op flags =
    \<lparr>cm_op = cmd_op, cm_flags = flags, cm_data = 0, cm_dev_path_len = 0, cm_addr = 0, cm_len = 0\<rparr>"

definition ublksrv_ctrl_start_dev ::
  "os \<Rightarrow> ctrl_dev \<Rightarrow> int \<Rightarrow> world \<Rightarrow> (int \<times> ctrl_dev \<times> world) result" where
  "ublksrv_ctrl_start_dev os dev daemon_pid w =
    (let (data, buf) = un_privileged_prep_data os dev
           (plain_data UBLK_CMD_START_DEV CTRL_CMD_HAS_DATA) w;
         data = data\<lparr>cm_data := word_of_int daemon_pid\<rparr>;
         dev = dev\<lparr>cd_info := (cd_info dev)\<lparr>di_ublksrv_pid := ucast (cm_data data)\<rparr>\<rparr>
     in bindE (ublksrv_ctrl_cmd os dev data buf w) (\<lambda>(ret, _, w). Inr (ret, dev, w)))"

definition ublksrv_ctrl_del_dev :: "os \<Rightarrow> ctrl_dev \<Rightarrow> world \<Rightarrow> (int \<times> world) result" where
  "ublksrv_ctrl_del_dev os dev w =
    (let (data, buf) = un_privileged_prep_data os dev (plain_data UBLK_CMD_DEL_DEV 0) w
     in bindE (ublksrv_ctrl_cmd os dev data buf w) (\<lambda>(ret, _, w). Inr (ret, w)))"

definition ublksrv_ctrl_stop_dev :: "os \<Rightarrow> ctrl_dev \<Rightarrow> world \<Rightarrow> (int \<times> world) result" where
  "ublksrv_ctrl_stop_dev os dev w =
    (let (data, buf) = un_privileged_prep_data os dev (plain_data UBLK_CMD_STOP_DEV 0) w
     in bindE (ublksrv_ctrl_cmd os dev data buf w) (\<lambda>(ret, _, w). Inr (ret, w)))"

section \<open>Device information\<close>

definition ctrl_get_info_no_trans ::
  "os \<Rightarrow> ctrl_dev \<Rightarrow> u32 \<Rightarrow> world \<Rightarrow> (int \<times> ctrl_dev \<times> world) result" where
  "ctrl_get_info_no_trans os dev cmd_op w =
    (let buf = uninit os w (UBLKC_PATH_MAX + sizeof_dev_info);
         data = \<lparr>cm_op = cmd_op, cm_flags = CTRL_CMD_HAS_BUF OR CTRL_CMD_NO_TRANS, cm_data = 0,
                 cm_dev_path_len = 0, cm_addr = os_addr os w,
                 cm_len = word_of_nat sizeof_dev_info\<rparr>
     in if ublk_is_unprivileged dev \<and> IOC_NR cmd_op = UBLK_CMD_GET_DEV_INFO
        then Inr (- EINVAL, dev, w)
        else if IOC_NR cmd_op = UBLK_CMD_GET_DEV_INFO2 then
          bindE (ublksrv_ctrl_cmd os dev
                  (path_data data (os_addr os w) (UBLKC_PATH_MAX + sizeof_dev_info))
                  (put_dev_path dev buf) w) (\<lambda>(ret, buf, w).
          Inr (ret, if 0 \<le> ret then dev\<lparr>cd_info := dev_info_of (drop UBLKC_PATH_MAX buf)\<rparr> else dev, w))
        else
          bindE (ublksrv_ctrl_cmd os dev data (dev_info_bytes (cd_info dev)) w) (\<lambda>(ret, out, w).
          Inr (ret, dev\<lparr>cd_info := dev_info_of out\<rparr>, w)))"

definition ctrl_get_info_op ::
  "os \<Rightarrow> ctrl_dev \<Rightarrow> u32 \<Rightarrow> world \<Rightarrow> (int \<times> ctrl_dev \<times> world) result" where
  "ctrl_get_info_op os dev cmd_op w =
    bindE (legacy_op_to_ioctl cmd_op) (\<lambda>new_code.
    bindE (ctrl_get_info_no_trans os dev new_code w) (\<lambda>(ret, dev, w).
    if ret < 0 then ctrl_get_info_no_trans os dev cmd_op w else Inr (ret, dev, w)))"

definition ublksrv_ctrl_get_info ::
  "os \<Rightarrow> ctrl_dev \<Rightarrow> world \<Rightarrow> (int \<times> ctrl_dev \<times> world) result" where
  "ublksrv_ctrl_get_info os dev w =
    (let cmd_op = UBLK_CMD_GET_DEV_INFO2 in
     bindE (ctrl_get_info_op os dev cmd_op w) (\<lambda>(ret, dev, w).
     if cmd_op = UBLK_CMD_GET_DEV_INFO then Inr (ret, dev, w)
     else if ret < 0 then
       (if ublk_is_unprivileged dev then Inr (ret, dev, w)
        else ctrl_get_info_op os dev UBLK_CMD_GET_DEV_INFO w)
     else Inr (ret, dev, w)))"

section \<open>CPU affinity of the queues\<close>

text \<open>Bytes per queue in the buffer that \<^verbatim>\<open>ublksrv_ctrl_get_affinity\<close> fills.\<close>

definition affinity_path_len :: "ctrl_dev \<Rightarrow> nat" where
  "affinity_path_len dev = (if ublk_is_unprivileged dev then UBLKC_PATH_MAX else 0)"

definition affinity_stride :: "ctrl_dev \<Rightarrow> nat" where
  "affinity_stride dev = sizeof_cpu_set + affinity_path_len dev"

text \<open>
  The loop from queue \<open>i\<close> on, \<open>n\<close> queues, on the buffer at address \<open>base\<close>; the command uses the
  buffer's part of its queue.
\<close>

fun affinity_loop ::
  "os \<Rightarrow> ctrl_dev \<Rightarrow> u64 \<Rightarrow> nat \<Rightarrow> nat \<Rightarrow> byte list \<Rightarrow> world \<Rightarrow> (int \<times> byte list \<times> world) result" where
  "affinity_loop os dev base i 0 buf w = Inr (0, buf, w)"
| "affinity_loop os dev base i (Suc n) buf w =
    (let len = affinity_stride dev;
         data = \<lparr>cm_op = UBLK_CMD_GET_QUEUE_AFFINITY,
                 cm_flags = CTRL_CMD_HAS_DATA OR CTRL_CMD_HAS_BUF, cm_data = word_of_nat i,
                 cm_dev_path_len = word_of_nat (affinity_path_len dev),
                 cm_addr = base + word_of_nat (i * len), cm_len = word_of_nat len\<rparr>;
         part = take len (drop (i * len) buf);
         part = (if affinity_path_len dev \<noteq> 0 then put_dev_path dev part else part)
     in bindE (ublksrv_ctrl_cmd os dev data part w) (\<lambda>(ret, part, w).
        if ret < 0 then Inr (ret, buf, w @ [E_free])
        else affinity_loop os dev base (Suc i) n (store_at (i * len) part buf) w))"

definition ublksrv_ctrl_get_affinity ::
  "os \<Rightarrow> ctrl_dev \<Rightarrow> world \<Rightarrow> (int \<times> ctrl_dev \<times> world) result" where
  "ublksrv_ctrl_get_affinity os dev w =
    (let n = unat (di_nr_hw_queues (cd_info dev)); len = affinity_stride dev * n;
         ok = os_alloc os w len; w = w @ [E_alloc len ok]
     in if \<not> ok then Inr (- ENOMEM, dev, w)
        else bindE (affinity_loop os dev (os_addr os w) 0 n (uninit os w len) w) (\<lambda>(ret, buf, w).
          if ret < 0 then Inr (ret, dev, w)
          else Inr (0, dev\<lparr>cd_cpuset := Some buf\<rparr>, w)))"

text \<open>
  \<^verbatim>\<open>ublksrv_get_queue_affinity\<close>: the CPU set at \<^verbatim>\<open>queues_cpuset[qid]\<close>, past the path of an
  unprivileged device.
\<close>

definition ublksrv_get_queue_affinity :: "ctrl_dev \<Rightarrow> nat \<Rightarrow> byte list result" where
  "ublksrv_get_queue_affinity dev qid =
    (case cd_cpuset dev of
       None \<Rightarrow> Inl Bad_access
     | Some buf \<Rightarrow>
         let off = qid * sizeof_cpu_set + (if ublk_is_unprivileged dev then UBLKC_PATH_MAX else 0) in
         if off + sizeof_cpu_set \<le> length buf then Inr (take sizeof_cpu_set (drop off buf))
         else Inl Bad_access)"

section \<open>Deleting a device by its number\<close>

definition UBLKSRV_PID_DIR :: string where "UBLKSRV_PID_DIR = ''/tmp/ublksrvd''"

text \<open>\<^verbatim>\<open>cmd_dev_del\<close>: a failed query is reported as success.\<close>

definition cmd_dev_del :: "os \<Rightarrow> int \<Rightarrow> world \<Rightarrow> (int \<times> world) result" where
  "cmd_dev_del os number w =
    (let data = \<lparr>dd_dev_id = number, dd_max_io_buf_bytes = 0, dd_nr_hw_queues = 0,
                 dd_queue_depth = 0, dd_tgt_type = 0, dd_tgt_ops = 0, dd_tgt_argc = 0,
                 dd_tgt_argv = 0, dd_run_dir = Some UBLKSRV_PID_DIR, dd_flags = 0,
                 dd_ublksrv_flags = 0\<rparr>
     in bindE (ublksrv_ctrl_init os data w) (\<lambda>(dev, w).
        case dev of
          None \<Rightarrow> Inr (- EOPNOTSUPP, w)
        | Some dev \<Rightarrow>
            bindE (ublksrv_ctrl_get_info os dev w) (\<lambda>(ret, dev, w).
            if ret < 0 then Inr (0, ublksrv_ctrl_deinit dev w)
            else bindE (ublksrv_ctrl_stop_dev os dev w) (\<lambda>(ret, w).
              if ret < 0 then Inr (ret, ublksrv_ctrl_deinit dev w)
              else bindE (ublksrv_ctrl_del_dev os dev w) (\<lambda>(ret, w).
                Inr (ret, ublksrv_ctrl_deinit dev w))))))"

end
