(* ===== verification/Queue_Init.thy ===== *)
theory Queue_Init
  imports Engine Ctrl_Ops
begin

text \<open>
  Setting a queue up: ring and buffer sizes, the mapping of the command buffer, the slots, the
  workers and CPU affinity, and \<^verbatim>\<open>ublksrv_queue_init\<close> itself, which ends by issuing one fetch
  command per slot. The answers of the allocator, the kernel and \<^verbatim>\<open>liburing\<close> are fields of
  \<open>init_env\<close>.
\<close>

section \<open>Sizes\<close>

definition UBLKSRV_CMD_BUF_OFFSET :: nat where "UBLKSRV_CMD_BUF_OFFSET = 0"
definition UBLK_MAX_QUEUE_DEPTH :: nat where "UBLK_MAX_QUEUE_DEPTH = 4096"
definition MAX_NR_HW_QUEUES :: nat where "MAX_NR_HW_QUEUES = 32"

text \<open>
  \<^verbatim>\<open>ublksrv_calculate_depths\<close>: ring depth, completion depth and number of slots. The sums with the
  unsigned target fields are 32-bit unsigned and then stored in an \<^verbatim>\<open>int\<close>.
\<close>

definition ublksrv_calculate_depths :: "ctrl_dev \<Rightarrow> ublksrv_dev \<Rightarrow> int \<times> int \<times> int" where
  "ublksrv_calculate_depths cdev dev =
    (let aio_depth = (if has_flag (di_ublksrv_flags (cd_info cdev)) UBLKSRV_F_NEED_EVENTFD
                      then 1 else 0) :: u32;
         depth = uint (di_queue_depth (cd_info cdev));
         tgt_depth = sint (tg_ring_depth (ud_tgt dev) + aio_depth);
         nr_ios = sint (word_of_int depth + tg_extra_ios (ud_tgt dev));
         depth = (if depth > tgt_depth then depth else tgt_depth)
     in (depth, if ud_cq_depth dev \<noteq> 0 then ud_cq_depth dev else depth, nr_ios))"

text \<open>The size in bytes of the mapped command buffer, and the room reserved per queue.\<close>

definition ublksrv_queue_cmd_buf_sz :: "u32 \<Rightarrow> nat \<Rightarrow> int" where
  "ublksrv_queue_cmd_buf_sz page_sz depth =
    (let size = word_of_nat depth * sizeof_io_desc in sint (round_up size page_sz))"

text \<open>The complement of the page mask is taken in 32 bits and then widened.\<close>

definition queue_max_cmd_buf_sz :: "u32 \<Rightarrow> int" where
  "queue_max_cmd_buf_sz page_sz =
    (let size = word_of_nat (UBLK_MAX_QUEUE_DEPTH * 24) :: u64;
         sz = (size + ucast (page_sz - 1)) AND ucast (NOT (page_sz - 1))
     in sint (ucast sz :: s32))"

definition cmd_buf_offset :: "u32 \<Rightarrow> nat \<Rightarrow> int" where
  "cmd_buf_offset page_sz qid = int UBLKSRV_CMD_BUF_OFFSET + int qid * queue_max_cmd_buf_sz page_sz"

text \<open>The descriptor of a tag, as an offset into the command buffer.\<close>

definition ublksrv_get_iod :: "nat \<Rightarrow> nat" where
  "ublksrv_get_iod tag = tag * unat sizeof_io_desc"

text \<open>The requested size of the private data of a slot, computed in \<^verbatim>\<open>size_t\<close> and stored in an \<^verbatim>\<open>int\<close>.\<close>

definition io_private_size :: "tgt_info \<Rightarrow> int" where
  "io_private_size tgt = sint (ucast (round_up (ucast (tg_io_data_size tgt) :: u64) 8) :: s32)"

section \<open>The environment of the initialisation\<close>

text \<open>
  \<open>ie_mem\<close> is the block \<^verbatim>\<open>malloc\<close> returns for the queue with whatever it contains; \<open>ie_map\<close> the
  mapping of the command buffer at an offset and size (None for \<^verbatim>\<open>MAP_FAILED\<close>); \<open>ie_memalign\<close> and
  \<open>ie_malloc\<close> answer per slot; \<open>ie_result\<close> is the old content of the result fields; \<open>ie_iowq\<close>
  is what a call of \<^verbatim>\<open>io_uring_register_iowq_max_workers\<close> leaves in its array.
\<close>

record init_env =
  ie_page_sz :: u32
  ie_mem :: "queue option"
  ie_map :: "int \<Rightarrow> int \<Rightarrow> byte list option"
  ie_memalign :: "nat \<Rightarrow> u64 option"
  ie_malloc :: "nat \<Rightarrow> int \<Rightarrow> byte list option"
  ie_result :: "nat \<Rightarrow> u32"
  ie_ring_ret :: "ring_params \<Rightarrow> int \<Rightarrow> int"
  ie_files_ret :: int
  ie_iowq :: "nat \<Rightarrow> u32 \<times> u32 \<Rightarrow> u32 \<times> u32"
  ie_slots :: "nat \<Rightarrow> io_cmd sqe option"

section \<open>Workers and affinity\<close>

definition adjust_uring_io_wq_workers :: "init_env \<Rightarrow> tgt_info \<Rightarrow> tgt_info" where
  "adjust_uring_io_wq_workers e tgt =
    (let (w0, w1) = tg_iowq_max_workers tgt in
     if w0 = 0 \<and> w1 = 0 then tgt
     else
       let (v0, v1) = ie_iowq e 0 (0, 0);
           w0 = (if w0 = 0 then v0 else w0); w1 = (if w1 = 0 then v1 else w1)
       in tgt\<lparr>tg_iowq_max_workers := ie_iowq e 1 (w0, w1)\<rparr>)"

text \<open>The CPU set that \<^verbatim>\<open>ublksrv_set_sched_affinity\<close> applies; its outcome is only reported.\<close>

definition ublksrv_set_sched_affinity :: "ctrl_dev \<Rightarrow> nat \<Rightarrow> byte list result" where
  "ublksrv_set_sched_affinity cdev qid = ublksrv_get_queue_affinity cdev qid"

section \<open>The slots\<close>

text \<open>One round of the loop; None when the buffer cannot be allocated.\<close>

definition init_io :: "init_env \<Rightarrow> tgt_info \<Rightarrow> nat \<Rightarrow> nat \<Rightarrow> ublk_io option" where
  "init_io e tgt depth i =
    (case (if i < depth then ie_memalign e i else Some 0) of
       None \<Rightarrow> None
     | Some addr \<Rightarrow>
         if i < depth \<and> addr = 0 then None
         else Some
           \<lparr>io_buf_addr = addr, io_flags = UBLKSRV_NEED_FETCH_RQ OR UBLKSRV_IO_FREE,
            io_result = ie_result e i, io_tag = int i,
            io_iod = (if i < depth then Some (ublksrv_get_iod i) else None),
            io_private = (case ie_malloc e i (io_private_size tgt) of None \<Rightarrow> [] | Some bs \<Rightarrow> bs)\<rparr>)"

fun init_ios :: "init_env \<Rightarrow> tgt_info \<Rightarrow> nat \<Rightarrow> nat \<Rightarrow> nat \<Rightarrow> ublk_io list option" where
  "init_ios e tgt depth i 0 = Some []"
| "init_ios e tgt depth i (Suc n) =
    (case init_io e tgt depth i of
       None \<Rightarrow> None
     | Some io \<Rightarrow>
         (case init_ios e tgt depth (Suc i) n of None \<Rightarrow> None | Some ios \<Rightarrow> Some (io # ios)))"

section \<open>The queue\<close>

definition queue_init_state :: "u64 \<Rightarrow> u32" where
  "queue_init_state flags =
    (let state = (if has_flag flags UBLK_F_CMD_IOCTL_ENCODE then UBLKSRV_QUEUE_IOCTL_OP else 0)
     in if has_flag flags UBLK_F_USER_COPY then state OR UBLKSRV_USER_COPY else state)"

text \<open>
  \<^verbatim>\<open>ublksrv_queue_init\<close>: None is the null pointer. The fetch commands are issued before the counter,
  the mutexes and the condition variable are initialised, so they work on what the block held;
  \<^verbatim>\<open>efd\<close> is never set. The table of queues has room for 32 of them.
\<close>

definition ublksrv_queue_init ::
  "init_env \<Rightarrow> ctrl_dev \<Rightarrow> ublksrv_dev \<Rightarrow> nat \<Rightarrow> (queue option \<times> ublksrv_dev) result" where
  "ublksrv_queue_init e cdev dev qid =
    (let depth = unat (di_queue_depth (cd_info cdev));
         (ring_depth, cq_depth, nr_ios) = ublksrv_calculate_depths cdev dev
     in if nr_ios > int depth * 3 then Inr (None, dev)
     else if MAX_NR_HW_QUEUES \<le> qid then Inl Bad_access
     else case ie_mem e of
       None \<Rightarrow> Inl Bad_access
     | Some q \<Rightarrow>
         (case ie_map e (cmd_buf_offset (ie_page_sz e) qid)
                        (ublksrv_queue_cmd_buf_sz (ie_page_sz e) depth) of
            None \<Rightarrow> Inr (None, dev)
          | Some cmd_buf \<Rightarrow>
            (case init_ios e (ud_tgt dev) depth 0 (nat nr_ios) of
               None \<Rightarrow> Inr (None, dev)
             | Some ios \<Rightarrow>
                 let p = ublksrv_setup_ring_params cq_depth
                           (IORING_SETUP_SQE128 OR IORING_SETUP_COOP_TASKRUN) in
                 if ie_ring_ret e p ring_depth < 0 then Inr (None, dev)
                 else if ie_files_ret e \<noteq> 0 then Inr (None, dev)
                 else
                   let dev = dev\<lparr>ud_tgt := adjust_uring_io_wq_workers e (ud_tgt dev)\<rparr>;
                       q = q\<lparr>q_id := int qid, q_depth := depth, q_io_cmd_buf := cmd_buf,
                             q_signals := 0, q_state := queue_init_state (di_flags (cd_info cdev)),
                             q_efd_writes := [], q_sq := [], q_ios := ios\<rparr>
                   in bindE (if cd_cpuset cdev = None then Inr []
                             else ublksrv_set_sched_affinity cdev qid) (\<lambda>_.
                      bindE (ublksrv_submit_fetch_commands (ie_slots e) q) (\<lambda>q.
                      Inr (Some (q\<lparr>q_inflight := 0, q_cond_mutex := Unlocked, q_signals := 0,
                                   q_lock := Unlocked\<rparr>), dev))))))"

end
