(* ===== verification/Queue_Init_Laws.thy ===== *)
theory Queue_Init_Laws
  imports Queue_Init
begin

text \<open>
  What the initialisation establishes: the fetch loop issues the command of every slot in order,
  the sizes and offsets are right, and a queue that is set up is ready for the concurrent system.
\<close>

section \<open>The fetch loop\<close>

text \<open>What a fetch of slots \<open>i\<close> to \<open>i + n - 1\<close> does to a queue whose slots are fresh there.\<close>

definition fetched :: "queue \<Rightarrow> nat \<Rightarrow> nat \<Rightarrow> queue \<Rightarrow> bool" where
  "fetched q i n q' \<longleftrightarrow>
    q_lock q' = Unlocked \<and> q_cond_mutex q' = Unlocked \<and> q_depth q' = q_depth q \<and> q_id q' = q_id q \<and>
    q_state q' = q_state q \<and> q_efd q' = q_efd q \<and> q_efd_writes q' = q_efd_writes q \<and>
    q_io_cmd_buf q' = q_io_cmd_buf q \<and> length (q_ios q') = length (q_ios q) \<and>
    (\<forall>t. q_ios q' ! t =
      (if i \<le> t \<and> t < i + n then (q_ios q ! t)\<lparr>io_flags := 0\<rparr> else q_ios q ! t)) \<and>
    map sqe_tag (q_sq q') = map sqe_tag (q_sq q) @ [i..<i + n] \<and>
    ((\<forall>e \<in> set (q_sq q). \<not> is_target_io (sqe_user_data e)) \<longrightarrow>
      (\<forall>e \<in> set (q_sq q'). \<not> is_target_io (sqe_user_data e))) \<and>
    map (\<lambda>e. IOC_NR (sqe_off0 e)) (q_sq q') =
      map (\<lambda>e. IOC_NR (sqe_off0 e)) (q_sq q) @ replicate n UBLK_IO_FETCH_REQ"

lemma fetched_0: "q_lock q = Unlocked \<Longrightarrow> q_cond_mutex q = Unlocked \<Longrightarrow> fetched q i 0 q"
  by (auto simp: fetched_def)

lemma unat_word_of_tag: "t < 2 ^ 16 \<Longrightarrow> unat (word_of_nat t :: u32) = t"
  by (simp add: unsigned_of_nat take_bit_nat_eq_self)

lemma issued_fetched:
  assumes "q_lock q = Unlocked" "q_cond_mutex q = Unlocked" "i < length (q_ios q)" "i < 2 ^ 16"
    and "io_flags (q_ios q ! i) = fresh_flags"
  shows "fetched q i 1 (issued q i (word_of_nat i) old)"
proof -
  let ?e = "io_sqe q (q_ios q ! i) (word_of_nat i) old"
  have u: "unat (word_of_nat i :: u32) < 2 ^ 16" "unat (word_of_nat i :: u32) = i"
    using assms(4) by (simp_all add: unat_word_of_tag)
  have "sqe_tag ?e = i" "\<not> is_target_io (sqe_user_data ?e)"
    using io_sqe_cookie [OF u(1)] u(2) by (simp_all add: sqe_tag_def)
  moreover have "IOC_NR (sqe_off0 ?e) = UBLK_IO_FETCH_REQ"
    using IOC_NR_encoded [of "q_state q" fresh_flags]
    by (simp add: io_sqe_def Let_def assms(5) io_cmd_op_fresh)
  ultimately show ?thesis
    using assms(1-3) by (auto simp: fetched_def issued_def nth_list_update_if)
qed

lemma upt_split: "[i..<i + (m + n)] = [i..<i + m] @ [i + m..<i + m + n]"
  using upt_add_eq_append [of i "i + m" n] by (simp add: add.assoc)

lemma fetched_trans:
  assumes "fetched q i m q'" "fetched q' (i + m) n q''"
  shows "fetched q i (m + n) q''"
proof -
  have "map sqe_tag (q_sq q'') = map sqe_tag (q_sq q) @ [i..<i + (m + n)]"
    using assms by (simp add: fetched_def upt_split)
  moreover have "q_ios q'' ! t = (if i \<le> t \<and> t < i + (m + n) then (q_ios q ! t)\<lparr>io_flags := 0\<rparr>
      else q_ios q ! t)" for t
    using assms by (auto simp: fetched_def)
  ultimately show ?thesis
    using assms by (simp add: fetched_def replicate_add)
qed

lemma submit_fetch_from_fetched:
  assumes "q_lock q = Unlocked" "q_cond_mutex q = Unlocked" "i + n \<le> length (q_ios q)"
    and "i + n \<le> 2 ^ 16" "\<forall>t. i \<le> t \<and> t < i + n \<longrightarrow> io_flags (q_ios q ! t) = fresh_flags"
    and "\<forall>t. i \<le> t \<and> t < i + n \<longrightarrow> slots t \<noteq> None"
  shows "\<exists>q'. submit_fetch_from slots q i n = Inr q' \<and> fetched q i n q'"
  using assms
proof (induction n arbitrary: q i)
  case 0
  then show ?case by (simp add: fetched_0)
next
  case (Suc n)
  from Suc.prems(6) obtain old where old: "slots i = Some old" by force
  have fresh: "io_flags (q_ios q ! i) = fresh_flags" and i: "i < length (q_ios q)" "i < 2 ^ 16"
    using Suc.prems(3-5) by auto
  let ?q = "issued q i (word_of_nat i) old"
  have step: "ublksrv_queue_io_cmd (Some old) q i (word_of_nat i) = Inr (1, ?q)"
    using Suc.prems(1,2) i fresh issuable_fresh
    by (intro queue_io_cmd_issued) (simp_all add: unat_word_of_tag)
  have f1: "fetched q i 1 ?q" using issued_fetched [OF Suc.prems(1,2) i fresh] .
  then have "\<exists>q'. submit_fetch_from slots ?q (Suc i) n = Inr q' \<and> fetched ?q (Suc i) n q'"
    using Suc.prems by (intro Suc.IH) (auto simp: fetched_def)
  then obtain q' where q': "submit_fetch_from slots ?q (Suc i) n = Inr q'" "fetched ?q (i + 1) n q'"
    by auto
  have "fetched q i (Suc n) q'" using fetched_trans [OF f1 q'(2)] by simp
  with q' step old show ?case by simp
qed

text \<open>A lock that is already taken stops the loop at its first slot.\<close>

lemma submit_fetch_blocked:
  "q_lock q = Locked \<Longrightarrow> 0 < q_depth q \<Longrightarrow> ublksrv_submit_fetch_commands slots q = Inl Deadlock"
  by (cases "q_depth q") (simp_all add: ublksrv_submit_fetch_commands_def queue_io_cmd_blocked)

section \<open>The slots\<close>

lemma init_ios_nth:
  "init_ios e tgt depth i n = Some ios \<Longrightarrow>
   length ios = n \<and> (\<forall>k < n. init_io e tgt depth (i + k) = Some (ios ! k))"
proof (induction n arbitrary: i ios)
  case 0
  then show ?case by simp
next
  case (Suc n)
  then obtain io ios' where io: "init_io e tgt depth i = Some io"
    and ios': "init_ios e tgt depth (Suc i) n = Some ios'" "ios = io # ios'"
    by (auto split: option.splits)
  from Suc.IH [OF ios'(1)] io ios'(2) show ?case by (auto simp: nth_Cons split: nat.splits)
qed

text \<open>A slot of the driver's range that was set up.\<close>

lemma init_io_Some:
  assumes "init_io e tgt depth i = Some io" "i < depth"
  shows "io_flags io = fresh_flags" "io_tag io = int i" "io_iod io = Some (24 * i)"
    "io_buf_addr io \<noteq> 0" "ie_memalign e i = Some (io_buf_addr io)"
    "ie_malloc e i (io_private_size tgt) = Some bs \<Longrightarrow> io_private io = bs"
  using assms
  by (auto simp: init_io_def fresh_flags_def ublksrv_get_iod_def sizeof_io_desc_def
      split: option.splits if_splits)

section \<open>Sizes\<close>

text \<open>Page sizes are powers of two, 4 KiB to 64 KiB on the machines the library runs on.\<close>

lemma sint_eq_unat: "unat (x :: s32) < 2 ^ 31 \<Longrightarrow> sint x = int (unat x)"
proof -
  assume "unat x < 2 ^ 31"
  then have "int (unat x) < int (2 ^ 31)" by (simp only: of_nat_less_iff)
  then have less: "int (unat x) < 2 ^ 31" by simp
  have pos: "- (2 ^ 31) \<le> int (unat x)" by (rule order_trans [of _ 0]) simp_all
  have "sint x = signed_take_bit 31 (uint x)" by (simp add: sint_uint)
  also have "uint x = int (unat x)" by (rule uint_nat)
  also have "signed_take_bit 31 (int (unat x)) = int (unat x)"
    by (rule signed_take_bit_int_eq_self [OF pos less])
  finally show ?thesis .
qed

lemma page_cases: "12 \<le> p \<Longrightarrow> p \<le> 16 \<Longrightarrow> p = 12 \<or> p = 13 \<or> p = 14 \<or> p = 15 \<or> p = 16" for p :: nat
  by linarith

lemma max_size_word: "word_of_nat (UBLK_MAX_QUEUE_DEPTH * 24) = (98304 :: u64)"
  by (simp add: UBLK_MAX_QUEUE_DEPTH_def)

lemma queue_max_table:
  "queue_max_cmd_buf_sz 0x1000 = 98304" "queue_max_cmd_buf_sz 0x2000 = 98304"
  "queue_max_cmd_buf_sz 0x4000 = 98304" "queue_max_cmd_buf_sz 0x8000 = 98304"
  "queue_max_cmd_buf_sz 0x10000 = 131072"
  unfolding queue_max_cmd_buf_sz_def max_size_word by code_simp+

lemma queue_max_cmd_buf_sz_eq:
  assumes "12 \<le> p" "p \<le> 16"
  shows "queue_max_cmd_buf_sz (2 ^ p) = int ((98304 + (2 ^ p - 1)) div 2 ^ p * 2 ^ p)"
  using page_cases [OF assms] by (elim disjE) (simp_all add: queue_max_table)

lemma cmd_buf_bytes: "d < 2 ^ 16 \<Longrightarrow> unat (word_of_nat d * sizeof_io_desc) = 24 * d"
proof -
  assume d: "d < 2 ^ 16"
  have "word_of_nat d * sizeof_io_desc = word_of_nat (24 * d)" by (simp add: sizeof_io_desc_def)
  moreover have "unat (word_of_nat (24 * d) :: u32) = 24 * d"
    using d by (intro of_nat_inverse) (simp_all)
  ultimately show ?thesis by (simp only:)
qed

lemma round_up_size_less:
  assumes "p \<le> 16" "d < 2 ^ 16"
  shows "(24 * d + (2 ^ p - 1)) div 2 ^ p * 2 ^ p < (2 ^ 31 :: nat)"
proof -
  have "(2::nat) ^ p \<le> 2 ^ 16" using assms(1) by (rule power_increasing) simp
  then have "24 * d + (2 ^ p - 1) < 2 ^ 31" using assms(2) by simp
  then show ?thesis by (rule le_less_trans [OF div_times_less_eq_dividend])
qed

lemma ublksrv_queue_cmd_buf_sz_eq:
  assumes "p \<le> 16" "d < 2 ^ 16"
  shows "ublksrv_queue_cmd_buf_sz (2 ^ p) d = int ((24 * d + (2 ^ p - 1)) div 2 ^ p * 2 ^ p)"
proof -
  have "(2::nat) ^ p \<le> 2 ^ 16" using assms(1) by (rule power_increasing) simp
  then have "24 * d + 2 ^ p \<le> 2 ^ 32" using assms(2) by simp
  then have fits: "unat (word_of_nat d * sizeof_io_desc) + 2 ^ p \<le> 2 ^ LENGTH(32)"
    by (simp only: cmd_buf_bytes [OF assms(2)]) simp
  have "p < LENGTH(32)" using assms(1) by simp
  note u = round_up_spec [OF this fits, unfolded cmd_buf_bytes [OF assms(2)]]
  show ?thesis
    unfolding ublksrv_queue_cmd_buf_sz_def Let_def
    by (subst sint_eq_unat) (simp_all only: u round_up_size_less [OF assms])
qed

lemma round_up_covers: "0 < k \<Longrightarrow> n \<le> (n + (k - 1)) div k * k" for k n :: nat
proof -
  assume k: "0 < k"
  then have m: "(n + (k - 1)) mod k < k" by (rule mod_less_divisor)
  have "n + (k - 1) = (n + (k - 1)) div k * k + (n + (k - 1)) mod k" by (rule div_mult_mod_eq [symmetric])
  with m show ?thesis by linarith
qed

section \<open>A queue that is set up\<close>

text \<open>
  The answers of a system on which everything succeeds: the block of the queue holds unlocked
  mutexes, the mapping has the size asked for, every buffer is allocated, a block for private data
  has room for the target's data, and the ring has an entry for every fetch.
\<close>

definition init_env_ok :: "init_env \<Rightarrow> ctrl_dev \<Rightarrow> ublksrv_dev \<Rightarrow> nat \<Rightarrow> bool" where
  "init_env_ok e cdev dev qid \<longleftrightarrow>
    (let depth = unat (di_queue_depth (cd_info cdev)); sz = ublksrv_queue_cmd_buf_sz (ie_page_sz e) depth
     in (\<exists>p. 12 \<le> p \<and> p \<le> 16 \<and> ie_page_sz e = 2 ^ p) \<and>
        (\<exists>q. ie_mem e = Some q \<and> q_lock q = Unlocked \<and> q_cond_mutex q = Unlocked) \<and>
        (\<exists>buf. ie_map e (cmd_buf_offset (ie_page_sz e) qid) sz = Some buf \<and> int (length buf) = sz) \<and>
        (\<forall>i. \<exists>a. ie_memalign e i = Some a \<and> a \<noteq> 0) \<and>
        (\<forall>i. \<exists>bs. ie_malloc e i (io_private_size (ud_tgt dev)) = Some bs \<and> 12 \<le> length bs) \<and>
        (\<forall>p d. 0 \<le> ie_ring_ret e p d) \<and> ie_files_ret e = 0 \<and> (\<forall>i < depth. ie_slots e i \<noteq> None))"

text \<open>The device leaves room for the queue and asks for no more extra slots than allowed.\<close>

definition queue_config_ok :: "ctrl_dev \<Rightarrow> ublksrv_dev \<Rightarrow> nat \<Rightarrow> bool" where
  "queue_config_ok cdev dev qid \<longleftrightarrow>
    qid < MAX_NR_HW_QUEUES \<and> qid < unat (di_nr_hw_queues (cd_info cdev)) \<and>
    unat (tg_extra_ios (ud_tgt dev)) \<le> 2 * unat (di_queue_depth (cd_info cdev)) \<and>
    (\<forall>buf. cd_cpuset cdev = Some buf \<longrightarrow>
      length buf = affinity_stride cdev * unat (di_nr_hw_queues (cd_info cdev)))"

lemma depth_bound: "unat (w :: u16) < 2 ^ 16"
  using unsigned_less [of w] by simp

lemma nr_ios_eq:
  assumes "unat (tg_extra_ios (ud_tgt dev)) \<le> 2 * unat (di_queue_depth (cd_info cdev))"
  shows "snd (snd (ublksrv_calculate_depths cdev dev)) =
    int (unat (di_queue_depth (cd_info cdev)) + unat (tg_extra_ios (ud_tgt dev)))"
proof -
  let ?d = "unat (di_queue_depth (cd_info cdev))" and ?x = "tg_extra_ios (ud_tgt dev)"
  have d: "?d < 65536" using depth_bound [of "di_queue_depth (cd_info cdev)"] by simp
  have w: "word_of_int (uint (di_queue_depth (cd_info cdev))) + ?x = (word_of_nat (?d + unat ?x) :: u32)"
    by (simp only: uint_nat of_int_of_nat_eq of_nat_add) simp
  have u: "unat (word_of_nat (?d + unat ?x) :: u32) = ?d + unat ?x"
    using assms d by (intro of_nat_inverse) simp_all
  have "sint (word_of_nat (?d + unat ?x) :: u32) = int (?d + unat ?x)"
    using assms d by (subst sint_eq_unat) (simp_all only: u, simp)
  then show ?thesis
    by (simp only: ublksrv_calculate_depths_def Let_def snd_conv w)
qed

lemma init_ios_succeeds:
  assumes "\<forall>i. \<exists>a. ie_memalign e i = Some a \<and> a \<noteq> 0"
  shows "\<exists>ios. init_ios e tgt depth i n = Some ios"
proof (induction n arbitrary: i)
  case (Suc n)
  obtain a where "ie_memalign e i = Some a" "a \<noteq> 0" using assms by blast
  then have "\<exists>io. init_io e tgt depth i = Some io" by (simp add: init_io_def)
  with Suc [of "Suc i"] show ?case by auto
qed simp

lemma affinity_in_bounds:
  assumes "queue_config_ok cdev dev qid" "cd_cpuset cdev = Some buf"
  shows "\<exists>s. ublksrv_set_sched_affinity cdev qid = Inr s"
proof -
  let ?n = "unat (di_nr_hw_queues (cd_info cdev))"
  have "Suc qid * affinity_stride cdev \<le> length buf"
    using mult_le_mono1 [of "Suc qid" ?n "affinity_stride cdev"] assms
    by (simp add: queue_config_ok_def mult.commute)
  then show ?thesis
    using assms(2)
    by (auto simp: ublksrv_set_sched_affinity_def ublksrv_get_queue_affinity_def Let_def
        affinity_stride_def affinity_path_len_def sizeof_cpu_set_def UBLKC_PATH_MAX_def split: if_splits)
qed

text \<open>The queue as the fetch loop finds it.\<close>

definition laid_out :: "ctrl_dev \<Rightarrow> nat \<Rightarrow> byte list \<Rightarrow> ublk_io list \<Rightarrow> queue \<Rightarrow> queue" where
  "laid_out cdev qid buf ios q =
    q\<lparr>q_id := int qid, q_depth := unat (di_queue_depth (cd_info cdev)), q_io_cmd_buf := buf,
      q_signals := 0, q_state := queue_init_state (di_flags (cd_info cdev)),
      q_efd_writes := [], q_sq := [], q_ios := ios\<rparr>"

lemma laid_out_fetched:
  assumes ok: "init_env_ok e cdev dev qid"
    and ios: "init_ios e (ud_tgt dev) (unat (di_queue_depth (cd_info cdev))) 0 n = Some ios"
    and n: "unat (di_queue_depth (cd_info cdev)) \<le> n"
    and q: "q_lock q = Unlocked" "q_cond_mutex q = Unlocked"
  shows "\<exists>q'. ublksrv_submit_fetch_commands (ie_slots e) (laid_out cdev qid buf ios q) = Inr q' \<and>
    fetched (laid_out cdev qid buf ios q) 0 (unat (di_queue_depth (cd_info cdev))) q'"
proof -
  note nth = init_ios_nth [OF ios]
  have "io_flags (ios ! t) = fresh_flags" if "t < unat (di_queue_depth (cd_info cdev))" for t
  proof -
    have "init_io e (ud_tgt dev) (unat (di_queue_depth (cd_info cdev))) t = Some (ios ! t)"
      using nth n that by auto
    then show ?thesis using that by (rule init_io_Some(1))
  qed
  then show ?thesis
    using submit_fetch_from_fetched [of "laid_out cdev qid buf ios q" 0
        "unat (di_queue_depth (cd_info cdev))" "ie_slots e"]
      ok q n nth depth_bound [of "di_queue_depth (cd_info cdev)"]
    by (auto simp: ublksrv_submit_fetch_commands_def laid_out_def init_env_ok_def Let_def)
qed

text \<open>After the fetch loop and the late initialisations the queue is ready.\<close>

lemma laid_out_ready:
  assumes ok: "init_env_ok e cdev dev qid"
    and ios: "init_ios e (ud_tgt dev) (unat (di_queue_depth (cd_info cdev))) 0 n = Some ios"
    and n: "unat (di_queue_depth (cd_info cdev)) \<le> n"
    and buf: "int (length buf) = ublksrv_queue_cmd_buf_sz (ie_page_sz e) (unat (di_queue_depth (cd_info cdev)))"
    and f: "fetched (laid_out cdev qid buf ios q) 0 (unat (di_queue_depth (cd_info cdev))) q'"
  shows "ready_queue (q'\<lparr>q_inflight := 0, q_cond_mutex := Unlocked, q_signals := 0, q_lock := Unlocked\<rparr>)"
proof -
  let ?d = "unat (di_queue_depth (cd_info cdev))"
  note nth = init_ios_nth [OF ios]
  have d: "?d < 2 ^ 16" by (rule depth_bound)
  have slot: "io_tag (ios ! t) = int t \<and> io_iod (ios ! t) = Some (24 * t) \<and>
      12 \<le> length (io_private (ios ! t))" if "t < ?d" for t
  proof -
    have io: "init_io e (ud_tgt dev) ?d t = Some (ios ! t)" using nth n that by auto
    obtain bs where "ie_malloc e t (io_private_size (ud_tgt dev)) = Some bs" "12 \<le> length bs"
      using ok unfolding init_env_ok_def Let_def by blast
    then show ?thesis using init_io_Some(2,3,6) [OF io that] by simp
  qed
  have cmd_buf: "24 * ?d \<le> length buf"
  proof -
    obtain p where p: "p \<le> 16" "ie_page_sz e = 2 ^ p"
      using ok unfolding init_env_ok_def Let_def by blast
    have "int (24 * ?d) \<le> int (length buf)"
      unfolding buf p(2) ublksrv_queue_cmd_buf_sz_eq [OF p(1) d]
      by (simp only: of_nat_le_iff) (rule round_up_covers, simp)
    then show ?thesis by (simp only: of_nat_le_iff)
  qed
  show ?thesis
    using f slot cmd_buf d n nth
    by (auto simp: ready_queue_def wf_queue_def wf_slot_def fetched_def laid_out_def
        longhorn_data_off_def)
qed

lemma queue_init_ready:
  assumes ok: "init_env_ok e cdev dev qid" and config: "queue_config_ok cdev dev qid"
  shows "\<exists>q dev'. ublksrv_queue_init e cdev dev qid = Inr (Some q, dev') \<and> ready_queue q \<and>
    q_depth q = unat (di_queue_depth (cd_info cdev)) \<and> q_id q = int qid \<and>
    map (\<lambda>e. IOC_NR (sqe_off0 e)) (q_sq q) = replicate (q_depth q) UBLK_IO_FETCH_REQ"
proof -
  let ?d = "unat (di_queue_depth (cd_info cdev))" and ?x = "unat (tg_extra_ios (ud_tgt dev))"
  obtain r c where depths: "ublksrv_calculate_depths cdev dev = (r, c, int (?d + ?x))"
    using nr_ios_eq [of dev cdev] config
    by (cases "ublksrv_calculate_depths cdev dev") (auto simp: queue_config_ok_def)
  obtain q0 where q0: "ie_mem e = Some q0" "q_lock q0 = Unlocked" "q_cond_mutex q0 = Unlocked"
    using ok unfolding init_env_ok_def Let_def by blast
  obtain buf where buf: "ie_map e (cmd_buf_offset (ie_page_sz e) qid)
      (ublksrv_queue_cmd_buf_sz (ie_page_sz e) ?d) = Some buf"
      "int (length buf) = ublksrv_queue_cmd_buf_sz (ie_page_sz e) ?d"
    using ok unfolding init_env_ok_def Let_def by blast
  obtain ios where ios: "init_ios e (ud_tgt dev) ?d 0 (?d + ?x) = Some ios"
    using init_ios_succeeds ok unfolding init_env_ok_def Let_def by blast
  obtain q' where q': "ublksrv_submit_fetch_commands (ie_slots e) (laid_out cdev qid buf ios q0) = Inr q'"
      "fetched (laid_out cdev qid buf ios q0) 0 ?d q'"
    using laid_out_fetched [OF ok ios _ q0(2,3)] by auto
  let ?q = "q'\<lparr>q_inflight := 0, q_cond_mutex := Unlocked, q_signals := 0, q_lock := Unlocked\<rparr>"
  obtain s where s: "(if cd_cpuset cdev = None then Inr [] else ublksrv_set_sched_affinity cdev qid) = Inr s"
    using affinity_in_bounds [OF config] by fastforce
  have "ublksrv_queue_init e cdev dev qid =
      Inr (Some ?q, dev\<lparr>ud_tgt := adjust_uring_io_wq_workers e (ud_tgt dev)\<rparr>)"
  proof -
    have "?d + ?x \<le> ?d * 3" using config by (simp add: queue_config_ok_def)
    then have c1: "\<not> int (?d + ?x) > int ?d * 3" by linarith
    have c: "\<not> MAX_NR_HW_QUEUES \<le> qid" "\<And>p d. \<not> ie_ring_ret e p d < 0"
      "ie_files_ret e = 0"
      using ok config by (auto simp: queue_config_ok_def init_env_ok_def Let_def not_less)
    show ?thesis
      using q' [unfolded laid_out_def]
      by (simp only: ublksrv_queue_init_def Let_def depths c1 c if_False if_True prod.case q0(1) buf(1)
          ios nat_int option.case s bindE_simps simp_thms)
  qed
  moreover have "ready_queue ?q" using laid_out_ready [OF ok ios _ buf(2) q'(2)] by simp
  ultimately show ?thesis using q'(2) by (auto simp: fetched_def laid_out_def)
qed

end
