(* ===== verification/Daemon.thy ===== *)
theory Daemon
  imports Queue_Init
begin

text \<open>
  The device object with its pid file (\<^verbatim>\<open>create_pid_file\<close>, \<^verbatim>\<open>ublksrv_dev_init\<close>), the thread of a
  queue (\<^verbatim>\<open>demo_null_io_handler_fn\<close>) and the start of the daemon (\<^verbatim>\<open>demo_null_io_handler\<close>,
  \<^verbatim>\<open>ublksrv_start_daemon\<close>).
\<close>

section \<open>The pid file\<close>

definition PID_PATH_LEN :: nat where "PID_PATH_LEN = 256"

text \<open>
  \<^verbatim>\<open>create_pid_file\<close>: the result, the descriptor behind the caller's pointer (\<open>pid_fd\<close> is what it
  held before) and the history.
\<close>

definition create_pid_file :: "os \<Rightarrow> string \<Rightarrow> int \<Rightarrow> world \<Rightarrow> int \<times> int \<times> world" where
  "create_pid_file os pid_file pid_fd w =
    (let fd = os_open os w pid_file; w = w @ [E_open pid_file fd] in
     if fd < 0 then (fd, pid_fd, w)
     else
       let ret = os_ftruncate os w fd; w = w @ [E_ftruncate fd ret] in
       if ret = -1 then (ret, pid_fd, w @ [E_close fd, E_unlink pid_file])
       else
         let buf = snprintf PID_PATH_LEN (int_dec (os_getpid os w) @ [CHR 0x0A]);
             n = os_write os w fd (cstring buf); w = w @ [E_write fd (cstring buf) n];
             (ret, pid_fd) = (if n \<noteq> int (length (cstring buf)) then (-1, pid_fd) else (ret, fd))
         in (ret, pid_fd, if ret \<noteq> 0 then w @ [E_close fd, E_unlink pid_file] else w))"

text \<open>\<^verbatim>\<open>"%s/%d.pid"\<close> in a buffer of 64 bytes.\<close>

definition pid_path :: "string \<Rightarrow> u32 \<Rightarrow> string" where
  "pid_path run_dir dev_id = take 63 (run_dir @ ''/'' @ int_dec (sint dev_id) @ ''.pid'')"

text \<open>The local \<^verbatim>\<open>pid_fd\<close> has no initial value.\<close>

definition ublksrv_create_pid_file ::
  "os \<Rightarrow> ctrl_dev \<Rightarrow> ublksrv_dev \<Rightarrow> world \<Rightarrow> int \<times> ublksrv_dev \<times> world" where
  "ublksrv_create_pid_file os cdev dev w =
    (case cd_run_dir cdev of
       None \<Rightarrow> (0, dev, w)
     | Some run_dir \<Rightarrow>
         let pid_file = pid_path run_dir (di_dev_id (cd_info cdev));
             (ret, pid_fd, w) =
               create_pid_file os pid_file (sint (le_word (uninit os w 4) :: s32)) w
         in if ret < 0 then
              (ret, dev, if ret = -1 then w @ [E_close pid_fd, E_unlink pid_file] else w)
            else (0, dev\<lparr>ud_pid_file_fd := pid_fd\<rparr>, w))"

section \<open>The device object\<close>

definition UBLKSRV_TGT_MAX_FDS :: nat where "UBLKSRV_TGT_MAX_FDS = 32"

definition zero_dev :: ublksrv_dev where
  "zero_dev =
    \<lparr>ud_tgt = \<lparr>tg_dev_size = 0, tg_ring_depth = 0, tg_nr_fds = 0,
       tg_fds = replicate UBLKSRV_TGT_MAX_FDS 0, tg_extra_ios = 0, tg_io_data_size = 0, tg_ops = 0,
       tg_iowq_max_workers = (0, 0)\<rparr>,
     ud_cdev_fd = 0, ud_pid_file_fd = 0, ud_cq_depth = 0\<rparr>"

text \<open>\<^verbatim>\<open>ublksrv_dev_init\<close>: None is the null pointer; the failure path releases nothing.\<close>

definition ublksrv_dev_init :: "os \<Rightarrow> ctrl_dev \<Rightarrow> world \<Rightarrow> ublksrv_dev option \<times> world" where
  "ublksrv_dev_init os cdev w =
    (let ok = os_alloc os w 1; w = w @ [E_alloc 1 ok] in
     if \<not> ok then (None, w)
     else
       let path = dev_path (di_dev_id (cd_info cdev)); fd = os_open os w path;
           w = w @ [E_open path fd]
       in if fd < 0 then (None, w)
          else
            let dev = zero_dev\<lparr>ud_cdev_fd := fd,
                        ud_tgt := (ud_tgt zero_dev)\<lparr>tg_fds := (tg_fds (ud_tgt zero_dev))[0 := fd]\<rparr>\<rparr>;
                (ret, dev, w) = ublksrv_create_pid_file os cdev dev w
            in if ret \<noteq> 0 then (None, w) else (Some dev, w))"

section \<open>The thread of a queue\<close>

text \<open>
  The loop of the thread, one environment per round: the handed over requests, the queue, and
  whether the loop has ended.
\<close>

fun io_loop :: "endian \<Rightarrow> poll_env list \<Rightarrow> queue \<Rightarrow> (handoff list \<times> queue \<times> bool) result" where
  "io_loop h [] q = Inr ([], q, False)"
| "io_loop h (e # es) q =
    bindE (ublksrv_process_io h e q) (\<lambda>(ret, hos, q).
    if ret < 0 then Inr (hos, q, True)
    else bindE (io_loop h es q) (\<lambda>(hos', q, ended). Inr (hos @ hos', q, ended)))"

text \<open>What the thread did: the requests it handed over and whether it notified the shutdown.\<close>

definition demo_null_io_handler_fn ::
  "endian \<Rightarrow> init_env \<Rightarrow> poll_env list \<Rightarrow> ctrl_dev \<Rightarrow> ublksrv_dev \<Rightarrow> nat \<Rightarrow>
   (handoff list \<times> queue option \<times> bool) result" where
  "demo_null_io_handler_fn h ie es cdev dev qid =
    bindE (ublksrv_queue_init ie cdev dev qid) (\<lambda>(q, dev).
    case q of
      None \<Rightarrow> Inr ([], None, False)
    | Some q \<Rightarrow> bindE (io_loop h es q) (\<lambda>(hos, q, ended). Inr (hos, Some q, ended)))"

section \<open>Starting the daemon\<close>

text \<open>
  One thread per queue, then the start command, then the threads are joined; after a failed start
  the threads are left running. \<open>sizeof_queue_info\<close> bytes describe one thread.
\<close>

definition sizeof_queue_info :: nat where "sizeof_queue_info = 24"

definition demo_null_io_handler :: "os \<Rightarrow> ctrl_dev \<Rightarrow> world \<Rightarrow> (int \<times> ctrl_dev \<times> world) result" where
  "demo_null_io_handler os cdev w =
    (let n = unat (di_nr_hw_queues (cd_info cdev)); ok = os_alloc os w (sizeof_queue_info * n);
         w = w @ [E_alloc (sizeof_queue_info * n) ok]
     in if \<not> ok then Inr (- ENOMEM, cdev, w)
     else
       case ublksrv_dev_init os cdev w of
         (None, w) \<Rightarrow> Inr (- ENOMEM, cdev, w @ [E_free])
       | (Some dev, w) \<Rightarrow>
           let w = w @ map E_thread [0..<n] in
           bindE (ublksrv_ctrl_start_dev os cdev (os_getpid os w) w) (\<lambda>(ret, cdev, w).
           if ret < 0 then Inr (ret, cdev, w @ [E_free])
           else Inr (ret, cdev, w @ map E_join [0..<n] @ [E_free])))"

definition ublksrv_start_daemon :: "os \<Rightarrow> ctrl_dev \<Rightarrow> world \<Rightarrow> (int \<times> ctrl_dev \<times> world) result" where
  "ublksrv_start_daemon os cdev w =
    bindE (ublksrv_ctrl_get_affinity os cdev w) (\<lambda>(ret, cdev, w).
    if ret < 0 then Inr (-1, cdev, w) else demo_null_io_handler os cdev w)"

end
