(* ===== verification/Init_Props.thy ===== *)
theory Init_Props
  imports Queue_Init_Laws Daemon Demo
begin

text \<open>
  The properties of setting a queue up: the state it starts the concurrent system in, the layout
  of the mapped command buffers, the ring depth, and the ways the initialisation goes wrong.
\<close>

section \<open>A concrete device\<close>

definition demo_cdev :: ctrl_dev where
  "demo_cdev = \<lparr>cd_ring_fd = 3, cd_ctrl_fd = 4, cd_bs_shift = 0,
    cd_info = zero_info\<lparr>di_nr_hw_queues := 1, di_queue_depth := 2\<rparr>, cd_tgt_type = 0, cd_tgt_ops = 0,
    cd_run_dir = None, cd_tgt_argc = 0, cd_tgt_argv = 0, cd_cpuset = None\<rparr>"

definition demo_init_env :: init_env where
  "demo_init_env = \<lparr>ie_page_sz = 0x1000, ie_mem = Some demo_queue,
    ie_map = (\<lambda>off sz. Some (replicate (nat sz) 0)), ie_memalign = (\<lambda>i. Some 0x1000),
    ie_malloc = (\<lambda>i n. Some (replicate 24 0)), ie_result = (\<lambda>i. 0), ie_ring_ret = (\<lambda>p d. 0),
    ie_files_ret = 0, ie_iowq = (\<lambda>i x. x), ie_slots = (\<lambda>i. Some demo_sqe)\<rparr>"

lemma demo_cdev_simps [simp]:
  "di_queue_depth (cd_info demo_cdev) = 2" "di_nr_hw_queues (cd_info demo_cdev) = 1"
  "cd_cpuset demo_cdev = None"
  by (simp_all add: demo_cdev_def)

lemma demo_config: "queue_config_ok demo_cdev zero_dev 0"
  by (simp add: queue_config_ok_def MAX_NR_HW_QUEUES_def zero_dev_def)

lemma demo_init_env_ok: "init_env_ok demo_init_env demo_cdev zero_dev 0"
proof -
  have p: "\<exists>p. 12 \<le> p \<and> p \<le> 16 \<and> (0x1000 :: u32) = 2 ^ p" by (intro exI [of _ 12]) simp
  have "0 \<le> ublksrv_queue_cmd_buf_sz (2 ^ 12) 2" by (subst ublksrv_queue_cmd_buf_sz_eq) simp_all
  then have sz: "0 \<le> ublksrv_queue_cmd_buf_sz 0x1000 2" by simp
  show ?thesis
    using p sz by (simp add: init_env_ok_def demo_init_env_def demo_queue_def)
qed

section \<open>What the initialisation establishes\<close>





text \<open>
  C28: The ring has an entry for every tag of the queue, whatever the target asks for; with no target
  depth, no event descriptor and no extra slots the ring, the completion ring and the slots all have
  the device's queue depth.
\<close>

theorem ring_depth_sufficient:
  "fst (ublksrv_calculate_depths cdev dev) \<ge> int (unat (di_queue_depth (cd_info cdev))) \<and>
   ublksrv_calculate_depths (cdev\<lparr>cd_info := (cd_info cdev)\<lparr>di_ublksrv_flags := 0\<rparr>\<rparr>) zero_dev =
     (int (unat (di_queue_depth (cd_info cdev))), int (unat (di_queue_depth (cd_info cdev))),
      int (unat (di_queue_depth (cd_info cdev))))"
proof -
  let ?cdev = "cdev\<lparr>cd_info := (cd_info cdev)\<lparr>di_ublksrv_flags := 0\<rparr>\<rparr>"
  have "snd (snd (ublksrv_calculate_depths ?cdev zero_dev)) = int (unat (di_queue_depth (cd_info cdev)))"
    by (subst nr_ios_eq) (simp_all add: zero_dev_def)
  moreover have "fst (ublksrv_calculate_depths ?cdev zero_dev) = int (unat (di_queue_depth (cd_info cdev)))"
    "fst (snd (ublksrv_calculate_depths ?cdev zero_dev)) = int (unat (di_queue_depth (cd_info cdev)))"
    using unsigned_greater_eq [of "di_queue_depth (cd_info cdev)"]
    by (auto simp: less_le ublksrv_calculate_depths_def zero_dev_def has_flag_def Let_def)
  ultimately show ?thesis
    by (auto simp: ublksrv_calculate_depths_def Let_def prod_eq_iff)
qed

section \<open>How it goes wrong\<close>

text \<open>
  C34: The fetch commands are issued before the mutex is initialised. On a block of memory in which
  the mutex happens to look taken the initialisation never returns, although everything else
  succeeds.
\<close>

theorem queue_init_uses_uninitialised_lock:
  assumes "init_env_ok e cdev dev qid" "queue_config_ok cdev dev qid"
    and "0 < unat (di_queue_depth (cd_info cdev))" "q_lock mem = Locked"
  shows "ublksrv_queue_init (e\<lparr>ie_mem := Some mem\<rparr>) cdev dev qid = Inl Deadlock"
proof -
  let ?d = "unat (di_queue_depth (cd_info cdev))" and ?x = "unat (tg_extra_ios (ud_tgt dev))"
  obtain r c where depths: "ublksrv_calculate_depths cdev dev = (r, c, int (?d + ?x))"
    using nr_ios_eq [of dev cdev] assms(2)
    by (cases "ublksrv_calculate_depths cdev dev") (auto simp: queue_config_ok_def)
  obtain buf where buf: "ie_map e (cmd_buf_offset (ie_page_sz e) qid)
      (ublksrv_queue_cmd_buf_sz (ie_page_sz e) ?d) = Some buf"
    using assms(1) unfolding init_env_ok_def Let_def by blast
  have "init_io (e\<lparr>ie_mem := Some mem\<rparr>) t d i = init_io e t d i" for t d i
    by (auto simp: init_io_def split: option.splits)
  then have frame: "init_ios (e\<lparr>ie_mem := Some mem\<rparr>) t d i n = init_ios e t d i n" for t d i n
    by (induction n arbitrary: i) (simp_all split: option.split)
  obtain ios where ios: "init_ios e (ud_tgt dev) ?d 0 (?d + ?x) = Some ios"
    using init_ios_succeeds assms(1) unfolding init_env_ok_def Let_def by blast
  obtain s where s: "(if cd_cpuset cdev = None then Inr [] else ublksrv_set_sched_affinity cdev qid) = Inr s"
    using affinity_in_bounds [OF assms(2)] by fastforce
  have "?d + ?x \<le> ?d * 3" using assms(2) by (simp add: queue_config_ok_def)
  then have "\<not> int (?d + ?x) > int ?d * 3" by linarith
  then have c1: "\<not> int (?d + ?x) > uint (di_queue_depth (cd_info cdev)) * 3"
    by (simp del: of_nat_add)
  have c: "\<not> MAX_NR_HW_QUEUES \<le> qid" "\<And>p d. \<not> ie_ring_ret e p d < 0" "ie_files_ret e = 0"
    using assms(1,2) by (auto simp: queue_config_ok_def init_env_ok_def Let_def not_less)
  have "ublksrv_submit_fetch_commands (ie_slots e) (laid_out cdev qid buf ios mem) = Inl Deadlock"
    using assms(3,4) by (intro submit_fetch_blocked) (simp_all add: laid_out_def)
  then show ?thesis
    by (simp add: ublksrv_queue_init_def depths c c1 buf frame ios s laid_out_def Let_def
        del: of_nat_add)
qed

theorem queue_init_uses_uninitialised_lock_witness:
  "ublksrv_queue_init (demo_init_env\<lparr>ie_mem := Some (demo_queue\<lparr>q_lock := Locked\<rparr>)\<rparr>)
    demo_cdev zero_dev 0 = Inl Deadlock"
  by (rule queue_init_uses_uninitialised_lock [OF demo_init_env_ok demo_config]) simp_all



end
