(* ===== verification/Data_Props.thy ===== *)
theory Data_Props
  imports User_Data Message
begin

text \<open>
  The properties of the data formats: the request cookie, the command encoding, the byte images of
  the structures shared with the driver, and the header handed to the target.
\<close>

section \<open>The cookie\<close>

text \<open>
  C15: The cookie is a faithful encoding: for a tag and target data of 16 bits and a command number
  of 8 it exists and its tag, command and target mark are read back unchanged, whatever the target
  data is; for anything wider the assertion stops the program.
\<close>

theorem user_data_roundtrip:
  "if unat tag < 2 ^ 16 \<and> unat op < 2 ^ 8 \<and> unat tgt < 2 ^ 16
   then \<exists>ud. build_user_data tag op tgt tio = Inr ud \<and> user_data_to_tag ud = tag \<and>
     user_data_to_op ud = op \<and> is_target_io ud = odd tio
   else build_user_data tag op tgt tio = Inl Assert_failed"
proof (cases "unat tag < 2 ^ 16 \<and> unat op < 2 ^ 8 \<and> unat tgt < 2 ^ 16")
  case True
  then obtain ud where "build_user_data tag op tgt tio = Inr ud"
    using build_user_data_ok by blast
  with True show ?thesis using user_data_tag user_data_op user_data_target by auto
next
  case False
  have wide: "unat x < 2 ^ n" if "drop_bit n x = 0" for x :: u32 and n
  proof -
    have "drop_bit n (unat x) = 0" using that by (metis unsigned_0 unsigned_drop_bit_eq unat_drop_bit_eq)
    then show ?thesis by (simp add: drop_bit_eq_div div_eq_0_iff)
  qed
  then show ?thesis
    using False wide [of 16 tag] wide [of 8 op] wide [of 16 tgt]
    by (auto simp: build_user_data_def assertE_def)
qed

text \<open>
  C38: The assertion lets target data of 16 bits through, but only its low 8 bits reach the cookie:
  the shift by 24 is a 32-bit one. Target data that differ above bit 7 give the same cookie.
\<close>

theorem user_data_cuts_target_data:
  assumes "unat tgt < 2 ^ 16"
  shows "build_user_data tag op tgt tio = build_user_data tag op (take_bit 8 tgt) tio"
proof -
  have w: "drop_bit 16 tgt = 0" using assms by (rule drop_bit_0_if_less)
  then have "\<not> bit tgt n" if "16 \<le> n" for n using that by (simp add: drop_bit_0_iff)
  then have "drop_bit 16 (take_bit 8 tgt) = 0" by (simp add: drop_bit_0_iff bit_simps)
  moreover have "push_bit 24 (take_bit 8 tgt) = push_bit 24 tgt"
    by (rule bit_eqI) (auto simp: bit_simps)
  ultimately show ?thesis using w by (simp add: build_user_data_def)
qed

theorem user_data_cuts_target_data_witness:
  "build_user_data 5 0x21 0x100 1 = build_user_data 5 0x21 0 1"
proof -
  have "take_bit 8 (0x100 :: u32) = 0" by code_simp
  then show ?thesis using user_data_cuts_target_data [where tgt = "0x100" and tag = 5 and op = "0x21" and tio = 1] by simp
qed

section \<open>Command numbers\<close>


section \<open>Structures as memory\<close>



section \<open>The request header\<close>

text \<open>
  C16: The header handed to the target has the same bytes on every host: magic, sequence number,
  type, byte offset and size little-endian; the sizes are sectors times 512 modulo 2^32, and the
  data length is the size for a write and 0 for everything else.
\<close>

theorem request_header_wire_format:
  "mem_bytes h 2 (ms_magic (longhorn_build_req h iod seq ty)) = [0x01, 0x1b] \<and>
   mem_bytes h 4 (ms_seq (longhorn_build_req h iod seq ty)) = le_bytes 4 seq \<and>
   mem_bytes h 4 (ms_type (longhorn_build_req h iod seq ty)) = le_bytes 4 ty \<and>
   mem_bytes h 8 (ms_offset (longhorn_build_req h iod seq ty)) =
     le_bytes 8 (word_of_nat (unat (id_start_sector iod) * 512) :: u64) \<and>
   mem_bytes h 4 (ms_size (longhorn_build_req h iod seq ty)) =
     le_bytes 4 (word_of_nat (unat (id_nr_sectors iod) * 512) :: u32) \<and>
   mem_bytes h 4 (ms_data_length (longhorn_build_req h iod seq ty)) =
     le_bytes 4 (if ty = 1 then word_of_nat (unat (id_nr_sectors iod) * 512) else 0 :: u32)"
proof -
  have s: "push_bit 9 x = word_of_nat (unat x * 512)" for x :: "'a::len word"
    by (simp add: push_bit_eq_mult)
  show ?thesis
    unfolding build_req_wire s
    by (simp add: longhorn_build_req_def mem_bytes_cpu_to_le LONGHORN_CMD_TYPE_WRITE_def s)
qed

section \<open>Rounding\<close>

text \<open>
  Rounding up to a power of two gives the least multiple of it that is at least the value, as
  long as the sum does not leave the type.
\<close>

lemma round_up_least_multiple:
  assumes "n < LENGTH('a)" "unat val + 2 ^ n \<le> 2 ^ LENGTH('a)"
  shows "2 ^ n dvd unat (round_up (val :: 'a::len word) (2 ^ n)) \<and>
    unat val \<le> unat (round_up val (2 ^ n)) \<and> unat (round_up val (2 ^ n)) < unat val + 2 ^ n"
proof -
  let ?m = "(unat val + (2 ^ n - 1)) div 2 ^ n * 2 ^ n :: nat"
  have "(0::nat) < 2 ^ n" by simp
  moreover have "unat val + (2 ^ n - 1) = ?m + (unat val + (2 ^ n - 1)) mod 2 ^ n"
    by (rule div_mult_mod_eq [symmetric])
  moreover have "(unat val + (2 ^ n - 1)) mod 2 ^ n < (2 ^ n :: nat)" by simp
  ultimately have "unat val \<le> ?m" "?m < unat val + 2 ^ n" by linarith+
  then show ?thesis unfolding round_up_spec [OF assms] by simp
qed

end
