(* ===== verification/Ctrl_Laws.thy ===== *)
theory Ctrl_Laws
  imports Ctrl_Ops
begin

text \<open>
  What the control commands send and return: the content of the entry, the outcomes of one command
  in every environment, the layout of the path buffers, and the behaviour of each operation on
  its success, error and fallback paths.
\<close>

section \<open>The history of commands\<close>

fun submission :: "event \<Rightarrow> (ctrl_cmd sqe \<times> byte list) list" where
  "submission (E_submit fd e buf ret) = [(e, buf)]"
| "submission _ = []"

definition submissions :: "world \<Rightarrow> (ctrl_cmd sqe \<times> byte list) list" where
  "submissions w = concat (map submission w)"

lemma submissions_append [simp]: "submissions (u @ w) = submissions u @ submissions w"
  by (simp add: submissions_def)

lemma submissions_simps [simp]:
  "submissions [] = []"
  "submissions (e # w) = submission e @ submissions w"
  by (simp_all add: submissions_def)

lemma submissions_interrupted [simp]: "submissions (interrupted fd w n) = submissions w"
  by (induction n) (simp_all add: interrupted_def)

section \<open>The entry\<close>

text \<open>The command number in the entry: translated unless the caller or the device says not to.\<close>

definition translates :: "ctrl_dev \<Rightarrow> cmd_data \<Rightarrow> bool" where
  "translates dev data \<longleftrightarrow> \<not> has_flag (cm_flags data) CTRL_CMD_NO_TRANS \<and>
    has_flag (di_flags (cd_info dev)) UBLK_F_CMD_IOCTL_ENCODE"

definition ctrl_sqe :: "ctrl_dev \<Rightarrow> u64 \<Rightarrow> ctrl_cmd sqe \<Rightarrow> cmd_data \<Rightarrow> ctrl_cmd sqe" where
  "ctrl_sqe dev addr old data =
    old\<lparr>sqe_opcode := IORING_OP_URING_CMD, sqe_ioprio := 0, sqe_fd := cd_ctrl_fd dev,
        sqe_off0 := (if translates dev data then ctrl_cmd_op ! unat (cm_op data) else cm_op data),
        sqe_off1 := 0, sqe_user_data := addr + sqe_cmd_off,
        sqe_cmd := (sqe_cmd old)
          \<lparr>cc_dev_id := di_dev_id (cd_info dev), cc_queue_id := -1,
           cc_len := (if has_flag (cm_flags data) CTRL_CMD_HAS_BUF then ucast (cm_len data)
                      else cc_len (sqe_cmd old)),
           cc_addr := (if has_flag (cm_flags data) CTRL_CMD_HAS_BUF then cm_addr data
                       else cc_addr (sqe_cmd old)),
           cc_data := (if has_flag (cm_flags data) CTRL_CMD_HAS_DATA then cm_data data
                       else cc_data (sqe_cmd old)),
           cc_dev_path_len := (if has_flag (cm_flags data) CTRL_CMD_HAS_DATA
                       then cm_dev_path_len data else cc_dev_path_len (sqe_cmd old))\<rparr>\<rparr>"

text \<open>Whenever translation is off or the command is one of the table, the entry is that one.\<close>

lemma ctrl_init_cmd_eq:
  assumes "translates dev data \<longrightarrow> 1 \<le> cm_op data \<and> cm_op data \<le> 0x12"
  shows "ublksrv_ctrl_init_cmd dev addr old data = Inr (ctrl_sqe dev addr old data)"
  using assms
  by (cases old; cases "sqe_cmd old")
     (auto simp: ublksrv_ctrl_init_cmd_def ctrl_sqe_def translates_def legacy_op_to_ioctl_iff
       ublksrv_set_sqe_cmd_op_def Let_def)

lemma ctrl_init_cmd_abort:
  "translates dev data \<Longrightarrow> \<not> (1 \<le> cm_op data \<and> cm_op data \<le> 0x12) \<Longrightarrow>
   ublksrv_ctrl_init_cmd dev addr old data = Inl Assert_failed"
  by (auto simp: ublksrv_ctrl_init_cmd_def translates_def legacy_op_to_ioctl_iff Let_def)

text \<open>Commands the library itself sends never trip the assertion.\<close>

definition sendable :: "ctrl_dev \<Rightarrow> cmd_data \<Rightarrow> bool" where
  "sendable dev data \<longleftrightarrow> (translates dev data \<longrightarrow> 1 \<le> cm_op data \<and> cm_op data \<le> 0x12)"

section \<open>Outcomes of a command\<close>

lemma ctrl_cmd_ring_full:
  "os_get_sqe os w (cd_ring_fd dev) = None \<Longrightarrow>
   ublksrv_ctrl_cmd os dev data buf w = Inr (- EINVAL, buf, w @ [E_get_sqe (cd_ring_fd dev) False])"
  by (simp add: ublksrv_ctrl_cmd_def Let_def)

text \<open>The history after a command has been submitted.\<close>

definition sent :: "os \<Rightarrow> ctrl_dev \<Rightarrow> cmd_data \<Rightarrow> byte list \<Rightarrow> world \<Rightarrow> world" where
  "sent os dev data buf w =
    (let ring = cd_ring_fd dev; w1 = w @ [E_get_sqe ring True] in
     case os_get_sqe os w ring of
       None \<Rightarrow> w1
     | Some (addr, old) \<Rightarrow>
         w1 @ [E_submit ring (ctrl_sqe dev addr old data) buf (os_submit os w1 ring)])"

lemma ctrl_cmd_submit_error:
  assumes "os_get_sqe os w (cd_ring_fd dev) = Some slot" "sendable dev data"
    and "os_submit os (w @ [E_get_sqe (cd_ring_fd dev) True]) (cd_ring_fd dev) < 0"
  shows "ublksrv_ctrl_cmd os dev data buf w =
    Inr (os_submit os (w @ [E_get_sqe (cd_ring_fd dev) True]) (cd_ring_fd dev), buf,
         sent os dev data buf w)"
  using assms
  by (cases slot) (auto simp: ublksrv_ctrl_cmd_def sent_def ctrl_init_cmd_eq sendable_def Let_def)

lemma ctrl_cmd_waits:
  assumes "os_get_sqe os w (cd_ring_fd dev) = Some slot" "sendable dev data"
    and "0 \<le> os_submit os (w @ [E_get_sqe (cd_ring_fd dev) True]) (cd_ring_fd dev)"
  shows "ublksrv_ctrl_cmd os dev data buf w =
    (case wait_cqe_loop os (cd_ring_fd dev) (sent os dev data buf w) of
       None \<Rightarrow> Inl No_return
     | Some (ret, w) \<Rightarrow>
         if ret < 0 then Inr (ret, buf, w)
         else Inr (os_cqe_res os w (cd_ring_fd dev), overlay (os_cqe_out os w (cd_ring_fd dev)) buf,
                   w @ [E_seen (cd_ring_fd dev)]))"
  using assms
  by (cases slot) (auto simp: ublksrv_ctrl_cmd_def sent_def ctrl_init_cmd_eq sendable_def Let_def)

text \<open>In every environment a command adds at most one submission, of the described entry.\<close>

lemma ctrl_cmd_submissions:
  assumes "ublksrv_ctrl_cmd os dev data buf w = Inr (ret, buf', w')" "sendable dev data"
  shows "submissions w' = submissions w \<or>
    (\<exists>addr old. submissions w' = submissions w @ [(ctrl_sqe dev addr old data, buf)])"
proof (cases "os_get_sqe os w (cd_ring_fd dev)")
  case None
  with assms show ?thesis by (auto simp: ctrl_cmd_ring_full)
next
  case (Some slot)
  obtain addr old where slot: "slot = (addr, old)" by (cases slot)
  have sub: "submissions (sent os dev data buf w) = submissions w @ [(ctrl_sqe dev addr old data, buf)]"
    using Some slot by (simp add: sent_def Let_def)
  show ?thesis
  proof (cases "os_submit os (w @ [E_get_sqe (cd_ring_fd dev) True]) (cd_ring_fd dev) < 0")
    case True
    with assms Some sub show ?thesis by (auto simp: ctrl_cmd_submit_error)
  next
    case False
    then have "submissions w' = submissions (sent os dev data buf w)"
      using assms(1)
      by (auto simp: ctrl_cmd_waits [OF Some assms(2)] split: option.splits if_splits
          dest!: wait_cqe_loop_result)
    with sub show ?thesis by metis
  qed
qed

lemma ctrl_cmd_buf_length:
  "ublksrv_ctrl_cmd os dev data buf w = Inr (ret, buf', w') \<Longrightarrow> length buf' = length buf"
  by (auto simp: ublksrv_ctrl_cmd_def Let_def bindE_eq_Inr_iff
      split: option.split_asm if_split_asm) (metis length_overlay)+

section \<open>Paths and buffers\<close>

lemma str_bytes_dev_path: "str_bytes (dev_path i) = str_bytes UBLKC_DEV @ str_bytes (int_dec (sint i))"
  by (simp add: dev_path_def str_bytes_append)

lemma dev_path_no_nul: "0 \<notin> set (str_bytes (dev_path i))"
proof -
  have "0 \<notin> set (str_bytes UBLKC_DEV)" by code_simp
  then show ?thesis using int_dec_no_nul by (simp add: str_bytes_dev_path)
qed

lemma length_dev_path: "length (dev_path i) < UBLKC_PATH_MAX"
proof -
  have "sint i < 2 ^ 31" "- (2 ^ 31) \<le> sint i"
    using sint_lt [of i] sint_ge [of i] by simp_all
  then have "length (int_dec (sint i)) \<le> Suc 10" by (intro length_int_dec) auto
  then show ?thesis by (simp add: dev_path_def UBLKC_DEV_def UBLKC_PATH_MAX_def)
qed

lemma dev_path_inj: "dev_path i = dev_path j \<longleftrightarrow> i = j"
  by (simp add: dev_path_def int_dec_inj flip: word_eq_iff_signed)

text \<open>A buffer with the path in front: the C string is the whole path, whatever was there before.\<close>

lemma length_snprintf_path: "length (snprintf UBLKC_PATH_MAX (dev_path i)) \<le> UBLKC_PATH_MAX"
  by (rule length_snprintf_le)

lemma cstring_put_dev_path:
  assumes "UBLKC_PATH_MAX \<le> length buf"
  shows "cstring (put_dev_path dev buf) = str_bytes (dev_path (di_dev_id (cd_info dev)))"
  unfolding put_dev_path_def overlay_def
  using assms length_snprintf_path [of "di_dev_id (cd_info dev)"]
  by (simp add: cstring_snprintf [OF length_dev_path dev_path_no_nul])

lemma drop_put_dev_path:
  "UBLKC_PATH_MAX \<le> length buf \<Longrightarrow>
   drop UBLKC_PATH_MAX (put_dev_path dev buf) = drop UBLKC_PATH_MAX buf"
  using length_snprintf_path [of "di_dev_id (cd_info dev)"]
  by (simp add: put_dev_path_def overlay_def)

lemma length_put_dev_path [simp]: "length (put_dev_path dev buf) = length buf"
  by (simp add: put_dev_path_def)

lemma takeWhile_prefix:
  "n \<le> length xs \<Longrightarrow> length (takeWhile P xs) < n \<Longrightarrow> takeWhile P (take n xs @ ys) = takeWhile P xs"
  by (induction xs arbitrary: n) (auto simp: take_Cons' split: if_splits)

text \<open>The two-part buffer: path, then payload.\<close>

lemma path_payload_buffer:
  assumes "length buf = UBLKC_PATH_MAX + length payload"
  shows "cstring (store_at UBLKC_PATH_MAX payload (put_dev_path dev buf)) =
      str_bytes (dev_path (di_dev_id (cd_info dev)))"
    and "drop UBLKC_PATH_MAX (store_at UBLKC_PATH_MAX payload (put_dev_path dev buf)) = payload"
    and "length (store_at UBLKC_PATH_MAX payload (put_dev_path dev buf)) = length buf"
proof -
  let ?b = "put_dev_path dev buf"
  have c: "takeWhile (\<lambda>b. b \<noteq> 0) ?b = str_bytes (dev_path (di_dev_id (cd_info dev)))"
    using cstring_put_dev_path [of buf dev] assms by (simp add: cstring_def)
  then have "length (takeWhile (\<lambda>b. b \<noteq> 0) ?b) < UBLKC_PATH_MAX"
    using length_dev_path [of "di_dev_id (cd_info dev)"] by simp
  then show "cstring (store_at UBLKC_PATH_MAX payload ?b) = str_bytes (dev_path (di_dev_id (cd_info dev)))"
    using assms c by (simp add: cstring_def store_at_def takeWhile_prefix)
  show "drop UBLKC_PATH_MAX (store_at UBLKC_PATH_MAX payload ?b) = payload"
    using assms by (simp add: drop_store_at overlay_full)
qed simp

section \<open>Parameters\<close>

lemma wf_params_up_len [simp]: "wf_params (p\<lparr>up_len := l\<rparr>) = wf_params p"
  by (simp add: wf_params_def)

lemma wf_zero_params: "wf_params zero_params"
  by (simp add: wf_params_def zero_params_def ublk_params_of_def zoned_of_def)

lemma wf_init_params_value: "wf_params (init_params_value info sectors)"
  using wf_zero_params by (simp add: init_params_value_def wf_params_def)

end
