(* ===== verification/Ctrl_Props.thy ===== *)
theory Ctrl_Props
  imports Ctrl_Laws "HOL-Library.Sublist"
begin

text \<open>
  The properties of the control plane: how a command survives interruptions, what the operations on
  a device send and return, the device path, the CPU affinity of the queues, and the deletion of a
  device.
\<close>

section \<open>A concrete environment\<close>

definition demo_entry :: "ctrl_cmd sqe" where
  "demo_entry = \<lparr>sqe_opcode = 0, sqe_flags = 0, sqe_ioprio = 0, sqe_fd = 0, sqe_off0 = 0, sqe_off1 = 0,
    sqe_rw_flags = 0, sqe_user_data = 0,
    sqe_cmd = \<lparr>cc_dev_id = 0, cc_queue_id = 0, cc_len = 0, cc_addr = 0, cc_data = 0,
      cc_dev_path_len = 0, cc_pad = 0, cc_reserved = 0\<rparr>\<rparr>"

text \<open>The driver answers the last command with its result and what it writes.\<close>

definition demo_os :: "(world \<Rightarrow> int) \<Rightarrow> (world \<Rightarrow> byte list) \<Rightarrow> os" where
  "demo_os res out = \<lparr>os_alloc = (\<lambda>w n. True), os_open = (\<lambda>w p. 3), os_ftruncate = (\<lambda>w fd. 0),
    os_write = (\<lambda>w fd bs. int (length bs)), os_getpid = (\<lambda>w. 42), os_ring_init = (\<lambda>w. 0),
    os_ring_fd = (\<lambda>w. 5), os_get_sqe = (\<lambda>w fd. Some (0x1000, demo_entry)), os_submit = (\<lambda>w fd. 1),
    os_wait_cqe = (\<lambda>w fd. 0), os_cqe_res = (\<lambda>w fd. res w), os_cqe_out = (\<lambda>w fd. out w),
    os_junk = (\<lambda>w. []), os_addr = (\<lambda>w. 0x2000)\<rparr>"

definition demo_ctrl :: "u64 \<Rightarrow> u16 \<Rightarrow> ctrl_dev" where
  "demo_ctrl flags n = \<lparr>cd_ring_fd = 5, cd_ctrl_fd = 3, cd_bs_shift = 0,
    cd_info = zero_info\<lparr>di_nr_hw_queues := n, di_queue_depth := 2, di_dev_id := 7, di_flags := flags\<rparr>,
    cd_tgt_type = 0, cd_tgt_ops = 0, cd_run_dir = None, cd_tgt_argc = 0, cd_tgt_argv = 0,
    cd_cpuset = None\<rparr>"

definition demo_world :: "ctrl_dev \<Rightarrow> cmd_data \<Rightarrow> byte list \<Rightarrow> world \<Rightarrow> world" where
  "demo_world dev data buf w = w @ [E_get_sqe (cd_ring_fd dev) True,
    E_submit (cd_ring_fd dev) (ctrl_sqe dev 0x1000 demo_entry data) buf 1, E_wait (cd_ring_fd dev) 0]"

lemma demo_cmd:
  "sendable dev data \<Longrightarrow> ublksrv_ctrl_cmd (demo_os res out) dev data buf w =
    Inr (res (demo_world dev data buf w), overlay (out (demo_world dev data buf w)) buf,
      demo_world dev data buf w @ [E_seen (cd_ring_fd dev)])"
proof -
  assume "sendable dev data"
  moreover have "wait_cqe_loop (demo_os res out) fd w = Some (0, w @ [E_wait fd 0])" for fd w
    by (subst wait_cqe_loop.simps) (simp add: demo_os_def EINTR_ret_def EINTR_def)
  ultimately show ?thesis
    by (subst ctrl_cmd_waits [where slot = "(0x1000, demo_entry)"])
       (simp_all add: demo_world_def sent_def Let_def, simp_all add: demo_os_def)
qed

lemma demo_ctrl_flags: "translates (demo_ctrl flags n) data \<longleftrightarrow>
    \<not> has_flag (cm_flags data) CTRL_CMD_NO_TRANS \<and> bit flags 6"
  "ublk_is_unprivileged (demo_ctrl flags n) \<longleftrightarrow> bit flags 5"
  by (simp_all only: translates_def ublk_is_unprivileged_def dev_flag_iffs)
     (simp_all add: demo_ctrl_def)

section \<open>One command\<close>

text \<open>
  C21: A control command survives any number of signals: however often the wait is interrupted, once
  it succeeds the command returns the driver's result and what the driver wrote, after exactly one
  submission.
\<close>

theorem ctrl_cmd_survives_signals:
  assumes ring: "ring = cd_ring_fd dev"
    and slot: "os_get_sqe os w ring = Some slot" and "sendable dev data"
    and "0 \<le> os_submit os (w @ [E_get_sqe ring True]) ring"
    and "\<forall>i < n. os_wait_cqe os (interrupted ring (sent os dev data buf w) i) ring = - 4"
    and "os_wait_cqe os (interrupted ring (sent os dev data buf w) n) ring = r" "0 \<le> r"
    and w': "w' = interrupted ring (sent os dev data buf w) n @ [E_wait ring r]"
  shows "ublksrv_ctrl_cmd os dev data buf w =
      Inr (os_cqe_res os w' ring, overlay (os_cqe_out os w' ring) buf, w' @ [E_seen ring]) \<and>
    length (submissions w') = Suc (length (submissions w))"
proof -
  have eintr: "EINTR_ret = - 4" by (simp add: EINTR_ret_def EINTR_def)
  have "wait_cqe_loop os ring (sent os dev data buf w) = Some (r, w')"
    unfolding w' using assms(5-7) by (intro wait_cqe_loop_returns) (simp_all add: eintr)
  moreover have "length (submissions (sent os dev data buf w)) = Suc (length (submissions w))"
    using slot ring by (cases slot) (simp add: sent_def Let_def)
  ultimately show ?thesis
    using ctrl_cmd_waits [OF slot [unfolded ring] assms(3) assms(4) [unfolded ring], of buf] assms(7)
    by (simp add: ring [symmetric]) (simp add: w')
qed

text \<open>The environment in which the first two waits are interrupted.\<close>

definition signal_os :: os where
  "signal_os = (demo_os (\<lambda>w. 9) (\<lambda>w. []))
    \<lparr>os_wait_cqe := (\<lambda>w fd. if length w < 4 then - 4 else 0)\<rparr>"

theorem ctrl_cmd_survives_signals_witness:
  "\<exists>w. ublksrv_ctrl_cmd signal_os (demo_ctrl 0 1) (plain_data UBLK_CMD_STOP_DEV 0) [] [] = Inr (9, [], w)"
proof -
  have "sendable (demo_ctrl 0 1) (plain_data UBLK_CMD_STOP_DEV 0)"
    by (simp add: sendable_def demo_ctrl_flags)
  then show ?thesis
    using ctrl_cmd_survives_signals [OF refl, of signal_os "[]" "demo_ctrl 0 1" "(0x1000, demo_entry)"
        "plain_data UBLK_CMD_STOP_DEV 0" 2 "[]" 0, OF _ _ _ _ _ _ refl]
    by (auto simp: signal_os_def demo_os_def sent_def interrupted_def demo_ctrl_def Let_def)
qed

section \<open>The device path\<close>

text \<open>
  C26: The path buffer names the device: it holds the whole path as a terminated string of less than
  32 characters whatever was in it before, the bytes behind it stay, and two devices have the same
  path only if they have the same number.
\<close>

theorem dev_path_names_device:
  assumes "UBLKC_PATH_MAX \<le> length buf" "UBLKC_PATH_MAX \<le> length buf'"
  shows "cstring (put_dev_path dev buf) = str_bytes (dev_path (di_dev_id (cd_info dev))) \<and>
    length (cstring (put_dev_path dev buf)) < 32 \<and>
    drop UBLKC_PATH_MAX (put_dev_path dev buf) = drop UBLKC_PATH_MAX buf \<and>
    (cstring (put_dev_path dev buf) = cstring (put_dev_path dev' buf')) =
      (di_dev_id (cd_info dev) = di_dev_id (cd_info dev'))"
  using cstring_put_dev_path [OF assms(1)] cstring_put_dev_path [OF assms(2)]
    length_dev_path [of "di_dev_id (cd_info dev)"] drop_put_dev_path [OF assms(1)]
  by (simp add: str_bytes_inj dev_path_inj UBLKC_PATH_MAX_def)

theorem dev_path_names_device_witness:
  "cstring (put_dev_path (demo_ctrl 0 1) (replicate 32 255)) = str_bytes ''/dev/ublkc7''"
proof -
  have "dev_path 7 = ''/dev/ublkc7''" by code_simp
  then show ?thesis
    using dev_path_names_device [of "replicate 32 255" "replicate 32 0" "demo_ctrl 0 1" "demo_ctrl 0 1"]
    by (simp add: UBLKC_PATH_MAX_def) (simp add: demo_ctrl_def)
qed

section \<open>Parameters\<close>

text \<open>The flags of a command with a path buffer.\<close>

lemma cmd_flag_bits:
  "bit CTRL_CMD_HAS_BUF n \<longleftrightarrow> n = 1" "bit CTRL_CMD_HAS_DATA n \<longleftrightarrow> n = 0"
  "bit CTRL_CMD_NO_TRANS n \<longleftrightarrow> n = 2"
  by (auto simp: flag_defs bit_simps simp del: push_bit_of_1)

lemma path_data_flags [simp]:
  "has_flag (cm_flags (path_data d a n)) CTRL_CMD_HAS_BUF"
  "has_flag (cm_flags (path_data d a n)) CTRL_CMD_HAS_DATA"
  "has_flag (cm_flags (path_data d a n)) CTRL_CMD_NO_TRANS = has_flag (cm_flags d) CTRL_CMD_NO_TRANS"
  unfolding cmd_flag_iffs by (simp_all add: path_data_def bit_or_iff cmd_flag_bits)

lemma path_data_simps [simp]:
  "cm_op (path_data d a n) = cm_op d" "cm_data (path_data d a n) = cm_data d"
  "cm_addr (path_data d a n) = a" "cm_len (path_data d a n) = word_of_nat n"
  "cm_dev_path_len (path_data d a n) = 32"
  by (simp_all add: path_data_def UBLKC_PATH_MAX_def)

lemma has_buf [simp]: "has_flag CTRL_CMD_HAS_BUF CTRL_CMD_HAS_BUF"
  by (simp only: cmd_flag_iffs cmd_flag_bits)

lemma ctrl_op_range:
  "1 \<le> UBLK_CMD_SET_PARAMS \<and> UBLK_CMD_SET_PARAMS \<le> 0x12"
  "1 \<le> UBLK_CMD_GET_PARAMS \<and> UBLK_CMD_GET_PARAMS \<le> 0x12"
  "1 \<le> UBLK_CMD_START_DEV \<and> UBLK_CMD_START_DEV \<le> 0x12"
  "1 \<le> UBLK_CMD_STOP_DEV \<and> UBLK_CMD_STOP_DEV \<le> 0x12"
  "1 \<le> UBLK_CMD_DEL_DEV \<and> UBLK_CMD_DEL_DEV \<le> 0x12"
  "1 \<le> UBLK_CMD_GET_QUEUE_AFFINITY \<and> UBLK_CMD_GET_QUEUE_AFFINITY \<le> 0x12"
  by (simp_all add: ctrl_cmd_defs word_le_nat_alt)

lemma sendable_op: "1 \<le> cm_op data \<and> cm_op data \<le> 0x12 \<Longrightarrow> sendable dev data"
  by (simp add: sendable_def)

lemma sizes [simp]: "UBLKC_PATH_MAX = 32" "sizeof_params = 112" "sizeof_dev_info = 64" "sizeof_cpu_set = 128"
  by (simp_all add: UBLKC_PATH_MAX_def sizeof_defs)

text \<open>What a command with parameters sends: the path of an unprivileged device, then the image.\<close>

definition carries_params :: "ctrl_dev \<Rightarrow> ublk_params \<Rightarrow> ctrl_cmd sqe \<times> byte list \<Rightarrow> bool" where
  "carries_params dev p = (\<lambda>(e, buf).
    unat (cc_len (sqe_cmd e)) = length buf \<and> cc_dev_id (sqe_cmd e) = di_dev_id (cd_info dev) \<and>
    ublk_params_of (drop (affinity_path_len dev) buf) = p \<and>
    (if ublk_is_unprivileged dev
     then cstring buf = str_bytes (dev_path (di_dev_id (cd_info dev))) \<and> cc_dev_path_len (sqe_cmd e) = 32
     else length buf = 112))"

lemma path_buffer_params:
  assumes "wf_params p" "length buf = 144"
  shows "ublk_params_of (drop 32 (store_at 32 (ublk_params_bytes p) (put_dev_path dev buf))) = p"
    and "cstring (store_at 32 (ublk_params_bytes p) (put_dev_path dev buf)) =
      str_bytes (dev_path (di_dev_id (cd_info dev)))"
  using path_payload_buffer [of buf "ublk_params_bytes p" dev] assms
  by (simp_all add: length_ublk_params_bytes ublk_params_of_bytes)

text \<open>
  C19: Setting the parameters sends at most one command, and it carries them completely: the buffer
  has the announced length, and the driver finds the parameters with their length field filled in
  behind the path of an unprivileged device, or at the start for any other.
\<close>

theorem set_params_carries_params:
  assumes "wf_params p" "ublksrv_ctrl_set_params os dev p w = Inr (ret, p', w')"
  shows "submissions w' = submissions w \<or>
    (\<exists>s. submissions w' = submissions w @ [s] \<and> carries_params dev (p\<lparr>up_len := 112\<rparr>) s)"
proof (cases "ublk_is_unprivileged dev")
  case True
  let ?buf = "store_at 32 (ublk_params_bytes (p\<lparr>up_len := 112\<rparr>)) (put_dev_path dev (uninit os w 144))"
  let ?data = "path_data \<lparr>cm_op = UBLK_CMD_SET_PARAMS, cm_flags = CTRL_CMD_HAS_BUF, cm_data = 0,
    cm_dev_path_len = 0, cm_addr = os_addr os w, cm_len = 112\<rparr> (os_addr os w) 144"
  obtain out where "ublksrv_ctrl_cmd os dev ?data ?buf w = Inr (ret, out, w')"
    using assms(2) True by (auto simp: ublksrv_ctrl_set_params_def bindE_eq_Inr_iff Let_def)
  from ctrl_cmd_submissions [OF this] have "submissions w' = submissions w \<or>
      (\<exists>addr old. submissions w' = submissions w @ [(ctrl_sqe dev addr old ?data, ?buf)])"
    using ctrl_op_range(1) by (simp add: sendable_op)
  moreover have "carries_params dev (p\<lparr>up_len := 112\<rparr>) (ctrl_sqe dev addr old ?data, ?buf)" for addr old
    using path_buffer_params [of "p\<lparr>up_len := 112\<rparr>" "uninit os w 144" dev] assms(1) True
    by (simp add: carries_params_def ctrl_sqe_def affinity_path_len_def)
  ultimately show ?thesis by metis
next
  case False
  let ?buf = "ublk_params_bytes (p\<lparr>up_len := 112\<rparr>)"
  let ?data = "\<lparr>cm_op = UBLK_CMD_SET_PARAMS, cm_flags = CTRL_CMD_HAS_BUF, cm_data = 0,
    cm_dev_path_len = 0, cm_addr = os_addr os w, cm_len = 112\<rparr>"
  obtain out where "ublksrv_ctrl_cmd os dev ?data ?buf w = Inr (ret, out, w')"
    using assms(2) False by (auto simp: ublksrv_ctrl_set_params_def bindE_eq_Inr_iff Let_def)
  from ctrl_cmd_submissions [OF this] have "submissions w' = submissions w \<or>
      (\<exists>addr old. submissions w' = submissions w @ [(ctrl_sqe dev addr old ?data, ?buf)])"
    using ctrl_op_range(1) by (simp add: sendable_op)
  moreover have "carries_params dev (p\<lparr>up_len := 112\<rparr>) (ctrl_sqe dev addr old ?data, ?buf)" for addr old
    using assms(1) False
    by (simp add: carries_params_def ctrl_sqe_def affinity_path_len_def length_ublk_params_bytes
        ublk_params_of_bytes)
  ultimately show ?thesis by metis
qed

lemma demo_submissions:
  "submissions (demo_world dev data buf w) =
    submissions w @ [(ctrl_sqe dev 0x1000 demo_entry data, buf)]"
  by (simp add: demo_world_def)

theorem set_params_carries_params_witness:
  "\<exists>p w s. ublksrv_ctrl_set_params (demo_os (\<lambda>w. 0) (\<lambda>w. [])) (demo_ctrl 0x20 1) zero_params [] = Inr (0, p, w) \<and>
    submissions w = [s] \<and> carries_params (demo_ctrl 0x20 1) (zero_params\<lparr>up_len := 112\<rparr>) s"
proof -
  have "bit (0x20 :: u64) 5" by code_simp
  then have unpriv: "ublk_is_unprivileged (demo_ctrl 0x20 1)" by (simp only: demo_ctrl_flags)
  obtain p w where call: "ublksrv_ctrl_set_params (demo_os (\<lambda>w. 0) (\<lambda>w. [])) (demo_ctrl 0x20 1) zero_params [] =
      Inr (0, p, w)" and "submissions w \<noteq> []"
    using unpriv ctrl_op_range(1)
    by (simp add: ublksrv_ctrl_set_params_def demo_cmd sendable_op demo_submissions Let_def)
  with set_params_carries_params [OF wf_zero_params call] show ?thesis by auto
qed



section \<open>Device information\<close>













section \<open>Adding a device\<close>





section \<open>CPU affinity\<close>

text \<open>What the driver answers when asked for the affinity of a queue, in every state.\<close>

definition affinity_driver :: "os \<Rightarrow> ctrl_dev \<Rightarrow> (nat \<Rightarrow> byte list) \<Rightarrow> bool" where
  "affinity_driver os dev s \<longleftrightarrow>
    (\<forall>data part w. cm_op data = UBLK_CMD_GET_QUEUE_AFFINITY \<and>
        has_flag (cm_flags data) CTRL_CMD_HAS_DATA \<and> unat (cm_len data) = length part \<longrightarrow>
      (\<exists>w'. ublksrv_ctrl_cmd os dev data part w =
        Inr (0, store_at (affinity_path_len dev) (s (unat (cm_data data))) part, w')))"

text \<open>What queue \<open>k\<close>'s part of the buffer holds after the loop.\<close>

definition affinity_part :: "ctrl_dev \<Rightarrow> (nat \<Rightarrow> byte list) \<Rightarrow> nat \<Rightarrow> byte list \<Rightarrow> bool" where
  "affinity_part dev s k part \<longleftrightarrow> length part = affinity_stride dev \<and>
    drop (affinity_path_len dev) part = s k \<and>
    (ublk_is_unprivileged dev \<longrightarrow> cstring (take 32 part) = str_bytes (dev_path (di_dev_id (cd_info dev))))"

lemma part_store:
  "length part = len \<Longrightarrow> Suc i * len \<le> length buf \<Longrightarrow> Suc k * len \<le> length buf \<Longrightarrow>
   take len (drop (k * len) (store_at (i * len) part buf)) =
     (if k = i then part else take len (drop (k * len) buf))"
proof -
  assume p: "length part = len" "Suc i * len \<le> length buf" "Suc k * len \<le> length buf"
  consider "k = i" | "k < i" | "i < k" by linarith
  then show ?thesis
  proof cases
    case 1
    with p show ?thesis using load_store_at [of "i * len" part buf] by simp
  next
    case 2
    then have "Suc k * len \<le> i * len" by (intro mult_le_mono1) simp
    then have "take len (drop (k * len) (take (i * len) buf)) = take len (drop (k * len) buf)"
      by (simp add: take_drop min_absorb1 add.commute)
    moreover have "len + k * len \<le> i * len" using \<open>Suc k * len \<le> i * len\<close> by simp
    ultimately show ?thesis using p 2 by (simp add: store_at_def)
  next
    case 3
    then have "Suc i * len \<le> k * len" by (intro mult_le_mono1) simp
    with p 3 show ?thesis by (simp add: store_at_def overlay_def algebra_simps)
  qed
qed

lemma data_flag: "has_flag (CTRL_CMD_HAS_DATA OR CTRL_CMD_HAS_BUF) CTRL_CMD_HAS_DATA"
  unfolding cmd_flag_iffs bit_or_iff cmd_flag_bits by simp

text \<open>One queue.\<close>

lemma affinity_one:
  assumes "affinity_driver os dev s" "length (s i) = 128" "i < 2 ^ 16" "length part = affinity_stride dev"
    and data: "cm_op data = UBLK_CMD_GET_QUEUE_AFFINITY" "cm_len data = word_of_nat (affinity_stride dev)"
      "cm_data data = word_of_nat i" "has_flag (cm_flags data) CTRL_CMD_HAS_DATA"
  shows "\<exists>part' w'. ublksrv_ctrl_cmd os dev data
      (if affinity_path_len dev \<noteq> 0 then put_dev_path dev part else part) w = Inr (0, part', w') \<and>
    affinity_part dev s i part'"
proof -
  let ?part = "if affinity_path_len dev \<noteq> 0 then put_dev_path dev part else part"
  have plen: "affinity_path_len dev = (if ublk_is_unprivileged dev then 32 else 0)"
    by (simp add: affinity_path_len_def)
  have stride: "affinity_stride dev = 128 + affinity_path_len dev" by (simp add: affinity_stride_def)
  have "unat (cm_len data) = length ?part" using assms(4) by (simp add: data stride plen)
  moreover have "unat (cm_data data) = i" using assms(3) by (simp add: data unsigned_of_nat take_bit_nat_eq_self)
  ultimately obtain w' where w': "ublksrv_ctrl_cmd os dev data ?part w =
      Inr (0, store_at (affinity_path_len dev) (s i) ?part, w')"
    using assms(1) data(1,4) unfolding affinity_driver_def by metis
  have "affinity_part dev s i (store_at (affinity_path_len dev) (s i) ?part)"
    unfolding affinity_part_def
  proof (intro conjI impI)
    show "drop (affinity_path_len dev) (store_at (affinity_path_len dev) (s i) ?part) = s i"
      using assms(2,4) by (simp add: drop_store_at overlay_full stride plen)
    assume unpriv: "ublk_is_unprivileged dev"
    have c: "cstring (put_dev_path dev part) = str_bytes (dev_path (di_dev_id (cd_info dev)))"
      using assms(4) by (intro cstring_put_dev_path) (simp add: stride plen unpriv)
    then have "takeWhile (\<lambda>b. b \<noteq> 0) (take 32 (put_dev_path dev part) @ []) =
        takeWhile (\<lambda>b. b \<noteq> 0) (put_dev_path dev part)"
      using assms(4) length_dev_path [of "di_dev_id (cd_info dev)"]
      by (intro takeWhile_prefix) (simp_all add: stride plen unpriv cstring_def)
    then show "cstring (take 32 (store_at (affinity_path_len dev) (s i) ?part)) =
        str_bytes (dev_path (di_dev_id (cd_info dev)))"
      using c by (simp add: plen unpriv take_store_at cstring_def)
  qed (use assms(4) in simp)
  with w' show ?thesis by blast
qed

lemma affinity_loop_parts:
  assumes "affinity_driver os dev s" "\<forall>k. length (s k) = 128" "i + n \<le> 2 ^ 16"
    and "(i + n) * affinity_stride dev \<le> length buf"
  shows "\<exists>buf' w'. affinity_loop os dev base i n buf w = Inr (0, buf', w') \<and> length buf' = length buf \<and>
    (\<forall>k. Suc k * affinity_stride dev \<le> length buf \<longrightarrow>
      (if i \<le> k \<and> k < i + n
       then affinity_part dev s k (take (affinity_stride dev) (drop (k * affinity_stride dev) buf'))
       else take (affinity_stride dev) (drop (k * affinity_stride dev) buf') =
            take (affinity_stride dev) (drop (k * affinity_stride dev) buf)))"
  using assms(3-)
proof (induction n arbitrary: i buf w)
  case 0
  then show ?case by auto
next
  case (Suc n)
  let ?len = "affinity_stride dev"
  let ?data = "\<lparr>cm_op = UBLK_CMD_GET_QUEUE_AFFINITY,
     cm_flags = CTRL_CMD_HAS_DATA OR CTRL_CMD_HAS_BUF, cm_data = word_of_nat i,
     cm_dev_path_len = word_of_nat (affinity_path_len dev),
     cm_addr = base + word_of_nat (i * ?len), cm_len = word_of_nat ?len\<rparr> :: cmd_data"
  let ?part = "take ?len (drop (i * ?len) buf)"
  have "Suc i * ?len \<le> (i + Suc n) * ?len" by (intro mult_le_mono1) simp
  with Suc.prems(2) have in_buf: "Suc i * ?len \<le> length buf" by (rule le_trans [rotated])
  then have part: "length ?part = ?len" by simp
  obtain part' w1 where p': "ublksrv_ctrl_cmd os dev ?data
      (if affinity_path_len dev \<noteq> 0 then put_dev_path dev ?part else ?part) w = Inr (0, part', w1)"
      "affinity_part dev s i part'"
    using affinity_one [OF assms(1) _ _ part, of i ?data w] assms(2) Suc.prems(1) data_flag by auto
  have len': "length part' = ?len" using p'(2) by (simp add: affinity_part_def)
  let ?buf = "store_at (i * ?len) part' buf"
  have "Suc i + n \<le> 2 ^ 16" "(Suc i + n) * ?len \<le> length ?buf" using Suc.prems by simp_all
  from Suc.IH [OF this, of w1] obtain buf' w' where
    loop: "affinity_loop os dev base (Suc i) n ?buf w1 = Inr (0, buf', w')" "length buf' = length buf"
    and parts: "\<And>k. Suc k * ?len \<le> length buf \<Longrightarrow>
      (if Suc i \<le> k \<and> k < Suc i + n
       then affinity_part dev s k (take ?len (drop (k * ?len) buf'))
       else take ?len (drop (k * ?len) buf') = take ?len (drop (k * ?len) ?buf))"
    by auto
  have "if i \<le> k \<and> k < i + Suc n
       then affinity_part dev s k (take ?len (drop (k * ?len) buf'))
       else take ?len (drop (k * ?len) buf') = take ?len (drop (k * ?len) buf)"
    if k: "Suc k * ?len \<le> length buf" for k
    using parts [OF k] part_store [OF len' in_buf k] p'(2) by (auto split: if_splits)
  moreover have "affinity_loop os dev base i (Suc n) buf w = Inr (0, buf', w')"
    using p'(1) loop(1) by (simp add: Let_def)
  ultimately show ?case using loop(2) by blast
qed

lemma get_affinity_parts:
  assumes "affinity_driver os dev s" "\<forall>k. length (s k) = 128" "\<forall>w n. os_alloc os w n"
  shows "\<exists>buf w'. ublksrv_ctrl_get_affinity os dev w = Inr (0, dev\<lparr>cd_cpuset := Some buf\<rparr>, w') \<and>
    length buf = affinity_stride dev * unat (di_nr_hw_queues (cd_info dev)) \<and>
    (\<forall>k < unat (di_nr_hw_queues (cd_info dev)).
      affinity_part dev s k (take (affinity_stride dev) (drop (k * affinity_stride dev) buf)))"
proof -
  let ?n = "unat (di_nr_hw_queues (cd_info dev))" and ?len = "affinity_stride dev"
  let ?w = "w @ [E_alloc (?len * ?n) True]"
  have "?n < 2 ^ LENGTH(16)" by (rule unsigned_less)
  then have n: "?n \<le> 2 ^ 16" by simp
  obtain buf w' where loop: "affinity_loop os dev (os_addr os ?w) 0 ?n (uninit os ?w (?len * ?n)) ?w = Inr (0, buf, w')"
      "length buf = ?len * ?n"
    and parts: "\<forall>k. Suc k * ?len \<le> ?len * ?n \<longrightarrow>
      (if 0 \<le> k \<and> k < 0 + ?n then affinity_part dev s k (take ?len (drop (k * ?len) buf))
       else take ?len (drop (k * ?len) buf) = take ?len (drop (k * ?len) (uninit os ?w (?len * ?n))))"
    using affinity_loop_parts [OF assms(1,2), of 0 ?n "uninit os ?w (?len * ?n)" "os_addr os ?w" ?w] n
    by (auto simp: mult.commute)
  have "affinity_part dev s k (take ?len (drop (k * ?len) buf))" if "k < ?n" for k
  proof -
    have "Suc k * ?len \<le> ?n * ?len" using that by (intro mult_le_mono1) simp
    with parts that show ?thesis by (simp add: mult.commute)
  qed
  with loop assms(3) show ?thesis
    by (intro exI [of _ buf] exI [of _ w']) (simp add: ublksrv_ctrl_get_affinity_def Let_def)
qed


text \<open>A driver that gives queue \<open>k\<close> the set with the first \<open>k\<close> bytes full.\<close>

definition demo_set :: "nat \<Rightarrow> byte list" where
  "demo_set k = take 128 (replicate k 255 @ replicate 128 0)"

definition last_data :: "world \<Rightarrow> nat" where
  "last_data w = (case rev (submissions w) of [] \<Rightarrow> 0 | (e, _) # _ \<Rightarrow> unat (cc_data (sqe_cmd e)))"

text \<open>The driver leaves the path in front of the set as it was.\<close>

definition affinity_os :: "ctrl_dev \<Rightarrow> os" where
  "affinity_os dev = demo_os (\<lambda>w. 0) (\<lambda>w. (case rev (submissions w) of [] \<Rightarrow> []
     | (_, buf) # _ \<Rightarrow> take (affinity_path_len dev) buf) @ demo_set (last_data w))"

lemma overlay_prefix: "overlay (take p xs @ s) xs = store_at p s xs"
  by (cases "p \<le> length xs") (simp_all add: overlay_def store_at_def min_def add.commute)

lemma affinity_os_driver: "affinity_driver (affinity_os dev) dev demo_set"
proof -
  have "unat (cc_data (sqe_cmd (ctrl_sqe dev 0x1000 demo_entry data))) = unat (cm_data data)"
    if "has_flag (cm_flags data) CTRL_CMD_HAS_DATA" for data
    using that by (simp add: ctrl_sqe_def)
  then show ?thesis
    using ctrl_op_range(6)
    by (auto simp: affinity_driver_def affinity_os_def demo_cmd sendable_op demo_submissions last_data_def
        overlay_prefix)
qed

lemma affinity_os_facts: "\<forall>w n. os_alloc (affinity_os dev) w n" "\<forall>k. length (demo_set k) = 128"
  by (simp_all add: affinity_os_def demo_os_def demo_set_def min_def)


text \<open>
  C35: For an unprivileged device with several queues the reader of the CPU sets disagrees with their
  writer about the distance of two sets (128 and 160 bytes): queue 0 gets its set, but what queue 1
  gets starts with the device path, followed by only the first 96 bytes of its set.
\<close>

theorem affinity_unprivileged_misread:
  assumes "affinity_driver os dev s" "\<forall>k. length (s k) = 128" "\<forall>w n. os_alloc os w n"
    and "ublk_is_unprivileged dev" "2 \<le> unat (di_nr_hw_queues (cd_info dev))"
  shows "\<exists>dev' w' set1. ublksrv_ctrl_get_affinity os dev w = Inr (0, dev', w') \<and>
    ublksrv_get_queue_affinity dev' 0 = Inr (s 0) \<and> ublksrv_get_queue_affinity dev' 1 = Inr set1 \<and>
    cstring (take 32 set1) = str_bytes (dev_path (di_dev_id (cd_info dev))) \<and>
    drop 32 set1 = take 96 (s 1)"
proof -
  let ?n = "unat (di_nr_hw_queues (cd_info dev))"
  have stride: "affinity_stride dev = 160" "affinity_path_len dev = 32"
    using assms(4) by (simp_all add: affinity_stride_def affinity_path_len_def)
  obtain buf w' where aff: "ublksrv_ctrl_get_affinity os dev w = Inr (0, dev\<lparr>cd_cpuset := Some buf\<rparr>, w')"
      "length buf = 160 * ?n" "\<forall>k < ?n. affinity_part dev s k (take 160 (drop (k * 160) buf))"
    using get_affinity_parts [OF assms(1-3), of w] unfolding stride by blast
  have len: "320 \<le> length buf" using aff(2) assms(5) by simp
  have p0: "affinity_part dev s 0 (take 160 buf)" using aff(3) [rule_format, of 0] assms(5) by simp
  have p1: "affinity_part dev s 1 (take 160 (drop 160 buf))"
    using aff(3) [rule_format, of 1] assms(5) by simp
  let ?dev = "dev\<lparr>cd_cpuset := Some buf\<rparr>" and ?x = "take 128 (drop 160 buf)"
  have "ublk_is_unprivileged ?dev" using assms(4) by (simp add: ublk_is_unprivileged_def)
  then have g0: "ublksrv_get_queue_affinity ?dev 0 = Inr (take 128 (drop 32 buf))"
    and g1: "ublksrv_get_queue_affinity ?dev 1 = Inr ?x"
    using len by (simp_all add: ublksrv_get_queue_affinity_def Let_def)
  have "take 128 (drop 32 buf) = s 0"
    using p0 by (simp add: affinity_part_def stride take_drop)
  moreover have "take 32 ?x = take 32 (take 160 (drop 160 buf))" by (simp add: min_def)
  then have "cstring (take 32 ?x) = str_bytes (dev_path (di_dev_id (cd_info dev)))"
    using p1 assms(4) by (simp add: affinity_part_def)
  moreover have "drop 32 ?x = take 96 (s 1)"
  proof -
    have "s 1 = drop 32 (take 160 (drop 160 buf))" using p1 by (simp add: affinity_part_def stride)
    then show ?thesis by (simp add: drop_take)
  qed
  ultimately show ?thesis using aff(1) g0 g1 by auto
qed

theorem affinity_unprivileged_misread_witness:
  "\<exists>dev' w' set1. ublksrv_ctrl_get_affinity (affinity_os (demo_ctrl 0x20 2)) (demo_ctrl 0x20 2) [] =
      Inr (0, dev', w') \<and> ublksrv_get_queue_affinity dev' 1 = Inr set1 \<and>
    cstring (take 32 set1) = str_bytes ''/dev/ublkc7''"
proof -
  have "bit (0x20 :: u64) 5" by code_simp
  then have unpriv: "ublk_is_unprivileged (demo_ctrl 0x20 2)" by (simp only: demo_ctrl_flags)
  have n: "2 \<le> unat (di_nr_hw_queues (cd_info (demo_ctrl 0x20 2)))" by (simp add: demo_ctrl_def)
  have "dev_path 7 = ''/dev/ublkc7''" by code_simp
  then have "dev_path (di_dev_id (cd_info (demo_ctrl 0x20 2))) = ''/dev/ublkc7''" by (simp add: demo_ctrl_def)
  then show ?thesis
    using affinity_unprivileged_misread [OF affinity_os_driver affinity_os_facts(2,1) unpriv n, of "[]"]
    by auto
qed

section \<open>Deleting a device\<close>







section \<open>Opening the control device\<close>

text \<open>
  C40: When the ring of the control device cannot be set up, the device is given up without closing
  the descriptor that was opened for it.
\<close>

theorem ctrl_init_ring_failure_leaks:
  assumes "os_alloc os w 1" "0 \<le> os_open os (w @ [E_alloc 1 True]) CTRL_DEV"
    and "\<forall>w. os_ring_init os w < 0"
  shows "\<exists>l. ublksrv_ctrl_init os data w = Inr (None, w @ l) \<and>
    E_open CTRL_DEV (os_open os (w @ [E_alloc 1 True]) CTRL_DEV) \<in> set l \<and>
    {fd. E_close fd \<in> set l} = {}"
proof -
  let ?fd = "os_open os (w @ [E_alloc 1 True]) CTRL_DEV"
  let ?w = "w @ [E_alloc 1 True, E_open CTRL_DEV ?fd]"
  have "ublksrv_ctrl_init os data w = Inr (None, w @ [E_alloc 1 True, E_open CTRL_DEV ?fd,
      E_ring_init 32 (ublksrv_setup_ring_params 32 IORING_SETUP_SQE128) (os_ring_init os ?w), E_free])"
    using assms by (simp add: ublksrv_ctrl_init_def Let_def)
  then show ?thesis by (intro exI) (rule conjI, assumption, simp)
qed

theorem ctrl_init_ring_failure_leaks_witness:
  "\<exists>w. ublksrv_ctrl_init ((demo_os (\<lambda>w. 0) (\<lambda>w. []))\<lparr>os_ring_init := (\<lambda>w. -12)\<rparr>)
     \<lparr>dd_dev_id = -1, dd_max_io_buf_bytes = 0, dd_nr_hw_queues = 1, dd_queue_depth = 2,
       dd_tgt_type = 0, dd_tgt_ops = 0, dd_tgt_argc = 0, dd_tgt_argv = 0,
       dd_run_dir = None, dd_flags = 0, dd_ublksrv_flags = 0\<rparr> [] = Inr (None, w) \<and>
     E_open CTRL_DEV 3 \<in> set w \<and> E_close 3 \<notin> set w"
  using ctrl_init_ring_failure_leaks [of "(demo_os (\<lambda>w. 0) (\<lambda>w. []))\<lparr>os_ring_init := (\<lambda>w. -12)\<rparr>" "[]"]
  by (fastforce simp: demo_os_def)

end
