(* ===== verification/Daemon_Props.thy ===== *)
theory Daemon_Props
  imports Daemon Queue_Props Ctrl_Props
begin

text \<open>
  The properties of the device object, the pid file, the thread of a queue and the start of the
  daemon.
\<close>

section \<open>The pid file\<close>

lemma pid_text_length:
  "- (10 ^ 18) < p \<Longrightarrow> p < 10 ^ 18 \<Longrightarrow> length (int_dec p @ [CHR 0x0A]) < PID_PATH_LEN"
  using length_int_dec [of 18 p] by (simp add: PID_PATH_LEN_def)

lemma pid_text_no_nul: "0 \<notin> set (str_bytes (int_dec p @ [CHR 0x0A]))"
  using int_dec_no_nul [of p] by (simp add: str_bytes_append) (simp add: str_bytes_def)

text \<open>When everything succeeds the file holds the process number and a line break.\<close>

lemma create_pid_file_success:
  assumes "0 \<le> os_open os w path" "\<forall>w fd. os_ftruncate os w fd = 0"
    and "\<forall>w fd bs. os_write os w fd bs = int (length bs)"
    and "\<forall>w. os_getpid os w = pid" "- (10 ^ 18) < pid" "pid < 10 ^ 18"
  shows "create_pid_file os path fd0 w = (0, os_open os w path,
    w @ [E_open path (os_open os w path), E_ftruncate (os_open os w path) 0,
      E_write (os_open os w path) (str_bytes (int_dec pid @ [CHR 0x0A]))
        (int (length (int_dec pid @ [CHR 0x0A])))])"
proof -
  have "cstring (snprintf PID_PATH_LEN (int_dec pid @ [CHR 0x0A])) = str_bytes (int_dec pid @ [CHR 0x0A])"
    using cstring_snprintf [OF pid_text_length [OF assms(5,6)] pid_text_no_nul, of "[]"] by simp
  then show ?thesis using assms(1-4) by (simp add: create_pid_file_def Let_def)
qed

text \<open>Any failure after the file was opened closes and removes it and sets no descriptor.\<close>

lemma create_pid_file_failure:
  assumes "create_pid_file os path fd0 w = (ret, fd, w')" "ret \<noteq> 0" "0 \<le> os_open os w path"
  shows "fd = fd0 \<or> fd = os_open os w path"
    and "\<exists>v. w' = v @ [E_close (os_open os w path), E_unlink path]"
  using assms by (auto simp: create_pid_file_def Let_def split: if_splits)

section \<open>The device object\<close>

text \<open>
  C36: When the pid file cannot be opened, \<^verbatim>\<open>ublksrv_dev_init\<close> gives the device up in a state it
  should not: the descriptor of the character device stays open, and the one that is closed instead
  is the value the uninitialised local variable happened to hold.
\<close>

theorem dev_init_failure_closes_wrong_fd:
  assumes "\<forall>w n. os_alloc os w n" "cd_run_dir cdev = Some dir"
    and "\<forall>w. os_open os w (dev_path (di_dev_id (cd_info cdev))) = fd" "0 \<le> fd"
    and "\<forall>w. os_open os w (pid_path dir (di_dev_id (cd_info cdev))) = -1"
  shows "\<exists>v junk. ublksrv_dev_init os cdev w = (None, w @ v) \<and>
    E_open (dev_path (di_dev_id (cd_info cdev))) fd \<in> set v \<and>
    {f. E_close f \<in> set v} = {sint (le_word (uninit os junk 4) :: s32)}"
proof -
  let ?path = "dev_path (di_dev_id (cd_info cdev))" and ?pid = "pid_path dir (di_dev_id (cd_info cdev))"
  let ?w = "w @ [E_alloc 1 True, E_open ?path fd]"
  have "ublksrv_dev_init os cdev w = (None, w @ [E_alloc 1 True, E_open ?path fd, E_open ?pid (-1),
      E_close (sint (le_word (uninit os ?w 4) :: s32)), E_unlink ?pid])"
    using assms by (simp add: ublksrv_dev_init_def ublksrv_create_pid_file_def create_pid_file_def Let_def)
  then show ?thesis by (intro exI [of _ ?w] exI conjI) auto
qed

text \<open>A system without the directory of the pid files, and a stack that held the number 5.\<close>

definition no_run_dir :: os where
  "no_run_dir = (demo_os (\<lambda>w. 0) (\<lambda>w. []))
    \<lparr>os_open := (\<lambda>w p. if p = ''/dev/ublkc7'' then 3 else -1), os_junk := (\<lambda>w. [5])\<rparr>"

theorem dev_init_failure_closes_wrong_fd_witness:
  "\<exists>w. ublksrv_dev_init no_run_dir ((demo_ctrl 0 1)\<lparr>cd_run_dir := Some UBLKSRV_PID_DIR\<rparr>) [] = (None, w) \<and>
    E_close 3 \<notin> set w \<and> E_close 5 \<in> set w"
proof -
  let ?cdev = "(demo_ctrl 0 1)\<lparr>cd_run_dir := Some UBLKSRV_PID_DIR\<rparr>"
  have id: "di_dev_id (cd_info ?cdev) = 7" by (simp add: demo_ctrl_def)
  have path: "dev_path 7 = ''/dev/ublkc7''" "pid_path UBLKSRV_PID_DIR 7 \<noteq> ''/dev/ublkc7''"
    by code_simp+
  have junk: "sint (le_word (uninit no_run_dir v 4) :: s32) = 5" for v
  proof -
    have "uninit no_run_dir v 4 = [5, 0, 0, 0]" by (simp add: uninit_def no_run_dir_def numeral_eq_Suc)
    moreover have "sint (le_word [5, 0, 0, 0] :: s32) = 5" by code_simp
    ultimately show ?thesis by simp
  qed
  obtain v where v: "ublksrv_dev_init no_run_dir ?cdev [] = (None, v)" "{f. E_close f \<in> set v} = {5}"
    using dev_init_failure_closes_wrong_fd [of no_run_dir ?cdev UBLKSRV_PID_DIR 3 "[]"] path
    unfolding id junk by (auto simp: no_run_dir_def demo_os_def)
  have "E_close f \<in> set v \<longleftrightarrow> f = 5" for f using v(2) by (metis mem_Collect_eq singleton_iff)
  then have "E_close 3 \<notin> set v" "E_close 5 \<in> set v" by simp_all
  with v(1) show ?thesis by blast
qed

section \<open>The thread of a queue\<close>

text \<open>
  C14: The thread of a queue leaves its loop exactly when the queue is done: after it has left, the
  queue is stopping and has nothing queued, and on such a queue the next round ends the loop
  without handing anything over.
\<close>

theorem thread_ends_when_done:
  "(if ublksrv_queue_is_done q then io_loop h (e # es) q = Inr ([], q, True)
    else \<forall>hos. io_loop h [e] q \<noteq> Inr (hos, q', True)) \<and>
   {q'. \<exists>hos. io_loop h es q = Inr (hos, q', True)} \<subseteq> {q'. stopping q' \<and> q_sq q' = []}"
proof -
  have neg: "r < 0 \<longleftrightarrow> ublksrv_queue_is_done a" "r < 0 \<Longrightarrow> b = a"
    if "ublksrv_process_io h e a = Inr (r, hos, b)" for e a r hos b
    using that by (auto simp: ublksrv_process_io_def ublksrv_poll_def ENODEV_def bindE_eq_Inr_iff
        split: if_splits)
  have "stopping b \<and> q_sq b = []" if "io_loop h es q = Inr (hos, b, True)" for hos b
    using that
  proof (induction es arbitrary: q hos)
    case (Cons e es)
    then obtain r hos1 q1 where p: "ublksrv_process_io h e q = Inr (r, hos1, q1)"
      and rest: "if r < 0 then b = q1 else \<exists>hos2. io_loop h es q1 = Inr (hos2, b, True)"
      by (auto simp: bindE_eq_Inr_iff split: if_splits)
    show ?case
    proof (cases "r < 0")
      case True
      with neg [OF p] rest show ?thesis by (simp add: is_done_stopping)
    next
      case False
      with rest Cons.IH show ?thesis by auto
    qed
  qed simp
  moreover have "io_loop h (e # es) q = Inr ([], q, True)" if "ublksrv_queue_is_done q"
    using that by (simp add: ublksrv_process_io_def ENODEV_def)
  moreover have "io_loop h [e] q \<noteq> Inr (hos, q', True)" if "\<not> ublksrv_queue_is_done q" for hos
    using that neg by (auto simp: bindE_eq_Inr_iff split: if_splits)
  ultimately show ?thesis by auto
qed

section \<open>Starting the daemon\<close>

text \<open>A command leaves only events of its ring, and at most one submission.\<close>

definition ring_events :: "world \<Rightarrow> bool" where
  "ring_events m \<longleftrightarrow> (\<forall>i. E_thread i \<notin> set m \<and> E_join i \<notin> set m) \<and> E_free \<notin> set m"

lemma ctrl_cmd_events:
  assumes "ublksrv_ctrl_cmd os dev data buf w = Inr (ret, buf', w')"
  shows "\<exists>m. w' = w @ m \<and> ring_events m"
proof -
  have wait: "\<exists>m. v' = v @ m \<and> ring_events m" if w: "wait_cqe_loop os fd v = Some (r, v')" for fd v r v'
  proof -
    obtain n where "v' = interrupted fd v n @ [E_wait fd r]"
      using wait_cqe_loop_result [OF w] by blast
    then show ?thesis by (auto simp: interrupted_def ring_events_def)
  qed
  have one: "ring_events [E_get_sqe r b]" "ring_events [E_seen r]" "ring_events [E_submit r e bs i]" for r b e bs i
    by (simp_all add: ring_events_def)
  show ?thesis
  proof (cases "os_get_sqe os w (cd_ring_fd dev)")
    case None
    with assms one show ?thesis by (simp add: ctrl_cmd_ring_full) blast
  next
    case (Some slot)
    obtain addr sqe where slot: "slot = (addr, sqe)" by (cases slot)
    obtain e where e: "ublksrv_ctrl_init_cmd dev addr sqe data = Inr e"
      using assms Some slot by (auto simp: ublksrv_ctrl_cmd_def Let_def bindE_eq_Inr_iff)
    let ?w2 = "w @ [E_get_sqe (cd_ring_fd dev) True, E_submit (cd_ring_fd dev) e buf
      (os_submit os (w @ [E_get_sqe (cd_ring_fd dev) True]) (cd_ring_fd dev))]"
    have base: "ring_events [E_get_sqe (cd_ring_fd dev) True, E_submit (cd_ring_fd dev) e buf i]" for i
      by (simp add: ring_events_def)
    from assms Some slot e consider "w' = ?w2"
      | r v where "wait_cqe_loop os (cd_ring_fd dev) ?w2 = Some (r, v)"
          "w' = v \<or> w' = v @ [E_seen (cd_ring_fd dev)]"
      by (auto simp: ublksrv_ctrl_cmd_def Let_def split: if_splits option.splits)
    then show ?thesis
    proof cases
      case 1
      with base show ?thesis by blast
    next
      case 2
      from wait [OF 2(1)] obtain m where "v = ?w2 @ m" "ring_events m" by blast
      with 2(2) show ?thesis by (auto simp: ring_events_def)
    qed
  qed
qed

lemma start_code: "IOC_NR (ctrl_cmd_op ! unat UBLK_CMD_START_DEV) = UBLK_CMD_START_DEV"
  "IOC_NR UBLK_CMD_START_DEV = UBLK_CMD_START_DEV"
  by code_simp+

text \<open>The start command carries the process number and leaves it in the device information.\<close>

definition start_request :: "int \<Rightarrow> (ctrl_cmd sqe \<times> byte list) list \<Rightarrow> bool" where
  "start_request pid l \<longleftrightarrow> l = [] \<or> (\<exists>e buf. l = [(e, buf)] \<and>
    IOC_NR (sqe_off0 e) = UBLK_CMD_START_DEV \<and> cc_data (sqe_cmd e) = word_of_int pid)"

lemma start_data:
  assumes "un_privileged_prep_data os cdev (plain_data UBLK_CMD_START_DEV CTRL_CMD_HAS_DATA) w = (data, buf)"
  shows "cm_op data = UBLK_CMD_START_DEV" "has_flag (cm_flags data) CTRL_CMD_HAS_DATA"
proof -
  have f: "has_flag CTRL_CMD_HAS_DATA CTRL_CMD_HAS_DATA" by (simp only: cmd_flag_iffs cmd_flag_bits)
  have "fst (un_privileged_prep_data os cdev (plain_data UBLK_CMD_START_DEV CTRL_CMD_HAS_DATA) w) = data"
    by (simp only: assms fst_conv)
  then have "data = (if ublk_is_unprivileged cdev
      then path_data (plain_data UBLK_CMD_START_DEV CTRL_CMD_HAS_DATA) (os_addr os w) UBLKC_PATH_MAX
      else plain_data UBLK_CMD_START_DEV CTRL_CMD_HAS_DATA)"
    unfolding un_privileged_prep_data_def Let_def by (simp split: if_splits)
  then show "cm_op data = UBLK_CMD_START_DEV" "has_flag (cm_flags data) CTRL_CMD_HAS_DATA"
    using f by (simp_all add: plain_data_def)
qed

lemma pid_conversion: "ucast (word_of_int pid :: u64) = (word_of_int pid :: s32)"
  by (rule bit_eqI) (simp add: bit_simps)

lemma start_sqe:
  assumes "cm_op data = UBLK_CMD_START_DEV" "has_flag (cm_flags data) CTRL_CMD_HAS_DATA"
  shows "IOC_NR (sqe_off0 (ctrl_sqe dev addr old data)) = UBLK_CMD_START_DEV"
    and "cc_data (sqe_cmd (ctrl_sqe dev addr old data)) = cm_data data"
  using assms start_code by (simp_all add: ctrl_sqe_def)

lemma start_dev_unfold:
  assumes "ublksrv_ctrl_start_dev os cdev pid w = Inr (ret, cdev', w')"
  obtains data buf out where "cm_op data = UBLK_CMD_START_DEV" "has_flag (cm_flags data) CTRL_CMD_HAS_DATA"
    "cm_data data = word_of_int pid" "ublksrv_ctrl_cmd os cdev' data buf w = Inr (ret, out, w')"
    "di_ublksrv_pid (cd_info cdev') = word_of_int pid"
proof -
  obtain data buf where prep: "un_privileged_prep_data os cdev (plain_data UBLK_CMD_START_DEV CTRL_CMD_HAS_DATA) w = (data, buf)"
    by (rule prod.exhaust)
  note start_data [OF prep]
  then show thesis
    using that [of "data\<lparr>cm_data := word_of_int pid\<rparr>" buf] assms
    unfolding ublksrv_ctrl_start_dev_def prep Let_def prod.case bindE_eq_Inr_iff
    by (auto simp: pid_conversion)
qed

lemma start_dev_request:
  assumes "ublksrv_ctrl_start_dev os cdev pid w = Inr (ret, cdev', w')"
  shows "\<exists>m. w' = w @ m \<and> ring_events m \<and> start_request pid (submissions m) \<and>
    di_ublksrv_pid (cd_info cdev') = word_of_int pid"
proof -
  obtain data buf out where data: "cm_op data = UBLK_CMD_START_DEV"
      "has_flag (cm_flags data) CTRL_CMD_HAS_DATA" "cm_data data = word_of_int pid"
    and cmd: "ublksrv_ctrl_cmd os cdev' data buf w = Inr (ret, out, w')"
    and pid: "di_ublksrv_pid (cd_info cdev') = word_of_int pid"
    using start_dev_unfold [OF assms] .
  obtain m where m: "w' = w @ m" "ring_events m" using ctrl_cmd_events [OF cmd] by blast
  have "sendable cdev' data" by (rule sendable_op) (simp only: data(1) ctrl_op_range(3) simp_thms)
  from ctrl_cmd_submissions [OF cmd this]
  have "submissions m = [] \<or> (\<exists>addr old. submissions m = [(ctrl_sqe cdev' addr old data, buf)])"
    unfolding m(1) submissions_append by blast
  then have "start_request pid (submissions m)"
  proof (elim disjE exE)
    fix addr old
    assume "submissions m = [(ctrl_sqe cdev' addr old data, buf)]"
    then show ?thesis
      unfolding start_request_def using start_sqe [OF data(1,2)] data(3) by metis
  qed (simp add: start_request_def)
  with m pid show ?thesis by blast
qed

text \<open>
  C24: The daemon starts in order: all queue threads first, then the start command with the process
  number, which is also recorded in the device information, and after a successful start all threads
  are joined before their descriptions are freed. After a failed start the descriptions are freed
  while the threads, which read them, have not been joined.
\<close>

theorem daemon_start_order:
  assumes "demo_null_io_handler os cdev w = Inr (ret, cdev', w')"
    and "n = unat (di_nr_hw_queues (cd_info cdev))" "os_alloc os w (24 * n)"
    and "ublksrv_dev_init os cdev (w @ [E_alloc (24 * n) True]) = (Some dev, w1)"
    and "pid = os_getpid os (w1 @ map E_thread [0..<n])"
  shows "\<exists>m. w' = w1 @ map E_thread [0..<n] @ m @
      (if ret < 0 then [] else map E_join [0..<n]) @ [E_free] \<and>
    ring_events m \<and> start_request pid (submissions m) \<and>
    di_ublksrv_pid (cd_info cdev') = word_of_int pid"
proof -
  obtain w2 where start: "ublksrv_ctrl_start_dev os cdev pid (w1 @ map E_thread [0..<n]) = Inr (ret, cdev', w2)"
    and w': "w' = w2 @ (if ret < 0 then [] else map E_join [0..<n]) @ [E_free]"
    using assms
    by (auto simp: demo_null_io_handler_def sizeof_queue_info_def bindE_eq_Inr_iff Let_def split: if_splits)
  from start_dev_request [OF start] w' show ?thesis by auto
qed

text \<open>A driver that refuses to start the device.\<close>

theorem daemon_start_order_witness:
  "\<exists>cdev' w' v. demo_null_io_handler (demo_os (\<lambda>w. -22) (\<lambda>w. [])) (demo_ctrl 0 1) [] = Inr (-22, cdev', w') \<and>
    w' = v @ [E_free] \<and> E_thread 0 \<in> set v \<and> E_join 0 \<notin> set v"
proof -
  let ?os = "demo_os (\<lambda>w. -22) (\<lambda>w. [])" and ?cdev = "demo_ctrl 0 1"
  have n: "unat (di_nr_hw_queues (cd_info ?cdev)) = 1" by (simp add: demo_ctrl_def)
  have alloc: "os_alloc ?os w k" for w k by (simp add: demo_os_def)
  have "cd_run_dir ?cdev = None" by (simp add: demo_ctrl_def)
  then obtain dev w1 where dev: "ublksrv_dev_init ?os ?cdev [E_alloc 24 True] = (Some dev, w1)"
      "w1 = [E_alloc 24 True, E_alloc 1 True, E_open (dev_path (di_dev_id (cd_info ?cdev))) 3]"
    by (simp add: ublksrv_dev_init_def ublksrv_create_pid_file_def demo_os_def Let_def)
  have "\<exists>c w'. demo_null_io_handler ?os ?cdev [] = Inr (-22, c, w')"
    using dev(1) n alloc ctrl_op_range(3)
    by (simp add: demo_null_io_handler_def sizeof_queue_info_def ublksrv_ctrl_start_dev_def
        un_privileged_prep_data_def demo_ctrl_flags plain_data_def demo_cmd sendable_op Let_def)
  then obtain c w' where call: "demo_null_io_handler ?os ?cdev [] = Inr (-22, c, w')" by blast
  have "\<exists>m. w' = w1 @ map E_thread [0..<1] @ m @ (if (-22 :: int) < 0 then [] else map E_join [0..<1]) @ [E_free] \<and>
      ring_events m"
    using daemon_start_order [OF call n [symmetric] alloc _ refl, of dev w1] dev(1) by auto
  then obtain m where "w' = (w1 @ [E_thread 0] @ m) @ [E_free]" "ring_events m" by auto
  with call dev(2) show ?thesis by (fastforce simp: ring_events_def)
qed

end
