(* ===== verification/Spec2Isabelle.thy ===== *)
theory Spec2Isabelle
  imports Engine_Refine Init_Props Data_Props Ctrl_Props Daemon_Props
begin

text \<open>
  GoUblksrv: the C core of a library for block devices in user space on the Linux \<^verbatim>\<open>ublk\<close> driver
  (\<^verbatim>\<open>src/ublkhelper.c\<close>, \<^verbatim>\<open>src/ublkhelper.h\<close>, \<^verbatim>\<open>src/ublksrv_tgt_endian.h\<close>).

  The program. A control device (\<^verbatim>\<open>struct ublksrv_ctrl_dev\<close>) sends administrative commands to the
  driver through an \<^verbatim>\<open>io_uring\<close>: add, set parameters, start, query, stop, delete. Starting the
  daemon creates one thread per hardware queue. A queue (\<^verbatim>\<open>struct _ublksrv_queue\<close>) owns a ring, a
  command buffer shared with the driver and one slot per tag. The thread keeps one command per slot
  at the driver; a completed command is a block request, which the thread hands to the target (the
  Go side, \<^verbatim>\<open>onRequestAsync\<close>). The target completes it from another thread
  (\<^verbatim>\<open>ublksrv_complete_io\<close>), which queues the command that commits the result and fetches the next
  request. The counter of requests in flight keeps the daemon from submitting while the target
  works.

  The theories, and the code they model.
  \<^item> \<^verbatim>\<open>Prelude\<close>: machine integers, faults, bytes, \<^verbatim>\<open>snprintf\<close>, \<^verbatim>\<open>round_up\<close>; the interfaces \<open>codec\<close>
    (structures copied as memory) and \<open>invariant_system\<close> (transition systems).
  \<^item> \<^verbatim>\<open>Abi\<close>, \<^verbatim>\<open>Structs\<close>: constants, command encoding (\<^verbatim>\<open>legacy_op_to_ioctl\<close>), and the structures of
    the header as records, with their byte images; three interpretations of \<open>codec\<close>.
  \<^item> \<^verbatim>\<open>User_Data\<close>, \<^verbatim>\<open>Message\<close>: the cookie (\<^verbatim>\<open>build_user_data\<close> and its readers), byte order and the
    request header (\<^verbatim>\<open>__longhorn_build_req\<close>). Properties in \<^verbatim>\<open>Data_Props\<close>.
  \<^item> \<^verbatim>\<open>Queue\<close>: the hot path, one definition per C function, from \<^verbatim>\<open>ublksrv_queue_io_cmd\<close> to
    \<^verbatim>\<open>ublksrv_process_io\<close>. \<^verbatim>\<open>Queue_Laws\<close> gives each its closed form on every branch;
    \<^verbatim>\<open>Queue_Props\<close> the sequential properties.
  \<^item> \<^verbatim>\<open>Engine\<close>: daemon, driver and target running concurrently, as a step relation whose steps are
    those functions; its invariant is an interpretation of \<open>invariant_system\<close>.
    \<^verbatim>\<open>Engine_Props\<close>: progress, wake-up and the life cycle of a slot. \<^verbatim>\<open>Engine_Refine\<close>: one call of
    \<^verbatim>\<open>ublksrv_process_io\<close> is a run of steps. \<^verbatim>\<open>Demo\<close>: a concrete queue and run.
  \<^item> \<^verbatim>\<open>Queue_Init\<close>, \<^verbatim>\<open>Queue_Init_Laws\<close>, \<^verbatim>\<open>Init_Props\<close>: sizes and depths, and \<^verbatim>\<open>ublksrv_queue_init\<close>.
  \<^item> \<^verbatim>\<open>Os\<close>: the C library, kernel and \<^verbatim>\<open>liburing\<close> as an environment: every call appends an event to
    a history, and its answer is any function of the history. \<^verbatim>\<open>Ctrl\<close>, \<^verbatim>\<open>Ctrl_Ops\<close>: the control
    commands over it. \<^verbatim>\<open>Ctrl_Laws\<close>: what a command submits and returns in every environment.
    \<^verbatim>\<open>Ctrl_Props\<close>: the properties of the operations on a device.
  \<^item> \<^verbatim>\<open>Daemon\<close>, \<^verbatim>\<open>Daemon_Props\<close>: pid file, device object, queue thread and daemon start.

  Conventions. A C function that can fault (a failed assertion, an access out of bounds, a lock that
  is never released, a wait that never ends) returns a sum with the fault on the left. Integers have
  the width of the C type where it matters. The functions are executable; the only loop that may
  run for ever, the retry of an interrupted wait, is a partial function whose None is "never
  returns". Loops over the answers of the environment (reaping, waiting for the target, the thread's
  loop) recurse over the list of these answers, so no fuel is needed.

  The concurrent properties below hold for a target that completes each request once and a driver
  that completes each command once and never asks for data; what happens otherwise is stated in
  \<^verbatim>\<open>Queue_Props\<close> (\<open>complete_io_twice\<close>, \<open>get_data_breaks_counter\<close>). They start from a queue as
  \<open>queue_init_establishes_ready\<close> shows \<^verbatim>\<open>ublksrv_queue_init\<close> to leave it.

  Not modelled: the Go side (\<^verbatim>\<open>c_bridge.go\<close>, \<^verbatim>\<open>ublk.go\<close>, \<^verbatim>\<open>api.go\<close>, the tools), log output, hints to
  the kernel (\<^verbatim>\<open>madvise\<close>, priorities, \<^verbatim>\<open>prctl\<close>), and declarations of the header that no code uses.

  Plan: the request bridge of \<^verbatim>\<open>c_bridge.go\<close> and \<^verbatim>\<open>ublk.go\<close> (the error path that completes twice,
  recycled request objects, unknown devices) as a target of the concurrent system; the start-up
  of a device from \<^verbatim>\<open>ublksrv_ctrl_init\<close> to the running daemon in one history; several queues.
\<close>

section \<open>The concurrent queue\<close>



text \<open>
  C2: Every request delivered to the target is committed exactly once: for each tag, the number of
  requests handed over is the number of commits issued plus the one that the target still holds,
  and it holds at most one.
\<close>

theorem commit_exactly_once:
  assumes "ready_queue q0" "reachable h q0 s"
  shows "sys_handed s t = sys_committed s t + count (outstanding s) t \<and> count (outstanding s) t \<le> 1"
proof -
  have inv: "inv s" using reachable_inv [OF assms(2,1)] .
  have "count (outstanding s) t \<le> 1"
    using inv_places [OF inv, of t] by (simp add: outstanding_def split: if_splits)
  with inv show ?thesis by (simp add: inv_def)
qed

theorem commit_exactly_once_witness:
  "sys_handed demo_busy 0 = sys_committed demo_busy 0 + 1"
  using commit_exactly_once [OF ready_demo_queue demo_reachable, of 0] by (simp add: demo_busy_simps)



text \<open>
  C4: No tag is ever lost or duplicated: at every moment each tag of the queue is in exactly one
  place - queued in the submission ring, with the driver, in the completion ring, with the target
  (before or after recording its result), or retired.
\<close>

theorem every_tag_in_one_place:
  assumes "ready_queue q0" "reachable h q0 s"
  shows "mset (map sqe_tag (q_sq (sys_q s))) + mset (map sqe_tag (sys_kernel s)) +
    mset (map cqe_tag (sys_cq s)) + sys_target s + sys_marked s + sys_retired s =
    mset [0..<q_depth (sys_q s)]"
  using reachable_inv [OF assms(2,1)] by (simp only: inv_def all_tags_def)

theorem every_tag_in_one_place_witness:
  "sys_target demo_busy + sys_retired demo_busy = {#0#} \<and> q_sq (sys_q demo_busy) = []"
proof -
  have d: "q_depth (sys_q demo_busy) = 1"
    by (simp add: demo_busy_def start_sys_def demo_delivered_def) (simp add: demo_queue_def)
  have "size (mset (map sqe_tag (q_sq (sys_q demo_busy))) + sys_target demo_busy + sys_retired demo_busy) \<le> 1"
    using arg_cong [OF every_tag_in_one_place [OF ready_demo_queue demo_reachable], of size] d by simp
  then show ?thesis by (simp add: demo_busy_simps)
qed

text \<open>
  C5: The concurrent system implements the protocol of a request slot: in every step each tag stays
  where it is or takes a step of the life cycle queued, fetched, posted, handed, marked, queued
  again, with the one exit from posted to retired; a retired tag stays retired.
\<close>

theorem slots_follow_life_cycle:
  assumes "ready_queue q0" "reachable h q0 s" "step h s s'"
  shows "place_of s' t = place_of s t \<or> life (place_of s t) (place_of s' t)"
  by (rule step_life [OF assms(3) reachable_inv [OF assms(2,1)]])

theorem slots_follow_life_cycle_witness:
  "\<exists>s'. step Little demo_busy s' \<and>
    (place_of s' 0 = place_of demo_busy 0 \<or> life (place_of demo_busy 0) (place_of s' 0))"
proof -
  have t: "0 \<in># sys_target demo_busy" by (simp add: demo_busy_simps)
  have "inv demo_busy" by (rule reachable_inv [OF demo_reachable ready_demo_queue])
  from mark_enabled [OF this t] slots_follow_life_cycle [OF ready_demo_queue demo_reachable]
  show ?thesis by blast
qed




text \<open>
  C7: A waiting daemon can always be released: from every reachable waiting state the target alone
  can bring the system to a state in which the daemon no longer has to wait.
\<close>

theorem waiting_daemon_released:
  assumes "ready_queue q0" "reachable h q0 s" "sys_pc s = Waiting"
  shows "\<exists>s'. (step h)\<^sup>*\<^sup>* s s' \<and> sys_pc s' = Waiting \<and> \<not> must_wait (sys_q s')"
  using drain [OF reachable_inv [OF assms(2,1)] assms(3)] by blast

theorem waiting_daemon_released_witness:
  "\<exists>s'. (step Little)\<^sup>*\<^sup>* demo_busy s' \<and> \<not> must_wait (sys_q s')"
  using waiting_daemon_released [OF ready_demo_queue demo_reachable] demo_busy_simps(1) by blast

text \<open>
  C6: The system does not get stuck before the daemon has left its loop, and no call on the hot path
  finds the lock taken or runs out of submission entries: in every reachable state the locks are
  free, some step is possible, and committing any recorded result succeeds and queues its entry.
\<close>

theorem never_stuck:
  assumes "ready_queue q0" "reachable h q0 s"
  shows "q_lock (sys_q s) = Unlocked \<and> (sys_pc s = Exited \<or> (\<exists>s'. step h s s')) \<and>
    length (q_sq (sys_q s)) + size (outstanding s) \<le> q_depth (sys_q s) \<and>
    {t. t \<in># sys_marked s} \<subseteq>
      {t. \<exists>q'. ublksrv_queue_io_cmd (Some old) (sys_q s) t (word_of_nat t) = Inr (1, q')}"
proof -
  have inv: "inv s" using reachable_inv [OF assms(2,1)] .
  have "size (mset (map sqe_tag (q_sq (sys_q s))) + outstanding s) \<le> size (all_tags s)"
    by (simp add: all_tags_def outstanding_def)
  moreover have "size (all_tags s) = q_depth (sys_q s)" using inv by (simp add: inv_def)
  ultimately have "length (q_sq (sys_q s)) + size (outstanding s) \<le> q_depth (sys_q s)" by simp
  moreover have "\<exists>q'. ublksrv_queue_io_cmd (Some old) (sys_q s) t (word_of_nat t) = Inr (1, q')"
    if "t \<in># sys_marked s" for t
    using issue_eq [OF inv that, of "Some old"] by blast
  ultimately show ?thesis
    using wf_queueD(1) [OF inv_wf [OF inv]] progress [OF inv] by blast
qed

theorem never_stuck_witness: "\<exists>s'. step Little demo_busy s'"
  using never_stuck [OF ready_demo_queue demo_reachable] demo_busy_simps(1) by simp

end
